(* ===== verification/Prelude.thy ===== *)
theory Prelude
  imports Main "HOL-Library.Word" "HOL-Library.AList" "HOL-Library.Multiset"
begin

text \<open>
  Shared vocabulary of the development: the machine integers of the Rust sources at their
  widths, the pieces of the Rust standard library the sources call (\<open>Vec::get\<close>,
  \<open>Iterator::position\<close>, \<open>min_by_key\<close>, \<open>saturating_sub\<close>, \<open>HashMap\<close>), the
  clock readings of a handler, and the generic lemmas the component theories share.

  The node follows the release profile that \<open>docker/Dockerfile\<close> builds: \<open>+\<close> on a fixed-width
  integer wraps. The development profile panics instead. For the hop counter, the cursor of data
  packets and the expiry of a route the theories show when the sum wraps; the counters, sequence
  numbers and request ids wrap after \<open>2 ^ 64\<close> steps. The benchmark, which the README runs in the
  development profile, is modelled in both.
\<close>

named_theorems hm_simps \<open>rewrite rules of the hash-map operations\<close>
named_theorems frame_simps \<open>state components an operation leaves unchanged\<close>

section \<open>Machine integers, results and addresses\<close>

type_synonym u8 = "8 word"
type_synonym u16 = "16 word"
type_synonym u32 = "32 word"
type_synonym u64 = "64 word"
type_synonym usize = "64 word"

text \<open>Sums and products in either profile; \<open>None\<close> is the overflow panic of the development profile.\<close>

datatype build_profile = Dev | Release

definition add_checked :: "build_profile \<Rightarrow> 'a::len word \<Rightarrow> 'a word \<Rightarrow> 'a word option" where
  "add_checked prof a b = (if prof = Dev \<and> 2 ^ LENGTH('a) \<le> unat a + unat b then None else Some (a + b))"

definition mul_checked :: "build_profile \<Rightarrow> 'a::len word \<Rightarrow> 'a word \<Rightarrow> 'a word option" where
  "mul_checked prof a b = (if prof = Dev \<and> 2 ^ LENGTH('a) \<le> unat a * unat b then None else Some (a * b))"

lemma checked_release [simp]: "add_checked Release a b = Some (a + b)" "mul_checked Release a b = Some (a * b)"
  by (simp_all add: add_checked_def mul_checked_def)

lemma checked_fits:
  fixes a b :: "'a::len word"
  shows "unat a + unat b < 2 ^ LENGTH('a) \<Longrightarrow> add_checked prof a b = Some (a + b) \<and> unat (a + b) = unat a + unat b"
    and "unat a * unat b < 2 ^ LENGTH('a) \<Longrightarrow> mul_checked prof a b = Some (a * b) \<and> unat (a * b) = unat a * unat b"
  by (auto simp: add_checked_def mul_checked_def unat_word_ariths)

lemma checked_dev_Some:
  fixes a b :: "'a::len word"
  shows "add_checked Dev a b = Some c \<longleftrightarrow> unat a + unat b < 2 ^ LENGTH('a) \<and> c = a + b"
    and "mul_checked Dev a b = Some c \<longleftrightarrow> unat a * unat b < 2 ^ LENGTH('a) \<and> c = a * b"
  by (auto simp: add_checked_def mul_checked_def)

text \<open>A Rust \<open>Result<T, E>\<close> is a sum with the error on the left.\<close>

type_synonym ('a, 'e) result = "'e + 'a"

text \<open>
  \<open>std::net::SocketAddr\<close>: the sources only compare and copy addresses. The fields are the
  ones its derived equality looks at.
\<close>

datatype socket_addr =
    SockV4 u32 u16
  | SockV6 "128 word" u16 u32 u32

text \<open>
  Successive readings of \<open>now_millis()\<close> during one handler invocation: reading number
  \<open>i\<close> is \<open>clk i\<close>. Nothing is assumed about them; the system clock may stand still or
  jump backwards. \<open>clock_tl\<close> is the tape after one reading.
\<close>

type_synonym clock = "nat \<Rightarrow> u64"

definition clock_tl :: "clock \<Rightarrow> clock" where
  "clock_tl clk = (\<lambda>i. clk (Suc i))"

lemma clock_tl_apply [simp]: "clock_tl clk i = clk (Suc i)"
  by (simp add: clock_tl_def)

definition saturating_sub :: "'a::len word \<Rightarrow> 'a word \<Rightarrow> 'a word" where
  "saturating_sub a b = (if b \<le> a then a - b else 0)"

lemma unat_saturating_sub: "unat (saturating_sub a b) = unat a - unat b"
  by (auto simp: saturating_sub_def unat_sub word_le_nat_alt)

lemma saturating_sub_le: "saturating_sub a b \<le> a"
  by (simp add: word_le_nat_alt unat_saturating_sub)

lemma unat_plus_one: "a < b \<Longrightarrow> unat (a + 1) = Suc (unat a)" for a b :: "'a::len word"
proof -
  assume "a < b"
  then have "Suc (unat a) \<le> unat b"
    by (simp add: word_less_nat_alt)
  also have "unat b < 2 ^ LENGTH('a)"
    by (rule unsigned_less)
  finally have "Suc (unat a) < 2 ^ LENGTH('a)" .
  then show ?thesis
    by (simp add: unat_word_ariths)
qed

lemma word_succ_le: "a < b \<Longrightarrow> a + 1 \<le> b" for a b :: "'a::len word"
  using unat_plus_one [of a b] by (simp add: word_le_nat_alt word_less_nat_alt)

lemma unat_u8_less: "unat (a :: u8) < 256"
  using unsigned_less [of a] by simp

text \<open>The sum of two words, with the one wrap-around it can have.\<close>

lemma mod_sum_wrap:
  "x < m \<Longrightarrow> y < m \<Longrightarrow> (x + y) mod m = (if x + y < m then x + y else x + y - m)" for x y m :: nat
  by (simp add: le_mod_geq)

lemma unat_plus_wrap:
  "unat (a + b) = (if unat a + unat b < 2 ^ LENGTH('a) then unat a + unat b
     else unat a + unat b - 2 ^ LENGTH('a))" for a b :: "'a::len word"
  unfolding unat_word_ariths(1) by (rule mod_sum_wrap) (rule unsigned_less)+

section \<open>Slices and iterators\<close>

definition slice_get :: "'a list \<Rightarrow> nat \<Rightarrow> 'a option" where
  "slice_get xs i = (if i < length xs then Some (xs ! i) else None)"

definition slice_last :: "'a list \<Rightarrow> 'a option" where
  "slice_last xs = (if xs = [] then None else Some (last xs))"

fun position :: "('a \<Rightarrow> bool) \<Rightarrow> 'a list \<Rightarrow> nat option" where
  "position P [] = None"
| "position P (x # xs) = (if P x then Some 0 else map_option Suc (position P xs))"

definition checked_pred :: "nat \<Rightarrow> nat option" where
  "checked_pred n = (case n of 0 \<Rightarrow> None | Suc m \<Rightarrow> Some m)"

text \<open>\<open>Iterator::min_by_key\<close> returns the first element with the least key.\<close>

fun min_by_key :: "('a \<Rightarrow> 'k::linorder) \<Rightarrow> 'a list \<Rightarrow> 'a option" where
  "min_by_key f [] = None"
| "min_by_key f (x # xs) =
     (case min_by_key f xs of
        None \<Rightarrow> Some x
      | Some y \<Rightarrow> if f x \<le> f y then Some x else Some y)"

lemma slice_get_Some [simp]:
  "slice_get xs i = Some x \<longleftrightarrow> i < length xs \<and> xs ! i = x"
  by (auto simp: slice_get_def)

lemma slice_get_None [simp]: "slice_get xs i = None \<longleftrightarrow> length xs \<le> i"
  by (auto simp: slice_get_def)

lemma slice_get_bounds [simp]:
  "i < length xs \<Longrightarrow> slice_get xs i = Some (xs ! i)"
  "length xs \<le> i \<Longrightarrow> slice_get xs i = None"
  by (auto simp: slice_get_def)

lemma slice_last_Some [simp]: "slice_last xs = Some x \<longleftrightarrow> xs \<noteq> [] \<and> last xs = x"
  by (auto simp: slice_last_def)

lemma slice_last_None [simp]: "slice_last xs = None \<longleftrightarrow> xs = []"
  by (auto simp: slice_last_def)

lemma checked_pred_simps [simp]:
  "checked_pred 0 = None" "checked_pred (Suc n) = Some n"
  by (simp_all add: checked_pred_def)

lemma position_Some:
  "position P xs = Some i \<longleftrightarrow> i < length xs \<and> P (xs ! i) \<and> (\<forall>j < i. \<not> P (xs ! j))"
proof (induction xs arbitrary: i)
  case Nil
  then show ?case by simp
next
  case (Cons x xs)
  show ?case
  proof (cases i)
    case 0
    then show ?thesis by auto
  next
    case (Suc k)
    then show ?thesis
      by (auto simp: Cons.IH less_Suc_eq_0_disj)
  qed
qed

lemma position_None: "position P xs = None \<longleftrightarrow> (\<forall>x \<in> set xs. \<not> P x)"
  by (induction xs) auto

lemma position_less: "position P xs = Some i \<Longrightarrow> i < length xs"
  by (simp add: position_Some)

lemma position_append_notin:
  "\<forall>x \<in> set xs. \<not> P x \<Longrightarrow> P y \<Longrightarrow> position P (xs @ y # ys) = Some (length xs)"
  by (auto simp: position_Some nth_append)

lemma min_by_key_None [simp]: "min_by_key f xs = None \<longleftrightarrow> xs = []"
  by (cases xs) (auto split: option.splits)

lemma min_by_key_in: "min_by_key f xs = Some x \<Longrightarrow> x \<in> set xs"
  by (induction xs arbitrary: x) (auto split: option.splits if_splits)

lemma min_by_key_le: "min_by_key f xs = Some x \<Longrightarrow> y \<in> set xs \<Longrightarrow> f x \<le> f y"
proof (induction xs arbitrary: x)
  case Nil
  then show ?case by simp
next
  case (Cons a xs)
  show ?case
  proof (cases "min_by_key f xs")
    case None
    with Cons.prems show ?thesis by auto
  next
    case (Some m)
    with Cons.IH have "y \<in> set xs \<Longrightarrow> f m \<le> f y" by blast
    with Cons.prems Some show ?thesis by (auto split: if_splits)
  qed
qed

text \<open>It is the first of the elements with the least key.\<close>

lemma min_by_key_first:
  "min_by_key f xs = Some x \<Longrightarrow>
     \<exists>ys zs. xs = ys @ x # zs \<and> (\<forall>y \<in> set ys. f x < f y)"
proof (induction xs arbitrary: x)
  case Nil
  then show ?case by simp
next
  case (Cons a xs)
  show ?case
  proof (cases "min_by_key f xs")
    case None
    with Cons.prems show ?thesis by fastforce
  next
    case (Some m)
    show ?thesis
    proof (cases "f a \<le> f m")
      case True
      with Cons.prems Some have "a # xs = [] @ x # xs" by simp
      then show ?thesis by (metis empty_iff empty_set)
    next
      case False
      with Cons.prems Some have "x = m" by simp
      with Cons.IH Some obtain ys zs
        where "xs = ys @ x # zs" "\<forall>y \<in> set ys. f x < f y" by blast
      with False \<open>x = m\<close> have "a # xs = (a # ys) @ x # zs" "\<forall>y \<in> set (a # ys). f x < f y"
        by auto
      then show ?thesis by blast
    qed
  qed
qed

lemma find_SomeD: "find P xs = Some x \<Longrightarrow> x \<in> set xs \<and> P x"
  by (induction xs) (auto split: if_splits)

lemma find_append:
  "find P (xs @ ys) = (case find P xs of Some x \<Rightarrow> Some x | None \<Rightarrow> find P ys)"
  by (induction xs) auto

lemma find_distinct_iff:
  "distinct (map f xs) \<Longrightarrow> find (\<lambda>x. f x = k) xs = Some x \<longleftrightarrow> x \<in> set xs \<and> f x = k"
  by (induction xs) (auto simp: image_iff)

lemma find_rev_distinct:
  assumes "distinct (map f xs)"
  shows "find (\<lambda>x. f x = k) (rev xs) = find (\<lambda>x. f x = k) xs"
proof -
  have "find (\<lambda>x. f x = k) (rev xs) = Some x \<longleftrightarrow> find (\<lambda>x. f x = k) xs = Some x" for x
    using assms by (simp add: find_distinct_iff rev_map [symmetric])
  then show ?thesis by (metis not_None_eq)
qed

lemma of_nat_word_inj:
  "m < 2 ^ LENGTH('a) \<Longrightarrow> n < 2 ^ LENGTH('a) \<Longrightarrow>
     (of_nat m :: 'a::len word) = of_nat n \<longleftrightarrow> m = n"
  by (simp add: word_of_nat_eq_iff take_bit_nat_eq_self)

section \<open>Hash maps\<close>

text \<open>
  A \<open>std::collections::HashMap\<close> is an association list with one entry per key. The order
  of the list is the order in which the map iterates, which Rust leaves unspecified (it
  depends on a random seed): results that iterate are shown independent of the order, or the
  step relation of the node lets the order change at any time.
\<close>

type_synonym ('k, 'v) hash_map = "('k \<times> 'v) list"

abbreviation hm_get :: "('k, 'v) hash_map \<Rightarrow> 'k \<Rightarrow> 'v option" where
  "hm_get m k \<equiv> map_of m k"

abbreviation hm_insert :: "'k \<Rightarrow> 'v \<Rightarrow> ('k, 'v) hash_map \<Rightarrow> ('k, 'v) hash_map" where
  "hm_insert k v m \<equiv> AList.update k v m"

abbreviation hm_remove :: "'k \<Rightarrow> ('k, 'v) hash_map \<Rightarrow> ('k, 'v) hash_map" where
  "hm_remove k m \<equiv> AList.delete k m"

abbreviation hm_values :: "('k, 'v) hash_map \<Rightarrow> 'v list" where
  "hm_values m \<equiv> map snd m"

abbreviation hm_retain :: "('k \<Rightarrow> 'v \<Rightarrow> bool) \<Rightarrow> ('k, 'v) hash_map \<Rightarrow> ('k, 'v) hash_map" where
  "hm_retain P m \<equiv> filter (\<lambda>(k, v). P k v) m"

definition hm_wf :: "('k, 'v) hash_map \<Rightarrow> bool" where
  "hm_wf m \<longleftrightarrow> distinct (map fst m)"

text \<open>The contract of the map type, as its clients use it.\<close>

locale hash_map_spec =
  fixes empty :: 'm
    and get :: "'m \<Rightarrow> 'k \<Rightarrow> 'v option"
    and insert :: "'k \<Rightarrow> 'v \<Rightarrow> 'm \<Rightarrow> 'm"
    and remove :: "'k \<Rightarrow> 'm \<Rightarrow> 'm"
    and retain :: "('k \<Rightarrow> 'v \<Rightarrow> bool) \<Rightarrow> 'm \<Rightarrow> 'm"
    and items :: "'m \<Rightarrow> ('k \<times> 'v) list"
    and wf :: "'m \<Rightarrow> bool"
  assumes wf_empty: "wf empty"
    and wf_insert: "wf m \<Longrightarrow> wf (insert k v m)"
    and wf_remove: "wf m \<Longrightarrow> wf (remove k m)"
    and wf_retain: "wf m \<Longrightarrow> wf (retain P m)"
    and get_empty: "get empty k = None"
    and get_insert: "get (insert k v m) k' = (if k' = k then Some v else get m k')"
    and get_remove: "get (remove k m) k' = (if k' = k then None else get m k')"
    and get_retain: "wf m \<Longrightarrow>
      get (retain P m) k = (case get m k of None \<Rightarrow> None | Some v \<Rightarrow> if P k v then Some v else None)"
    and items_get: "wf m \<Longrightarrow> (k, v) \<in> set (items m) \<longleftrightarrow> get m k = Some v"
    and items_keys: "wf m \<Longrightarrow> distinct (map fst (items m))"
begin

lemma items_insert:
  assumes "wf m"
  shows "set (items (insert k v m)) = {(k, v)} \<union> {e \<in> set (items m). fst e \<noteq> k}"
  using assms by (auto simp: items_get wf_insert get_insert split: if_splits)

lemma items_remove:
  assumes "wf m"
  shows "set (items (remove k m)) = {e \<in> set (items m). fst e \<noteq> k}"
  using assms by (auto simp: items_get wf_remove get_remove split: if_splits)

lemma items_retain:
  assumes "wf m"
  shows "set (items (retain P m)) = {e \<in> set (items m). P (fst e) (snd e)}"
  using assms by (auto simp: items_get wf_retain get_retain split: option.splits if_splits)

text \<open>A property of all entries survives an insertion that respects it, and any removal.\<close>

lemma all_insert:
  assumes "wf m" "\<forall>e \<in> set (items m). Q (fst e) (snd e)" "Q k v"
  shows "\<forall>e \<in> set (items (insert k v m)). Q (fst e) (snd e)"
  using assms by (simp add: items_insert)

lemma size_items_insert_new:
  assumes "wf m" "get m k = None"
  shows "length (items (insert k v m)) = Suc (length (items m))"
proof -
  have new: "k \<notin> fst ` set (items m)"
    using assms by (auto simp: items_get)
  have "set (map fst (items (insert k v m))) = {k} \<union> set (map fst (items m))"
    using assms new by (auto simp: items_insert image_iff)
  then have "card (set (map fst (items (insert k v m)))) = Suc (card (set (map fst (items m))))"
    using new by simp
  moreover have "card (set (map fst (items (insert k v m)))) = length (items (insert k v m))"
    using distinct_card [OF items_keys [OF wf_insert [OF assms(1)]], of k v] by simp
  moreover have "card (set (map fst (items m))) = length (items m)"
    using distinct_card [OF items_keys [OF assms(1)]] by simp
  ultimately show ?thesis by simp
qed

end

lemma map_of_filter_distinct:
  "distinct (map fst m) \<Longrightarrow>
     map_of (filter (\<lambda>(k, v). P k v) m) k =
       (case map_of m k of None \<Rightarrow> None | Some v \<Rightarrow> if P k v then Some v else None)"
  by (induction m) (auto simp: map_of_eq_None_iff image_iff split: option.splits)

interpretation hm: hash_map_spec "[]" map_of AList.update AList.delete
  "\<lambda>P m. filter (\<lambda>(k, v). P k v) m" "\<lambda>m. m" hm_wf
proof unfold_locales
  fix P :: "'k \<Rightarrow> 'v \<Rightarrow> bool" and m :: "('k \<times> 'v) list" and k
  assume "hm_wf m"
  then show "hm_wf (filter (\<lambda>(k, v). P k v) m)"
    by (simp add: hm_wf_def distinct_map_filter)
  show "map_of (filter (\<lambda>(k, v). P k v) m) k =
      (case map_of m k of None \<Rightarrow> None | Some v \<Rightarrow> if P k v then Some v else None)"
    using \<open>hm_wf m\<close> by (simp add: hm_wf_def map_of_filter_distinct)
qed (auto simp: hm_wf_def update_conv' delete_conv' distinct_update distinct_delete)

declare hm.wf_empty [simp, intro] hm.wf_insert [simp, intro] hm.wf_remove [simp, intro]
  hm.wf_retain [simp, intro]
declare hm.get_insert [hm_simps] hm.get_remove [hm_simps] hm.items_insert [hm_simps]
  hm.items_remove [hm_simps] hm.items_retain [hm_simps]

lemma hm_wf_perm: "mset m = mset m' \<Longrightarrow> hm_wf m \<longleftrightarrow> hm_wf m'"
  unfolding hm_wf_def by (metis mset_eq_imp_distinct_iff mset_map)

lemma hm_get_perm:
  assumes "mset m = mset m'" "hm_wf m"
  shows "hm_get m k = hm_get m' k"
proof -
  have "hm_wf m'" "set m = set m'"
    using assms hm_wf_perm mset_eq_setD by blast+
  then have "hm_get m k = Some v \<longleftrightarrow> hm_get m' k = Some v" for v
    using assms(2) by (simp flip: hm.items_get)
  then show ?thesis
    by (metis not_None_eq)
qed

lemma in_snd_image: "v \<in> snd ` A \<longleftrightarrow> (\<exists>k. (k, v) \<in> A)"
  by force

lemma hm_get_SomeD: "hm_get m k = Some v \<Longrightarrow> (k, v) \<in> set m"
  by (rule map_of_SomeD)

lemma hm_get_values: "hm_get m k = Some v \<Longrightarrow> v \<in> set (hm_values m)"
  by (force dest: map_of_SomeD)

section \<open>Invariants of transition systems\<close>

locale transition_invariant =
  fixes init :: "'s \<Rightarrow> bool"
    and step :: "'s \<Rightarrow> 's \<Rightarrow> bool"
    and inv :: "'s \<Rightarrow> bool"
  assumes inv_init: "init s \<Longrightarrow> inv s"
    and inv_step: "inv s \<Longrightarrow> step s t \<Longrightarrow> inv t"
begin

lemma inv_steps: "rtranclp step s t \<Longrightarrow> inv s \<Longrightarrow> inv t"
  by (induction rule: rtranclp_induct) (auto intro: inv_step)

lemma inv_reachable: "init s \<Longrightarrow> rtranclp step s t \<Longrightarrow> inv t"
  using inv_steps inv_init by blast

end

end
