(* ===== verification/Packets.thy ===== *)
theory Packets
  imports Prelude
begin

text \<open>
  \<open>crates/dldsr-core/src/packet.rs\<close>, \<open>error.rs\<close> and \<open>label.rs\<close>: the protocol mode and
  its textual forms, the packet type, the codec wrappers around \<open>bincode\<close> (whose two
  functions are parameters), the source-route header size, and the error type.
\<close>

section \<open>Errors and constants\<close>

datatype dldsr_error =
    LabelSpaceExhausted
  | RouteNotFound u32
  | UnknownLabel u8
  | Codec string

definition HELLO_INTERVAL_MS :: u64 where
  "HELLO_INTERVAL_MS = 800"

definition FIRST_DYNAMIC_LABEL :: u8 where
  "FIRST_DYNAMIC_LABEL = 1"

section \<open>Protocol mode\<close>

datatype protocol_mode = Dsr | DlDsr

definition to_ascii_lowercase :: "string \<Rightarrow> string" where
  "to_ascii_lowercase = map (\<lambda>c.
     if (65::nat) \<le> of_char c \<and> of_char c \<le> (90::nat) then char_of (of_char c + (32::nat)) else c)"

definition mode_from_str :: "string \<Rightarrow> (protocol_mode, string) result" where
  "mode_from_str value =
     (let v = to_ascii_lowercase value
      in if v = ''dsr'' then Inr Dsr
         else if v = ''dldsr'' \<or> v = ''dl-dsr'' then Inr DlDsr
         else Inl (''unknown protocol mode: '' @ v))"

fun mode_display :: "protocol_mode \<Rightarrow> string" where
  "mode_display Dsr = ''dsr''"
| "mode_display DlDsr = ''dldsr''"

section \<open>Packets\<close>

text \<open>The fields of every constructor stand in the order of the source.\<close>

datatype packet =
    Hello
      (hello_src: u32) (hello_timestamp: u64)
  | HelloReply
      (hr_src: u32) (hr_dst: u32) (hr_assigned_label: u8) (hr_update_flag: bool)
      (hr_timestamp: u64)
  | Rreq
      (rreq_src: u32) (rreq_dst: u32) (rreq_request_id: u64) (rreq_previous_hop: u32)
      (rreq_hop_count: u8) (rreq_dsr_path: "u32 list") (rreq_label_path: "u8 list")
      (rreq_trace_path: "u32 list") (rreq_created_at: u64)
  | Rrep
      (rrep_src: u32) (rrep_dst: u32) (rrep_request_id: u64) (rrep_dsr_path: "u32 list")
      (rrep_label_path: "u8 list") (rrep_trace_path: "u32 list") (rrep_created_at: u64)
  | Data
      (data_src: u32) (data_dst: u32) (data_sequence: u64) (data_mode: protocol_mode)
      (data_route_cursor: usize) (data_dsr_path: "u32 list") (data_label_path: "u8 list")
      (data_payload: "u8 list") (data_created_at: u64)
  | Ack
      (ack_src: u32) (ack_dst: u32) (ack_sequence: u64)
  | Error
      (error_src: u32) (error_dst: u32) (error_message: string)

text \<open>
  \<open>bincode::serialize\<close> and \<open>bincode::deserialize\<close> are arguments: \<open>ser\<close> and \<open>de\<close>
  return the bytes or the packet, or the text of the library's error.
\<close>

type_synonym serializer = "packet \<Rightarrow> (u8 list, string) result"
type_synonym deserializer = "u8 list \<Rightarrow> (packet, string) result"

definition packet_encode :: "serializer \<Rightarrow> packet \<Rightarrow> (u8 list, dldsr_error) result" where
  "packet_encode ser p = (case ser p of Inl err \<Rightarrow> Inl (Codec err) | Inr bytes \<Rightarrow> Inr bytes)"

definition packet_decode :: "deserializer \<Rightarrow> u8 list \<Rightarrow> (packet, dldsr_error) result" where
  "packet_decode de bytes = (case de bytes of Inl err \<Rightarrow> Inl (Codec err) | Inr p \<Rightarrow> Inr p)"

definition packet_encoded_len :: "serializer \<Rightarrow> packet \<Rightarrow> (usize, dldsr_error) result" where
  "packet_encoded_len ser p =
     (case packet_encode ser p of Inl e \<Rightarrow> Inl e | Inr bytes \<Rightarrow> Inr (of_nat (length bytes)))"

definition path_header_bytes :: "build_profile \<Rightarrow> protocol_mode \<Rightarrow> usize \<Rightarrow> usize option" where
  "path_header_bytes prof mode hops =
     (case mode of Dsr \<Rightarrow> mul_checked prof hops 4 | DlDsr \<Rightarrow> mul_checked prof hops 1)"

section \<open>Properties\<close>

lemma to_ascii_lowercase_append [simp]:
  "to_ascii_lowercase (xs @ ys) = to_ascii_lowercase xs @ to_ascii_lowercase ys"
  by (simp add: to_ascii_lowercase_def)

lemma to_ascii_lowercase_idem [simp]:
  "to_ascii_lowercase (to_ascii_lowercase xs) = to_ascii_lowercase xs"
  by (auto simp: to_ascii_lowercase_def)

text \<open>Parsing ignores the case of ASCII letters.\<close>

lemma mode_from_str_lowercase: "mode_from_str (to_ascii_lowercase s) = mode_from_str s"
  by (simp add: mode_from_str_def)

lemma mode_display_lowercase: "to_ascii_lowercase (mode_display m) = mode_display m"
  by (cases m) (simp_all add: to_ascii_lowercase_def)

lemma mode_from_display: "mode_from_str (mode_display m) = Inr m"
  by (cases m) (simp_all add: mode_from_str_def to_ascii_lowercase_def)

text \<open>
  The label header is a quarter of the node-id header as long as the multiplication does not
  wrap.
\<close>

text \<open>The size of an entry of the path, and the header as a natural number.\<close>

definition entry_bytes :: "protocol_mode \<Rightarrow> nat" where
  "entry_bytes mode = (case mode of Dsr \<Rightarrow> 4 | DlDsr \<Rightarrow> 1)"

lemma path_header_bytes_fits:
  assumes "entry_bytes mode * unat hops < 2 ^ 64"
  obtains h where "path_header_bytes prof mode hops = Some h" "unat h = entry_bytes mode * unat hops"
  using assms checked_fits(2) [of hops 4 prof] checked_fits(2) [of hops 1 prof]
  by (cases mode) (auto simp: path_header_bytes_def entry_bytes_def mult.commute)

lemma path_header_bytes_dev:
  "path_header_bytes Dev mode hops = Some h \<longleftrightarrow>
     entry_bytes mode * unat hops < 2 ^ 64 \<and> h = hops * of_nat (entry_bytes mode)"
  by (cases mode) (auto simp: path_header_bytes_def checked_dev_Some entry_bytes_def mult.commute)

section \<open>Text forms and header sizes\<close>

text \<open>
  C37. A mode is parsed exactly from its spellings, whatever the case of the letters, so that what
  is printed is read back; anything else is rejected with a message that quotes it.
\<close>

theorem mode_text_roundtrip:
  "mode_from_str (mode_display m) = Inr m
   \<and> (mode_from_str s = Inr m \<longleftrightarrow>
        to_ascii_lowercase s \<in> (case m of Dsr \<Rightarrow> {''dsr''} | DlDsr \<Rightarrow> {''dldsr'', ''dl-dsr''}))
   \<and> (mode_from_str s = Inl err \<longrightarrow> err = ''unknown protocol mode: '' @ to_ascii_lowercase s)"
  using mode_from_display by (auto simp: mode_from_str_def Let_def split: protocol_mode.split)

theorem mode_text_roundtrip_witness:
  "mode_from_str ''DL-dsr'' = Inr DlDsr"
proof -
  have "to_ascii_lowercase ''DL-dsr'' = ''dl-dsr''"
    by code_simp
  then show ?thesis
    using mode_text_roundtrip [of DlDsr "''DL-dsr''"] by simp
qed

end
