(* ===== verification/Topology.thy ===== *)
theory Topology
  imports Packets
begin

text \<open>
  \<open>crates/dldsr-core/src/topology.rs\<close>: the topology file's nodes, the node configuration
  with its defaults, the chain generator and the two look-ups.
\<close>

section \<open>Data\<close>

record topology_node =
  tn_node_id :: u32
  tn_endpoint :: socket_addr
  tn_neighbors :: "u32 list"

record topology =
  topo_nodes :: "topology_node list"

record demo_send_config =
  demo_dst_node_id :: u32
  demo_payload :: string
  demo_start_after_ms :: u64

record node_config =
  cfg_node_id :: u32
  cfg_bind_addr :: socket_addr
  cfg_protocol_mode :: protocol_mode
  cfg_hello_interval_ms :: u64
  cfg_route_cache_ttl_ms :: u64
  cfg_neighbor_ttl_ms :: u64
  cfg_log_level :: string
  cfg_topology :: topology
  cfg_demo_send :: "demo_send_config option"
  cfg_route_discovery_timeout_ms :: u64
  cfg_route_discovery_max_retries :: u32
  cfg_max_rreq_hops :: u8
  cfg_seen_request_ttl_ms :: u64
  cfg_seen_request_max_entries :: usize
  cfg_metrics_output_path :: "string option"
  cfg_control_bind_addr :: "socket_addr option"
  cfg_strict_protocol_mode :: bool

definition default_hello_interval_ms :: u64 where
  "default_hello_interval_ms = 800"

definition default_route_cache_ttl_ms :: u64 where
  "default_route_cache_ttl_ms = 30000"

definition default_neighbor_ttl_ms :: u64 where
  "default_neighbor_ttl_ms = 5000"

definition default_log_level :: string where
  "default_log_level = ''info''"

definition default_route_discovery_timeout_ms :: u64 where
  "default_route_discovery_timeout_ms = 2000"

definition default_route_discovery_max_retries :: u32 where
  "default_route_discovery_max_retries = 3"

definition default_max_rreq_hops :: u8 where
  "default_max_rreq_hops = 64"

definition default_seen_request_ttl_ms :: u64 where
  "default_seen_request_ttl_ms = 60000"

definition default_seen_request_max_entries :: usize where
  "default_seen_request_max_entries = 10000"

definition default_strict_protocol_mode :: bool where
  "default_strict_protocol_mode = True"

section \<open>Operations\<close>

definition topology_node_at :: "usize \<Rightarrow> u16 \<Rightarrow> nat \<Rightarrow> topology_node" where
  "topology_node_at nodes base_port idx =
     \<lparr>tn_node_id = of_nat idx,
      tn_endpoint = SockV4 0x7F000001 (base_port + of_nat idx),
      tn_neighbors =
        (if 0 < idx then [of_nat (idx - 1)] else [])
        @ (if idx + 1 < unat nodes then [of_nat (idx + 1)] else [])\<rparr>"

definition topology_chain :: "usize \<Rightarrow> u16 \<Rightarrow> topology" where
  "topology_chain nodes base_port =
     \<lparr>topo_nodes = map (topology_node_at nodes base_port) [0..<unat nodes]\<rparr>"

definition topology_node_by_id :: "topology \<Rightarrow> u32 \<Rightarrow> topology_node option" where
  "topology_node_by_id t node_id = find (\<lambda>node. tn_node_id node = node_id) (topo_nodes t)"

text \<open>Collecting into a \<open>HashMap\<close> inserts the pairs one by one, so a later duplicate wins.\<close>

definition topology_endpoints :: "topology \<Rightarrow> (u32, socket_addr) hash_map" where
  "topology_endpoints t =
     fold (\<lambda>node m. hm_insert (tn_node_id node) (tn_endpoint node) m) (topo_nodes t) []"

section \<open>Well-formed topologies\<close>

text \<open>Node ids and endpoints identify nodes.\<close>

definition topology_wf :: "topology \<Rightarrow> bool" where
  "topology_wf t \<longleftrightarrow>
     distinct (map tn_node_id (topo_nodes t)) \<and> distinct (map tn_endpoint (topo_nodes t))"

lemma topology_node_by_id_Some:
  "topology_wf t \<Longrightarrow>
     topology_node_by_id t i = Some node \<longleftrightarrow> node \<in> set (topo_nodes t) \<and> tn_node_id node = i"
  by (simp add: topology_node_by_id_def topology_wf_def find_distinct_iff)

lemma topology_node_by_id_id:
  "topology_node_by_id t i = Some node \<Longrightarrow> tn_node_id node = i \<and> node \<in> set (topo_nodes t)"
  by (auto simp: topology_node_by_id_def find_Some_iff)

lemma hm_get_fold_insert:
  "hm_get (fold (\<lambda>x m. hm_insert (f x) (g x) m) xs m) k =
     (case find (\<lambda>x. f x = k) (rev xs) of Some x \<Rightarrow> Some (g x) | None \<Rightarrow> hm_get m k)"
  by (induction xs arbitrary: m)
    (auto simp: hm.get_insert find_append split: option.splits)

text \<open>With unique ids the two look-ups agree, although one takes the first and one the last match.\<close>

lemma endpoints_eq_node_endpoint:
  "topology_wf t \<Longrightarrow>
     hm_get (topology_endpoints t) i = map_option tn_endpoint (topology_node_by_id t i)"
  by (auto simp: topology_endpoints_def hm_get_fold_insert topology_node_by_id_def
      topology_wf_def find_rev_distinct split: option.splits)

section \<open>The chain generator\<close>

lemma length_chain [simp]: "length (topo_nodes (topology_chain n p)) = unat n"
  by (simp add: topology_chain_def)

lemma chain_ids: "map tn_node_id (topo_nodes (topology_chain n p)) = map of_nat [0..<unat n]"
  by (simp add: topology_chain_def topology_node_at_def comp_def)

lemma chain_endpoints:
  "map tn_endpoint (topo_nodes (topology_chain n p)) =
     map (\<lambda>i. SockV4 0x7F000001 (p + of_nat i)) [0..<unat n]"
  by (simp add: topology_chain_def topology_node_at_def comp_def)

lemma topology_chain_wf:
  assumes "unat n \<le> 2 ^ 16"
  shows "topology_wf (topology_chain n p)"
proof -
  have "inj_on (of_nat :: nat \<Rightarrow> u32) {0..<unat n}"
    using assms by (auto intro!: inj_onI simp: of_nat_word_inj)
  moreover have "inj_on (\<lambda>i. SockV4 0x7F000001 (p + of_nat i)) {0..<unat n}"
    using assms by (auto intro!: inj_onI simp: of_nat_word_inj)
  ultimately show ?thesis
    by (simp add: topology_wf_def chain_ids chain_endpoints distinct_map)
qed

lemma chain_node_by_id:
  assumes "unat n \<le> 2 ^ 16" "i < unat n"
  shows "topology_node_by_id (topology_chain n p) (of_nat i) = Some (topology_node_at n p i)"
  using assms
  by (simp add: topology_node_by_id_Some [OF topology_chain_wf])
    (simp add: topology_chain_def topology_node_at_def)

text \<open>Node \<open>i\<close> of a chain is a neighbour of exactly its two successors in the numbering.\<close>

lemma chain_neighbors:
  "set (tn_neighbors (topology_node_at n p i)) =
     of_nat ` {j. j < unat n \<and> (j + 1 = i \<or> j = i + 1)}" if "i < unat n"
proof -
  have "{j. j < unat n \<and> (j + 1 = i \<or> j = i + 1)} =
      (if 0 < i then {i - 1} else {}) \<union> (if i + 1 < unat n then {i + 1} else {})"
    using that by auto
  then show ?thesis
    by (simp add: topology_node_at_def)
qed

section \<open>Correctness of the look-ups and the generator\<close>

text \<open>With unique ids the endpoint map and the node look-up agree.\<close>

lemma endpoint_map_agrees_with_nodes:
  assumes "distinct (map tn_node_id (topo_nodes t))"
  shows "hm_get (topology_endpoints t) i = map_option tn_endpoint (topology_node_by_id t i)"
  using assms
  by (auto simp: topology_endpoints_def hm_get_fold_insert topology_node_by_id_def find_rev_distinct
      split: option.splits)

text \<open>
  C36. The generated chain is a line: up to 65536 nodes, ids and endpoints are unique, node \<open>i\<close> is
  found under its id, listens on the \<open>i\<close>-th port, and its neighbours are exactly the nodes right
  before and right after it, so that the neighbour relation is symmetric.
\<close>

theorem chain_is_a_line:
  assumes "unat n \<le> 2 ^ 16" "i < unat n"
  shows "topology_wf (topology_chain n p)
    \<and> (\<exists>node. topology_node_by_id (topology_chain n p) (of_nat i) = Some node
        \<and> tn_endpoint node = SockV4 0x7F000001 (p + of_nat i)
        \<and> set (tn_neighbors node) = of_nat ` {j. j < unat n \<and> (j + 1 = i \<or> j = i + 1)})"
  using assms chain_node_by_id [OF assms] chain_neighbors [OF assms(2)] topology_chain_wf
  by (simp add: topology_node_at_def)

theorem chain_is_a_line_witness:
  "\<exists>node. topology_node_by_id (topology_chain 5 7000) 2 = Some node
     \<and> set (tn_neighbors node) = of_nat ` {j. j < 5 \<and> (j + 1 = 2 \<or> j = 2 + 1)}"
  using chain_is_a_line [of 5 2 7000] by auto

end
