(* ===== verification/Tables.thy ===== *)
theory Tables
  imports Packets
begin

text \<open>
  \<open>crates/dldsr-core/src/tables.rs\<close>: the neighbour table, which hands out one dynamic
  label per neighbour, and the label table, which remembers the labels the neighbours handed
  out. The contract the protocol relies on is the locale \<open>label_allocator\<close>, interpreted
  on the neighbour table below.
\<close>

section \<open>The neighbour table\<close>

record neighbor_entry =
  ne_node_id :: u32
  ne_label_assigned_by_me :: u8
  ne_last_seen_millis :: u64
  ne_endpoint :: socket_addr
  ne_alive :: bool

record neighbor_table =
  nt_entries :: "(u32, neighbor_entry) hash_map"

definition neighbor_table_default :: neighbor_table where
  "neighbor_table_default = \<lparr>nt_entries = []\<rparr>"

text \<open>The candidates of \<open>(1..=u8::MAX)\<close>, in order.\<close>

definition label_candidates :: "u8 list" where
  "label_candidates = map of_nat [1..<256]"

definition label_in_use :: "neighbor_table \<Rightarrow> u8 \<Rightarrow> bool" where
  "label_in_use t candidate =
     list_ex (\<lambda>entry. ne_alive entry \<and> ne_label_assigned_by_me entry = candidate)
       (hm_values (nt_entries t))"

definition free_label :: "neighbor_table \<Rightarrow> u8 option" where
  "free_label t = find (\<lambda>candidate. \<not> label_in_use t candidate) label_candidates"

definition assign_or_reuse_label ::
    "neighbor_table \<Rightarrow> u32 \<Rightarrow> socket_addr \<Rightarrow> u64 \<Rightarrow> neighbor_table \<times> (u8, dldsr_error) result" where
  "assign_or_reuse_label t node_id endpoint now =
     (case hm_get (nt_entries t) node_id of
        Some entry \<Rightarrow>
          (let entry' = entry\<lparr>ne_endpoint := endpoint, ne_last_seen_millis := now, ne_alive := True\<rparr>
           in (\<lparr>nt_entries = hm_insert node_id entry' (nt_entries t)\<rparr>,
               Inr (ne_label_assigned_by_me entry)))
      | None \<Rightarrow>
          (case free_label t of
             None \<Rightarrow> (t, Inl LabelSpaceExhausted)
           | Some label \<Rightarrow>
               (\<lparr>nt_entries = hm_insert node_id
                   \<lparr>ne_node_id = node_id, ne_label_assigned_by_me = label,
                    ne_last_seen_millis = now, ne_endpoint = endpoint, ne_alive = True\<rparr>
                   (nt_entries t)\<rparr>,
                Inr label)))"

definition neighbor_by_label :: "neighbor_table \<Rightarrow> u8 \<Rightarrow> neighbor_entry option" where
  "neighbor_by_label t label =
     find (\<lambda>entry. ne_alive entry \<and> ne_label_assigned_by_me entry = label)
       (hm_values (nt_entries t))"

definition neighbor_get :: "neighbor_table \<Rightarrow> u32 \<Rightarrow> neighbor_entry option" where
  "neighbor_get t node_id = hm_get (nt_entries t) node_id"

definition neighbor_entries :: "neighbor_table \<Rightarrow> neighbor_entry list" where
  "neighbor_entries t = hm_values (nt_entries t)"

section \<open>The label table\<close>

record label_entry =
  le_neighbor_node_id :: u32
  le_label_assigned_to_me :: u8
  le_last_seen_millis :: u64

record label_table =
  lt_entries :: "(u32, label_entry) hash_map"

definition label_table_default :: label_table where
  "label_table_default = \<lparr>lt_entries = []\<rparr>"

definition update_from_hello_reply :: "label_table \<Rightarrow> u32 \<Rightarrow> u8 \<Rightarrow> u64 \<Rightarrow> label_table" where
  "update_from_hello_reply t neighbor_node_id label now =
     \<lparr>lt_entries = hm_insert neighbor_node_id
        \<lparr>le_neighbor_node_id = neighbor_node_id, le_label_assigned_to_me = label,
         le_last_seen_millis = now\<rparr>
        (lt_entries t)\<rparr>"

definition label_assigned_by_neighbor :: "label_table \<Rightarrow> u32 \<Rightarrow> u8 option" where
  "label_assigned_by_neighbor t neighbor_node_id =
     map_option le_label_assigned_to_me (hm_get (lt_entries t) neighbor_node_id)"

section \<open>Invariant of the neighbour table\<close>

text \<open>
  One entry per node, filed under its own id; every entry is alive and has a label of its
  own, and the label 0 is never used.
\<close>

definition neighbor_table_wf :: "neighbor_table \<Rightarrow> bool" where
  "neighbor_table_wf t \<longleftrightarrow>
     hm_wf (nt_entries t)
     \<and> (\<forall>(k, e) \<in> set (nt_entries t).
          ne_node_id e = k \<and> ne_alive e \<and> ne_label_assigned_by_me e \<noteq> 0)
     \<and> (\<forall>(k, e) \<in> set (nt_entries t). \<forall>(k', e') \<in> set (nt_entries t).
          ne_label_assigned_by_me e = ne_label_assigned_by_me e' \<longrightarrow> k = k')"

definition label_of :: "neighbor_table \<Rightarrow> u32 \<Rightarrow> u8 option" where
  "label_of t node_id = map_option ne_label_assigned_by_me (neighbor_get t node_id)"

definition node_of_label :: "neighbor_table \<Rightarrow> u8 \<Rightarrow> u32 option" where
  "node_of_label t label = map_option ne_node_id (neighbor_by_label t label)"

lemma neighbor_table_wf_hm [dest]: "neighbor_table_wf t \<Longrightarrow> hm_wf (nt_entries t)"
  by (simp add: neighbor_table_wf_def)

lemma neighbor_table_wf_entry:
  "neighbor_table_wf t \<Longrightarrow> (k, e) \<in> set (nt_entries t) \<Longrightarrow>
     ne_node_id e = k \<and> ne_alive e \<and> ne_label_assigned_by_me e \<noteq> 0"
  by (auto simp: neighbor_table_wf_def)

lemma neighbor_table_wf_label:
  "neighbor_table_wf t \<Longrightarrow> (k, e) \<in> set (nt_entries t) \<Longrightarrow> (k', e') \<in> set (nt_entries t) \<Longrightarrow>
     ne_label_assigned_by_me e = ne_label_assigned_by_me e' \<Longrightarrow> k = k'"
  unfolding neighbor_table_wf_def by blast

lemma neighbor_table_wf_default [simp]: "neighbor_table_wf neighbor_table_default"
  by (simp add: neighbor_table_wf_def neighbor_table_default_def)

text \<open>
  Inserting an entry that is alive, filed under its id, and whose non-zero label no other node
  has keeps the invariant. Both branches of the allocation are instances.
\<close>

lemma neighbor_table_wf_insert:
  assumes wf: "neighbor_table_wf t"
    and e: "ne_node_id e = k" "ne_alive e" "ne_label_assigned_by_me e \<noteq> 0"
    and fresh: "\<forall>(k', e') \<in> set (nt_entries t).
      ne_label_assigned_by_me e' = ne_label_assigned_by_me e \<longrightarrow> k' = k"
  shows "neighbor_table_wf \<lparr>nt_entries = hm_insert k e (nt_entries t)\<rparr>"
proof -
  have hm: "hm_wf (nt_entries t)"
    using wf by blast
  show ?thesis
    unfolding neighbor_table_wf_def
  proof (intro conjI)
    show "hm_wf (nt_entries \<lparr>nt_entries = hm_insert k e (nt_entries t)\<rparr>)"
      using hm by simp
  qed (use hm e fresh neighbor_table_wf_entry [OF wf] neighbor_table_wf_label [OF wf]
      in \<open>auto simp: hm_simps\<close>)
qed

lemma set_label_candidates: "set label_candidates = UNIV - {0}"
proof -
  have eq: "set label_candidates = (of_nat :: nat \<Rightarrow> u8) ` {1..<256}"
    unfolding label_candidates_def set_map set_upt ..
  have "x \<in> of_nat ` {1..<256}" if "x \<noteq> 0" for x :: u8
  proof (rule image_eqI)
    show "x = of_nat (unat x)"
      by simp
    have "unat x \<noteq> 0" "unat x < 256"
      using that unsigned_less [of x] by (auto simp: unat_eq_0)
    then show "unat x \<in> {1..<256}"
      by simp
  qed
  moreover have "(of_nat k :: u8) \<noteq> 0" if "1 \<le> k" "k < 256" for k
    using that of_nat_word_inj [of k 0, where 'a = 8] by simp
  ultimately show ?thesis
    unfolding eq by fastforce
qed

lemma label_in_use_iff:
  assumes wf: "neighbor_table_wf t"
  shows "label_in_use t l \<longleftrightarrow> (\<exists>(k, e) \<in> set (nt_entries t). ne_label_assigned_by_me e = l)"
proof -
  have "ne_alive (snd x)" if "x \<in> set (nt_entries t)" for x
    using neighbor_table_wf_entry [OF wf, of "fst x" "snd x"] that by simp
  then show ?thesis
    by (auto simp: label_in_use_def list_ex_iff split_beta)
qed

lemma free_label_in_candidates: "free_label t = Some l \<Longrightarrow> l \<noteq> 0 \<and> \<not> label_in_use t l"
  using set_label_candidates by (auto simp: free_label_def dest!: find_SomeD)

lemma free_label_None: "free_label t = None \<longleftrightarrow> (\<forall>l. l \<noteq> 0 \<longrightarrow> label_in_use t l)"
  using set_label_candidates by (auto simp: free_label_def find_None_iff)

lemma neighbor_table_wf_assign:
  assumes wf: "neighbor_table_wf t"
  shows "neighbor_table_wf (fst (assign_or_reuse_label t n a now))"
proof (cases "hm_get (nt_entries t) n")
  case (Some e)
  then have "(n, e) \<in> set (nt_entries t)"
    by (rule hm_get_SomeD)
  with Some show ?thesis
    using neighbor_table_wf_entry [OF wf] neighbor_table_wf_label [OF wf]
    by (auto simp: assign_or_reuse_label_def intro!: neighbor_table_wf_insert [OF wf])
next
  case None
  with wf show ?thesis
    by (auto simp: assign_or_reuse_label_def label_in_use_iff split: option.split
        dest!: free_label_in_candidates intro!: neighbor_table_wf_insert)
qed

lemma nt_entries_default [simp]: "nt_entries neighbor_table_default = []"
  by (simp add: neighbor_table_default_def)

lemma free_label_default [simp]: "free_label neighbor_table_default = Some 1"
  by (simp add: free_label_def label_candidates_def label_in_use_def neighbor_table_default_def
      upt_conv_Cons)

text \<open>Looking a label up finds the one node that has it, in whatever order the map iterates.\<close>

lemma neighbor_by_label_Some:
  assumes wf: "neighbor_table_wf t"
  shows "neighbor_by_label t l = Some e \<longleftrightarrow>
    e \<in> set (hm_values (nt_entries t)) \<and> ne_label_assigned_by_me e = l"
proof -
  have "x = e" if "x \<in> set (hm_values (nt_entries t))" "e \<in> set (hm_values (nt_entries t))"
      "ne_label_assigned_by_me x = ne_label_assigned_by_me e" for x
  proof -
    from that obtain k k' where "(k, x) \<in> set (nt_entries t)" "(k', e) \<in> set (nt_entries t)"
      by auto
    moreover from this have "k = k'"
      using neighbor_table_wf_label [OF wf] that by blast
    moreover have "hm_wf (nt_entries t)"
      using wf by blast
    ultimately show ?thesis
      by (simp add: hm.items_get)
  qed
  then have uniq: "\<lbrakk>x \<in> set (hm_values (nt_entries t)); e \<in> set (hm_values (nt_entries t));
      ne_label_assigned_by_me x = ne_label_assigned_by_me e\<rbrakk> \<Longrightarrow> x = e" for x .
  show ?thesis
  proof
    assume "neighbor_by_label t l = Some e"
    then show "e \<in> set (hm_values (nt_entries t)) \<and> ne_label_assigned_by_me e = l"
      by (auto simp: neighbor_by_label_def dest!: find_SomeD)
  next
    assume e: "e \<in> set (hm_values (nt_entries t)) \<and> ne_label_assigned_by_me e = l"
    then have "neighbor_by_label t l \<noteq> None"
      using neighbor_table_wf_entry [OF wf]
      by (auto simp: neighbor_by_label_def find_None_iff in_snd_image)
    then obtain x where x: "neighbor_by_label t l = Some x"
      by blast
    then have "x \<in> set (hm_values (nt_entries t))" "ne_label_assigned_by_me x = l"
      by (auto simp: neighbor_by_label_def dest!: find_SomeD)
    with e uniq x show "neighbor_by_label t l = Some e"
      by metis
  qed
qed

lemma neighbor_get_mem:
  "neighbor_table_wf t \<Longrightarrow> neighbor_get t n = Some e \<longleftrightarrow> (n, e) \<in> set (nt_entries t)"
  by (auto simp: neighbor_get_def hm.items_get)

lemma neighbor_by_label_get:
  assumes wf: "neighbor_table_wf t"
  shows "neighbor_by_label t l = Some e \<longleftrightarrow>
    neighbor_get t (ne_node_id e) = Some e \<and> ne_label_assigned_by_me e = l"
proof -
  have "e \<in> set (hm_values (nt_entries t)) \<longleftrightarrow> (ne_node_id e, e) \<in> set (nt_entries t)"
    using neighbor_table_wf_entry [OF wf] by (auto simp: in_snd_image)
  then show ?thesis
    by (simp add: neighbor_by_label_Some [OF wf] neighbor_get_mem [OF wf])
qed

lemma neighbor_get_node_id:
  "neighbor_table_wf t \<Longrightarrow> neighbor_get t n = Some e \<Longrightarrow> ne_node_id e = n"
  using neighbor_table_wf_entry by (auto simp: neighbor_get_mem)

lemma neighbor_get_resolves:
  "neighbor_table_wf t \<Longrightarrow> neighbor_get t n = Some e \<Longrightarrow>
     neighbor_by_label t (ne_label_assigned_by_me e) = Some e"
  using neighbor_get_node_id by (fastforce simp: neighbor_by_label_get)

lemma node_of_label_iff:
  assumes wf: "neighbor_table_wf t"
  shows "node_of_label t l = Some n \<longleftrightarrow> label_of t n = Some l"
  using neighbor_table_wf_entry [OF wf]
  by (auto simp: node_of_label_def label_of_def neighbor_by_label_get [OF wf] neighbor_get_mem [OF wf])

section \<open>The allocator contract\<close>

text \<open>
  What the protocol relies on: a label once handed out stays with its node, no two nodes share
  one, a failed allocation changes nothing, and looking a label up inverts the assignment.
\<close>

locale label_allocator =
  fixes assign :: "'t \<Rightarrow> 'n \<Rightarrow> 'a \<Rightarrow> 'w \<Rightarrow> 't \<times> ('e + 'l)"
    and label :: "'t \<Rightarrow> 'n \<Rightarrow> 'l option"
    and owner :: "'t \<Rightarrow> 'l \<Rightarrow> 'n option"
    and wf :: "'t \<Rightarrow> bool"
  assumes wf_assign: "wf t \<Longrightarrow> wf (fst (assign t n a now))"
    and assign_label: "wf t \<Longrightarrow> snd (assign t n a now) = Inr l \<Longrightarrow>
      label (fst (assign t n a now)) n = Some l"
    and assign_error: "wf t \<Longrightarrow> snd (assign t n a now) = Inl e \<Longrightarrow>
      fst (assign t n a now) = t \<and> label t n = None"
    and assign_reuse: "wf t \<Longrightarrow> label t n = Some l \<Longrightarrow> snd (assign t n a now) = Inr l"
    and assign_other: "wf t \<Longrightarrow> m \<noteq> n \<Longrightarrow> label (fst (assign t n a now)) m = label t m"
    and owner_label: "wf t \<Longrightarrow> owner t l = Some n \<longleftrightarrow> label t n = Some l"
begin

definition assign_all :: "('n \<times> 'a \<times> 'w) list \<Rightarrow> 't \<Rightarrow> 't" where
  "assign_all reqs t = fold (\<lambda>(n, a, now) t. fst (assign t n a now)) reqs t"

lemma label_stable:
  assumes "wf t" "label t n = Some l"
  shows "label (fst (assign t m a now)) n = Some l"
  using assms assign_reuse [of t n l a now] assign_label [of t n a now l] assign_other [of t n m a now]
  by (cases "n = m") auto

lemma label_inj: "wf t \<Longrightarrow> label t n = Some l \<Longrightarrow> label t m = Some l \<Longrightarrow> n = m"
  by (metis option.inject owner_label)

lemma assign_fresh:
  assumes "wf t" "label t n = None" "snd (assign t n a now) = Inr l"
  shows "owner t l = None"
proof (rule ccontr)
  assume "owner t l \<noteq> None"
  then obtain m where m: "label t m = Some l"
    using owner_label [OF assms(1)] by blast
  with assms have "label (fst (assign t n a now)) m = Some l"
    by (blast intro: label_stable)
  with assms have "m = n"
    by (blast intro: label_inj wf_assign assign_label)
  with m assms(2) show False by simp
qed

lemma assign_all_wf_stable:
  "wf t \<Longrightarrow> wf (assign_all reqs t) \<and> (label t n = Some l \<longrightarrow> label (assign_all reqs t) n = Some l)"
proof (induction reqs arbitrary: t)
  case Nil
  then show ?case by (simp add: assign_all_def)
next
  case (Cons r reqs)
  obtain m a now where r: "r = (m, a, now)"
    by (cases r)
  show ?case
    using Cons.IH [OF wf_assign [OF Cons.prems, of m a now]] label_stable [OF Cons.prems, of n l m a now]
    by (auto simp: assign_all_def r)
qed

end

lemma neighbor_get_assign:
  "neighbor_get (fst (assign_or_reuse_label t n a now)) m =
     (case snd (assign_or_reuse_label t n a now) of
        Inl e \<Rightarrow> neighbor_get t m
      | Inr l \<Rightarrow> if m = n
          then Some \<lparr>ne_node_id = (case neighbor_get t n of None \<Rightarrow> n | Some e \<Rightarrow> ne_node_id e),
                     ne_label_assigned_by_me = l, ne_last_seen_millis = now,
                     ne_endpoint = a, ne_alive = True\<rparr>
          else neighbor_get t m)"
  by (auto simp: assign_or_reuse_label_def neighbor_get_def hm_simps Let_def split: option.split)

lemma label_of_assign:
  "label_of (fst (assign_or_reuse_label t n a now)) m =
     (case snd (assign_or_reuse_label t n a now) of
        Inl e \<Rightarrow> label_of t m | Inr l \<Rightarrow> if m = n then Some l else label_of t m)"
  by (simp add: label_of_def neighbor_get_assign split: sum.split)

lemma assign_error:
  "snd (assign_or_reuse_label t n a now) = Inl e \<longleftrightarrow>
     e = LabelSpaceExhausted \<and> neighbor_get t n = None \<and> free_label t = None"
  by (auto simp: assign_or_reuse_label_def neighbor_get_def Let_def split: option.splits)

lemma assign_known:
  "neighbor_get t n = Some e \<Longrightarrow>
     snd (assign_or_reuse_label t n a now) = Inr (ne_label_assigned_by_me e)"
  by (simp add: assign_or_reuse_label_def neighbor_get_def Let_def)

lemma assign_new:
  "neighbor_get t n = None \<Longrightarrow> free_label t = Some l \<Longrightarrow>
     snd (assign_or_reuse_label t n a now) = Inr l"
  by (simp add: assign_or_reuse_label_def neighbor_get_def)

interpretation nt: label_allocator assign_or_reuse_label label_of node_of_label neighbor_table_wf
proof unfold_locales
  fix t n a now e
  assume err: "snd (assign_or_reuse_label t n a now) = Inl e"
  then show "fst (assign_or_reuse_label t n a now) = t \<and> label_of t n = None"
    by (auto simp: assign_error label_of_def assign_or_reuse_label_def neighbor_get_def
        split: option.splits)
next
  fix t n a now l
  assume "label_of t n = Some l"
  then show "snd (assign_or_reuse_label t n a now) = Inr l"
    by (auto simp: label_of_def assign_known)
qed (simp_all add: neighbor_table_wf_assign node_of_label_iff label_of_assign split: sum.split)

section \<open>Label space\<close>

lemma labels_distinct:
  assumes wf: "neighbor_table_wf t"
  shows "distinct (map (ne_label_assigned_by_me \<circ> snd) (nt_entries t))"
proof -
  have "distinct (nt_entries t)" "hm_wf (nt_entries t)"
    using neighbor_table_wf_hm [OF wf] by (auto simp: hm_wf_def distinct_map)
  moreover have "inj_on (ne_label_assigned_by_me \<circ> snd) (set (nt_entries t))"
  proof (rule inj_onI)
    fix x y
    assume x: "x \<in> set (nt_entries t)" and y: "y \<in> set (nt_entries t)"
      and eq: "(ne_label_assigned_by_me \<circ> snd) x = (ne_label_assigned_by_me \<circ> snd) y"
    then have "fst x = fst y"
      using neighbor_table_wf_label [OF wf, of "fst x" "snd x" "fst y" "snd y"] by simp
    with x y \<open>hm_wf (nt_entries t)\<close> show "x = y"
      unfolding hm_wf_def by (metis eq_key_imp_eq_value prod.collapse)
  qed
  ultimately show ?thesis
    by (simp add: distinct_map)
qed

lemma labels_used:
  assumes wf: "neighbor_table_wf t"
  shows "set (map (ne_label_assigned_by_me \<circ> snd) (nt_entries t)) = {l. label_in_use t l}"
  by (force simp: label_in_use_iff [OF wf])

lemma card_labels: "card (UNIV - {0 :: u8}) = 255"
  by (simp add: card_Diff_singleton card_word)

lemma table_size:
  assumes wf: "neighbor_table_wf t"
  shows "length (nt_entries t) = card {l. label_in_use t l}"
  using distinct_card [OF labels_distinct [OF wf]] labels_used [OF wf] by simp

lemma label_in_use_nonzero: "neighbor_table_wf t \<Longrightarrow> label_in_use t l \<Longrightarrow> l \<noteq> 0"
  by (auto simp: label_in_use_iff dest: neighbor_table_wf_entry)

lemma table_size_bound: "neighbor_table_wf t \<Longrightarrow> length (nt_entries t) \<le> 255"
  unfolding table_size card_labels [symmetric]
  by (intro card_mono subsetI) (auto dest: label_in_use_nonzero)

lemma free_label_None_size:
  assumes wf: "neighbor_table_wf t"
  shows "free_label t = None \<longleftrightarrow> length (nt_entries t) = 255"
proof -
  have sub: "{l. label_in_use t l} \<subseteq> UNIV - {0}"
    using label_in_use_nonzero [OF wf] by blast
  have "free_label t = None \<longleftrightarrow> {l. label_in_use t l} = UNIV - {0}"
    using sub by (auto simp: free_label_None)
  also have "\<dots> \<longleftrightarrow> card {l. label_in_use t l} = 255"
    using card_subset_eq [OF finite sub] card_labels by metis
  finally show ?thesis
    by (simp add: table_size [OF wf])
qed

section \<open>Correctness of the tables\<close>

text \<open>
  C20. Labels are stable and unambiguous: after any sequence of hellos, from whatever neighbours
  and addresses, every neighbour keeps the label it had, and looking up a label gives exactly the
  neighbour that owns it.
\<close>

theorem labels_stay_with_their_neighbor:
  assumes wf: "neighbor_table_wf t"
    and t': "t' = fold (\<lambda>(n, a, now) t. fst (assign_or_reuse_label t n a now)) hellos t"
  shows "neighbor_table_wf t'
    \<and> (\<forall>n l. label_of t n = Some l \<longrightarrow> label_of t' n = Some l)
    \<and> (\<forall>n l. node_of_label t' l = Some n \<longleftrightarrow> label_of t' n = Some l)"
  using nt.assign_all_wf_stable [OF wf, of hellos] node_of_label_iff [of t']
  unfolding t' nt.assign_all_def by blast

lemma neighbor_table_default_wf [simp]: "neighbor_table_wf neighbor_table_default"
  by (simp add: neighbor_table_wf_def)

theorem labels_stay_with_their_neighbor_witness:
  "neighbor_table_wf (fst (assign_or_reuse_label neighbor_table_default 4 (SockV4 0x7F000001 7004) 10))"
  using labels_stay_with_their_neighbor [OF neighbor_table_default_wf, of _ "[(4, SockV4 0x7F000001 7004, 10)]"]
  by simp

text \<open>
  C21. Handing out a label fails exactly for an unknown neighbour when all 255 labels are taken; a
  known neighbour always gets its label again, and a table never outgrows the label space.
\<close>

theorem label_space_exhausted_iff:
  assumes wf: "neighbor_table_wf t"
  shows "(snd (assign_or_reuse_label t n a now) = Inl LabelSpaceExhausted \<longleftrightarrow>
      neighbor_get t n = None \<and> length (nt_entries t) = 255)
    \<and> (snd (assign_or_reuse_label t n a now) = Inl e \<longrightarrow>
        e = LabelSpaceExhausted \<and> fst (assign_or_reuse_label t n a now) = t)
    \<and> length (nt_entries t) \<le> 255"
  using nt.assign_error [OF wf] table_size_bound [OF wf]
  by (auto simp: assign_error free_label_None_size [OF wf])

theorem label_space_exhausted_iff_witness:
  "snd (assign_or_reuse_label neighbor_table_default 4 (SockV4 0x7F000001 7004) 10) \<noteq> Inl LabelSpaceExhausted"
  using label_space_exhausted_iff [OF neighbor_table_default_wf, of 4 "SockV4 0x7F000001 7004" 10] by simp

text \<open>
  C22. A new neighbour gets the smallest label that is not taken, starting at 1.
\<close>

theorem new_label_is_smallest_free:
  assumes new: "neighbor_get t n = None" and "snd (assign_or_reuse_label t n a now) = Inr l"
  shows "1 \<le> l \<and> \<not> label_in_use t l \<and> (\<forall>l'. 1 \<le> l' \<and> l' < l \<longrightarrow> label_in_use t l')"
proof -
  have "free_label t = Some l"
    using assms by (cases "free_label t") (auto simp: assign_or_reuse_label_def neighbor_get_def)
  then obtain i where i: "i < 255" "l = of_nat (Suc i)" "\<not> label_in_use t l"
    "\<forall>j < i. label_in_use t (of_nat (Suc j))"
    by (auto simp: free_label_def label_candidates_def find_Some_iff)
  have l: "unat l = Suc i"
    unfolding i(2) unsigned_of_nat using i(1) by (simp add: take_bit_nat_eq_self)
  have "label_in_use t l'" if "1 \<le> l'" "l' < l" for l'
  proof -
    have "unat l' - 1 < i" "Suc (unat l' - 1) = unat l'"
      using that l by (simp_all add: word_le_nat_alt word_less_nat_alt)
    then have "label_in_use t (of_nat (unat l'))"
      using i(4) by metis
    then show ?thesis
      by simp
  qed
  with i(3) l show ?thesis
    by (simp add: word_le_nat_alt)
qed

theorem new_label_is_smallest_free_witness:
  "\<not> label_in_use neighbor_table_default 1"
proof -
  have "neighbor_get neighbor_table_default 4 = None"
    by (simp add: neighbor_get_def)
  then have "snd (assign_or_reuse_label neighbor_table_default 4 (SockV4 0 1) 0) = Inr 1"
    by (simp add: assign_new)
  then show ?thesis
    using new_label_is_smallest_free [OF \<open>neighbor_get neighbor_table_default 4 = None\<close>] by blast
qed

text \<open>
  C23. The iteration order of the hash map does not matter: tables with the same entries resolve
  every label to the same entry and hand out the same labels.
\<close>

theorem tables_ignore_iteration_order:
  assumes wf: "neighbor_table_wf t" and perm: "mset ns = mset (nt_entries t)"
  shows "neighbor_by_label \<lparr>nt_entries = ns\<rparr> l = neighbor_by_label t l
    \<and> snd (assign_or_reuse_label \<lparr>nt_entries = ns\<rparr> n a now) = snd (assign_or_reuse_label t n a now)"
proof -
  have hm: "hm_wf (nt_entries t)" "hm_wf ns"
    using wf hm_wf_perm [OF perm] by (auto simp: neighbor_table_wf_def)
  have set: "set ns = set (nt_entries t)"
    using perm by (rule mset_eq_setD)
  then have wf': "neighbor_table_wf \<lparr>nt_entries = ns\<rparr>"
    using wf hm by (simp add: neighbor_table_wf_def)
  have "neighbor_by_label \<lparr>nt_entries = ns\<rparr> l = Some e \<longleftrightarrow> neighbor_by_label t l = Some e" for e
    using set by (simp add: neighbor_by_label_Some [OF wf] neighbor_by_label_Some [OF wf'])
  then have lookup: "neighbor_by_label \<lparr>nt_entries = ns\<rparr> l = neighbor_by_label t l"
    by (metis not_None_eq)
  have "label_in_use \<lparr>nt_entries = ns\<rparr> = label_in_use t"
    using set by (auto simp: label_in_use_iff [OF wf] label_in_use_iff [OF wf'] fun_eq_iff)
  then have free: "free_label \<lparr>nt_entries = ns\<rparr> = free_label t"
    by (simp add: free_label_def)
  have "hm_get ns n = hm_get (nt_entries t) n"
    using hm_get_perm [OF perm hm(2)] by simp
  with free lookup show ?thesis
    by (simp add: assign_or_reuse_label_def Let_def split: option.split)
qed

text \<open>Two neighbours, in one order and in the other: the third one gets label 3 from both.\<close>

definition two_neighbors :: "(u32, neighbor_entry) hash_map" where
  "two_neighbors =
     [(4, \<lparr>ne_node_id = 4, ne_label_assigned_by_me = 1, ne_last_seen_millis = 10,
           ne_endpoint = SockV4 0x7F000001 7004, ne_alive = True\<rparr>),
      (5, \<lparr>ne_node_id = 5, ne_label_assigned_by_me = 2, ne_last_seen_millis = 20,
           ne_endpoint = SockV4 0x7F000001 7005, ne_alive = True\<rparr>)]"

lemma two_neighbors_wf: "neighbor_table_wf \<lparr>nt_entries = two_neighbors\<rparr>"
  by (simp add: neighbor_table_wf_def two_neighbors_def hm_wf_def)

theorem tables_ignore_iteration_order_witness:
  "rev two_neighbors \<noteq> two_neighbors
   \<and> map_option ne_node_id (neighbor_by_label \<lparr>nt_entries = rev two_neighbors\<rparr> 2) = Some 5
   \<and> snd (assign_or_reuse_label \<lparr>nt_entries = rev two_neighbors\<rparr> 6 (SockV4 0x7F000001 7006) 30) = Inr 3"
proof -
  have "mset (rev two_neighbors) = mset (nt_entries \<lparr>nt_entries = two_neighbors\<rparr>)"
    by simp
  note same = tables_ignore_iteration_order [OF two_neighbors_wf this]
  have "map_option ne_node_id (neighbor_by_label \<lparr>nt_entries = two_neighbors\<rparr> 2) = Some 5"
    by (simp add: two_neighbors_def neighbor_by_label_def)
  moreover have "snd (assign_or_reuse_label \<lparr>nt_entries = two_neighbors\<rparr> 6 (SockV4 0x7F000001 7006) 30) = Inr 3"
    by code_simp
  moreover have "rev two_neighbors \<noteq> two_neighbors"
    by (simp add: two_neighbors_def)
  ultimately show ?thesis
    by (simp only: same [THEN conjunct1] same [THEN conjunct2] simp_thms)
qed

end
