(* ===== verification/Routes.thy ===== *)
theory Routes
  imports Prelude "HOL-Library.Product_Lexorder"
begin

text \<open>
  \<open>crates/dldsr-core/src/route.rs\<close>: route entries, the route cache and the cache of route
  requests already seen. The contracts their clients use are the locales \<open>route_store\<close> and
  \<open>duplicate_filter\<close>.
\<close>

section \<open>Route entries and the route cache\<close>

record route_entry =
  re_dst_node_id :: u32
  re_dsr_path :: "u32 list"
  re_dldsr_label_path :: "u8 list"
  re_expires_at_millis :: u64

definition route_new_dsr :: "u32 \<Rightarrow> u32 list \<Rightarrow> u64 \<Rightarrow> route_entry" where
  "route_new_dsr dst dsr_path expires_at =
     \<lparr>re_dst_node_id = dst, re_dsr_path = dsr_path, re_dldsr_label_path = [],
      re_expires_at_millis = expires_at\<rparr>"

definition route_new_dldsr :: "u32 \<Rightarrow> u8 list \<Rightarrow> u64 \<Rightarrow> route_entry" where
  "route_new_dldsr dst label_path expires_at =
     \<lparr>re_dst_node_id = dst, re_dsr_path = [], re_dldsr_label_path = label_path,
      re_expires_at_millis = expires_at\<rparr>"

definition route_hop_count :: "route_entry \<Rightarrow> nat" where
  "route_hop_count r =
     (if re_dsr_path r = [] then length (re_dldsr_label_path r) else length (re_dsr_path r))"

record route_cache =
  rc_routes :: "(u32, route_entry list) hash_map"

definition route_cache_default :: route_cache where
  "route_cache_default = \<lparr>rc_routes = []\<rparr>"

definition route_insert :: "route_cache \<Rightarrow> route_entry \<Rightarrow> route_cache" where
  "route_insert c route =
     \<lparr>rc_routes = hm_insert (re_dst_node_id route)
        ((case hm_get (rc_routes c) (re_dst_node_id route) of None \<Rightarrow> [] | Some routes \<Rightarrow> routes)
         @ [route])
        (rc_routes c)\<rparr>"

definition route_shortest :: "route_cache \<Rightarrow> u32 \<Rightarrow> u64 \<Rightarrow> route_entry option" where
  "route_shortest c dst now =
     (case hm_get (rc_routes c) dst of
        None \<Rightarrow> None
      | Some routes \<Rightarrow>
          min_by_key route_hop_count (filter (\<lambda>route. now \<le> re_expires_at_millis route) routes))"

section \<open>Requests already seen\<close>

record seen_requests =
  sr_seen :: "(u32 \<times> u64, u64) hash_map"

definition seen_requests_default :: seen_requests where
  "seen_requests_default = \<lparr>sr_seen = []\<rparr>"

definition seen_prune :: "seen_requests \<Rightarrow> u64 \<Rightarrow> u64 \<Rightarrow> seen_requests" where
  "seen_prune s now ttl_ms =
     \<lparr>sr_seen = hm_retain (\<lambda>_ seen_at. saturating_sub now seen_at \<le> ttl_ms) (sr_seen s)\<rparr>"

definition seen_len :: "seen_requests \<Rightarrow> nat" where
  "seen_len s = length (sr_seen s)"

definition seen_is_empty :: "seen_requests \<Rightarrow> bool" where
  "seen_is_empty s = (sr_seen s = [])"

definition eviction_key :: "(u32 \<times> u64) \<times> u64 \<Rightarrow> u64 \<times> u32 \<times> u64" where
  "eviction_key e = (snd e, fst (fst e), snd (fst e))"

definition enforce_max_entries :: "seen_requests \<Rightarrow> usize \<Rightarrow> seen_requests" where
  "enforce_max_entries s max_entries =
     (if max_entries = 0 then \<lparr>sr_seen = []\<rparr>
      else if seen_len s \<le> unat max_entries then s
      else let entries = sort_key eviction_key (sr_seen s);
               remove_count = length entries - unat max_entries
           in \<lparr>sr_seen = fold (\<lambda>(key, _) m. hm_remove key m) (take remove_count entries) (sr_seen s)\<rparr>)"

definition mark_if_new ::
    "seen_requests \<Rightarrow> u32 \<Rightarrow> u64 \<Rightarrow> u64 \<Rightarrow> u64 \<Rightarrow> usize \<Rightarrow> seen_requests \<times> bool" where
  "mark_if_new s src_node_id request_id now ttl_ms max_entries =
     (let s1 = seen_prune s now ttl_ms;
          is_new = (hm_get (sr_seen s1) (src_node_id, request_id) = None);
          s2 = \<lparr>sr_seen = hm_insert (src_node_id, request_id) now (sr_seen s1)\<rparr>
      in (enforce_max_entries s2 max_entries, is_new))"

section \<open>The route store contract\<close>

locale route_store =
  fixes store :: "'c \<Rightarrow> 'r \<Rightarrow> 'c"
    and best :: "'c \<Rightarrow> 'd \<Rightarrow> 'w \<Rightarrow> 'r option"
    and stored :: "'c \<Rightarrow> 'd \<Rightarrow> 'r set"
    and dest :: "'r \<Rightarrow> 'd"
    and live :: "'w \<Rightarrow> 'r \<Rightarrow> bool"
    and cost :: "'r \<Rightarrow> nat"
  assumes stored_store:
      "stored (store c r) d = (if d = dest r then insert r (stored c d) else stored c d)"
    and best_sound: "best c d now = Some r \<Longrightarrow> r \<in> stored c d \<and> live now r"
    and best_least: "best c d now = Some r \<Longrightarrow> r' \<in> stored c d \<Longrightarrow> live now r' \<Longrightarrow> cost r \<le> cost r'"
    and best_complete: "best c d now = None \<Longrightarrow> r \<in> stored c d \<Longrightarrow> \<not> live now r"
begin

lemma best_after_store:
  assumes "live now r"
  shows "\<exists>r'. best (store c r) (dest r) now = Some r' \<and> cost r' \<le> cost r"
proof -
  have r: "r \<in> stored (store c r) (dest r)"
    by (simp add: stored_store)
  with assms best_complete obtain r' where r': "best (store c r) (dest r) now = Some r'"
    by fastforce
  moreover have "cost r' \<le> cost r"
    using best_least [OF r' r assms] .
  ultimately show ?thesis by blast
qed

lemma best_never_worse:
  assumes "best c d now = Some r" "best (store c x) d now = Some r'"
  shows "cost r' \<le> cost r"
proof -
  have "r \<in> stored (store c x) d" "live now r"
    using best_sound [OF assms(1)] by (auto simp: stored_store)
  then show ?thesis
    using best_least [OF assms(2)] by blast
qed

lemma stored_all_store:
  assumes "\<And>d r. r \<in> stored c d \<Longrightarrow> Q r" "Q x"
  shows "\<And>d r. r \<in> stored (store c x) d \<Longrightarrow> Q r"
  using assms by (auto simp: stored_store split: if_splits)

lemma best_all:
  assumes "\<And>d r. r \<in> stored c d \<Longrightarrow> Q r" "best c d now = Some r"
  shows "Q r"
  using assms best_sound by blast

end

definition routes_to :: "route_cache \<Rightarrow> u32 \<Rightarrow> route_entry set" where
  "routes_to c dst = (case hm_get (rc_routes c) dst of None \<Rightarrow> {} | Some rs \<Rightarrow> set rs)"

definition route_live :: "u64 \<Rightarrow> route_entry \<Rightarrow> bool" where
  "route_live now r \<longleftrightarrow> now \<le> re_expires_at_millis r"

interpretation rc: route_store route_insert route_shortest routes_to re_dst_node_id route_live
  route_hop_count
proof unfold_locales
  fix c :: route_cache and d now r
  assume best: "route_shortest c d now = Some r"
  then show "r \<in> routes_to c d \<and> route_live now r"
    by (auto simp: route_shortest_def routes_to_def route_live_def split: option.splits
        dest!: min_by_key_in)
  fix r'
  assume "r' \<in> routes_to c d" "route_live now r'"
  with best show "route_hop_count r \<le> route_hop_count r'"
    by (auto simp: route_shortest_def routes_to_def route_live_def split: option.splits
        elim!: min_by_key_le)
next
  fix c :: route_cache and d now r
  assume "route_shortest c d now = None" "r \<in> routes_to c d"
  then show "\<not> route_live now r"
    by (auto simp: route_shortest_def routes_to_def route_live_def filter_empty_conv
        split: option.splits)
qed (auto simp: routes_to_def route_insert_def hm_simps split: option.splits)

section \<open>The cache of seen requests\<close>

lemma fold_remove_filter:
  "fold (\<lambda>(key, _) m. hm_remove key m) es m = filter (\<lambda>e. fst e \<notin> fst ` set es) m"
proof (induction es arbitrary: m)
  case Nil
  then show ?case by simp
next
  case (Cons e es)
  have "filter (\<lambda>x. fst x \<notin> fst ` set es) (hm_remove (fst e) m) =
      filter (\<lambda>x. fst x \<notin> fst ` set (e # es)) m"
    by (auto simp: AList.delete_eq intro!: filter_cong)
  then show ?case
    by (cases e) (simp add: Cons.IH)
qed

lemma seen_prune_wf [simp]: "hm_wf (sr_seen s) \<Longrightarrow> hm_wf (sr_seen (seen_prune s now ttl))"
  by (simp add: seen_prune_def)

lemma hm_wf_filter [simp]: "hm_wf m \<Longrightarrow> hm_wf (filter P m)"
  by (simp add: hm_wf_def distinct_map_filter)

lemma enforce_max_entries_wf [simp]:
  "hm_wf (sr_seen s) \<Longrightarrow> hm_wf (sr_seen (enforce_max_entries s n))"
  by (simp add: enforce_max_entries_def fold_remove_filter Let_def)

lemma mark_if_new_wf [simp]:
  "hm_wf (sr_seen s) \<Longrightarrow> hm_wf (sr_seen (fst (mark_if_new s a b now ttl n)))"
  by (simp add: mark_if_new_def Let_def)

lemma hm_get_prune:
  "hm_wf (sr_seen s) \<Longrightarrow>
     hm_get (sr_seen (seen_prune s now ttl)) k =
       (case hm_get (sr_seen s) k of
          None \<Rightarrow> None | Some t \<Rightarrow> if saturating_sub now t \<le> ttl then Some t else None)"
  by (simp add: seen_prune_def hm.get_retain)

text \<open>When the bound is exceeded, what stays is the upper end of the entries sorted by age.\<close>

lemma set_enforce_max_entries:
  assumes wf: "hm_wf (sr_seen s)" and big: "unat n < length (sr_seen s)" "n \<noteq> 0"
  shows "set (sr_seen (enforce_max_entries s n)) =
    set (drop (length (sr_seen s) - unat n) (sort_key eviction_key (sr_seen s)))"
proof -
  let ?es = "sort_key eviction_key (sr_seen s)" and ?k = "length (sr_seen s) - unat n"
  have dist: "distinct (map fst ?es)"
    using wf hm_wf_perm [of ?es "sr_seen s"] by (simp add: hm_wf_def)
  have "set (sr_seen (enforce_max_entries s n)) = {e \<in> set ?es. fst e \<notin> fst ` set (take ?k ?es)}"
    using big by (auto simp: enforce_max_entries_def seen_len_def Let_def fold_remove_filter)
  also have "\<dots> = set (drop ?k ?es)"
  proof -
    have "distinct (map fst (take ?k ?es) @ map fst (drop ?k ?es))"
      using dist by (simp flip: map_append)
    then have "fst ` set (take ?k ?es) \<inter> fst ` set (drop ?k ?es) = {}"
      by (simp only: distinct_append set_map)
    moreover have "set ?es = set (take ?k ?es) \<union> set (drop ?k ?es)"
      by (metis append_take_drop_id set_append)
    ultimately show ?thesis by blast
  qed
  finally show ?thesis .
qed

lemma length_enforce_max_entries:
  assumes wf: "hm_wf (sr_seen s)"
  shows "seen_len (enforce_max_entries s n) = min (seen_len s) (unat n)"
proof (cases "n = 0 \<or> length (sr_seen s) \<le> unat n")
  case True
  then show ?thesis
    by (auto simp: enforce_max_entries_def seen_len_def)
next
  case False
  let ?es = "sort_key eviction_key (sr_seen s)" and ?m = "sr_seen (enforce_max_entries s n)"
  have "distinct ?m" "distinct (drop (length (sr_seen s) - unat n) ?es)"
    using enforce_max_entries_wf [OF wf, of n] wf by (auto simp: hm_wf_def distinct_map)
  then have "length ?m = length (drop (length (sr_seen s) - unat n) ?es)"
    using set_enforce_max_entries [OF wf, of n] False by (metis distinct_card not_le)
  then show ?thesis
    using False by (simp add: seen_len_def)
qed

text \<open>Evicted entries are older (ties broken by the key) than every entry that stays.\<close>

lemma enforce_max_entries_evicts_oldest:
  assumes wf: "hm_wf (sr_seen s)"
    and kept: "e' \<in> set (sr_seen (enforce_max_entries s n))"
    and gone: "e \<in> set (sr_seen s)" "e \<notin> set (sr_seen (enforce_max_entries s n))"
  shows "eviction_key e \<le> eviction_key e'"
proof -
  have big: "unat n < length (sr_seen s)" "n \<noteq> 0"
    using kept gone by (auto simp: enforce_max_entries_def seen_len_def split: if_splits)
  let ?es = "sort_key eviction_key (sr_seen s)" and ?k = "length (sr_seen s) - unat n"
  have es: "set ?es = set (take ?k ?es) \<union> set (drop ?k ?es)"
    by (metis append_take_drop_id set_append)
  have "e' \<in> set (drop ?k ?es)" "e \<in> set (take ?k ?es)"
    using kept gone es unfolding set_enforce_max_entries [OF wf big] by auto
  moreover have "sorted (map eviction_key (take ?k ?es) @ map eviction_key (drop ?k ?es))"
    by (simp flip: map_append)
  ultimately show ?thesis
    by (simp only: sorted_append) auto
qed

lemma mark_if_new_iff:
  "hm_wf (sr_seen s) \<Longrightarrow>
     snd (mark_if_new s a b now ttl n) \<longleftrightarrow>
       (\<forall>t. hm_get (sr_seen s) (a, b) = Some t \<longrightarrow> ttl < saturating_sub now t)"
  by (auto simp: mark_if_new_def Let_def hm_get_prune not_le split: option.splits)

lemma mark_if_new_size:
  "hm_wf (sr_seen s) \<Longrightarrow> seen_len (fst (mark_if_new s a b now ttl n)) \<le> unat n"
  by (simp add: mark_if_new_def Let_def length_enforce_max_entries)

lemma hm_length_dom: "hm_wf m \<Longrightarrow> length m = card (dom (map_of m))"
  by (metis distinct_card dom_map_of_conv_image_fst hm_wf_def length_map set_map)

text \<open>While the live requests fit, nothing is evicted and every live request stays recorded.\<close>

lemma mark_if_new_room:
  assumes wf: "hm_wf (sr_seen s)"
    and room: "card (insert (a, b) {k. \<exists>t. hm_get (sr_seen s) k = Some t \<and> saturating_sub now t \<le> ttl})
      \<le> unat n"
  shows "hm_get (sr_seen (fst (mark_if_new s a b now ttl n))) k =
    (if k = (a, b) then Some now
     else case hm_get (sr_seen s) k of
            None \<Rightarrow> None | Some t \<Rightarrow> if saturating_sub now t \<le> ttl then Some t else None)"
proof -
  let ?m = "hm_insert (a, b) now (sr_seen (seen_prune s now ttl))"
  have m: "map_of ?m = (\<lambda>k. if k = (a, b) then Some now
      else case hm_get (sr_seen s) k of
            None \<Rightarrow> None | Some t \<Rightarrow> if saturating_sub now t \<le> ttl then Some t else None)"
    using wf by (simp add: fun_eq_iff hm.get_insert hm_get_prune)
  have "dom (map_of ?m) =
      insert (a, b) {k. \<exists>t. hm_get (sr_seen s) k = Some t \<and> saturating_sub now t \<le> ttl}"
    unfolding m by (auto simp: dom_def split: option.splits if_splits)
  then have len: "length ?m \<le> unat n"
    using hm_length_dom [of ?m] room wf by simp
  moreover from len have "n \<noteq> 0"
    by (cases "n = 0") auto
  ultimately have "sr_seen (fst (mark_if_new s a b now ttl n)) = ?m"
    by (simp add: mark_if_new_def Let_def enforce_max_entries_def seen_len_def)
  then show ?thesis
    using fun_cong [OF m, of k] by simp
qed

section \<open>The duplicate filter contract\<close>

text \<open>
  A filter remembers keys with the time they were marked at. As long as the remembered keys
  fit its capacity and none has expired, a key passes exactly once.
\<close>

locale duplicate_filter =
  fixes mark :: "'s \<Rightarrow> 'k \<Rightarrow> 'w \<Rightarrow> 's \<times> bool"
    and seen_at :: "'s \<Rightarrow> 'k \<Rightarrow> 'w option"
    and valid :: "'w \<Rightarrow> 'w \<Rightarrow> bool"
    and cap :: nat
    and wf :: "'s \<Rightarrow> bool"
  assumes wf_mark: "wf s \<Longrightarrow> wf (fst (mark s k now))"
    and mark_new: "wf s \<Longrightarrow> snd (mark s k now) \<longleftrightarrow> (\<forall>t. seen_at s k = Some t \<longrightarrow> \<not> valid t now)"
    and mark_room: "wf s \<Longrightarrow>
      card (insert k {k'. \<exists>t. seen_at s k' = Some t \<and> valid t now}) \<le> cap \<Longrightarrow>
      seen_at (fst (mark s k now)) k' =
        (if k' = k then Some now
         else case seen_at s k' of None \<Rightarrow> None | Some t \<Rightarrow> if valid t now then Some t else None)"
begin

fun marks :: "'s \<Rightarrow> ('k \<times> 'w) list \<Rightarrow> bool list" where
  "marks s [] = []"
| "marks s ((k, now) # evs) = snd (mark s k now) # marks (fst (mark s k now)) evs"

fun first_occurrences :: "'k set \<Rightarrow> ('k \<times> 'w) list \<Rightarrow> bool list" where
  "first_occurrences K [] = []"
| "first_occurrences K ((k, now) # evs) = (k \<notin> K) # first_occurrences (insert k K) evs"

lemma marks_first_occurrences:
  assumes "wf s" "dom (seen_at s) = K" "finite (K \<union> fst ` set evs)"
    and "card (K \<union> fst ` set evs) \<le> cap"
    and "\<forall>t \<in> ran (seen_at s). \<forall>(k, now) \<in> set evs. valid t now"
    and "sorted_wrt (\<lambda>e e'. valid (snd e) (snd e')) evs"
  shows "marks s evs = first_occurrences K evs"
  using assms
proof (induction evs arbitrary: s K)
  case Nil
  then show ?case by simp
next
  case (Cons e evs)
  obtain k now where e: "e = (k, now)"
    by (cases e)
  have live: "valid t now" if "seen_at s k' = Some t" for k' t
    using Cons.prems(5) that by (auto simp: e ran_def)
  have keys: "insert k {k'. \<exists>t. seen_at s k' = Some t \<and> valid t now} = insert k K"
    using Cons.prems(2) live by auto
  have "card (insert k K) \<le> card (K \<union> fst ` set (e # evs))"
    using Cons.prems(3) by (intro card_mono) (auto simp: e)
  then have room: "card (insert k {k'. \<exists>t. seen_at s k' = Some t \<and> valid t now}) \<le> cap"
    using Cons.prems(4) keys by simp
  let ?s = "fst (mark s k now)"
  have seen: "seen_at ?s k' = (if k' = k then Some now else seen_at s k')" for k'
    using mark_room [OF Cons.prems(1) room, of k'] live [of k'] by (auto split: option.splits)
  have "marks ?s evs = first_occurrences (insert k K) evs"
  proof (rule Cons.IH)
    show "wf ?s"
      using Cons.prems(1) by (rule wf_mark)
    show "dom (seen_at ?s) = insert k K"
      using Cons.prems(2) by (auto simp: seen dom_def)
    show "finite (insert k K \<union> fst ` set evs)" "card (insert k K \<union> fst ` set evs) \<le> cap"
      using Cons.prems(3,4) by (simp_all add: e)
    show "\<forall>t \<in> ran (seen_at ?s). \<forall>(k, now) \<in> set evs. valid t now"
      using Cons.prems(5,6) by (auto simp: ran_def seen e split: if_splits)
    show "sorted_wrt (\<lambda>e e'. valid (snd e) (snd e')) evs"
      using Cons.prems(6) by simp
  qed
  moreover have "snd (mark s k now) \<longleftrightarrow> k \<notin> K"
    using mark_new [OF Cons.prems(1), of k now] live [of k] Cons.prems(2) by (auto simp: dom_def)
  ultimately show ?case
    by (simp add: e)
qed

end

interpretation sr: duplicate_filter
  "\<lambda>s k now. mark_if_new s (fst k) (snd k) now ttl n" "\<lambda>s. map_of (sr_seen s)"
  "\<lambda>t now. saturating_sub now t \<le> ttl" "unat n" "\<lambda>s. hm_wf (sr_seen s)" for ttl n
proof unfold_locales
  fix s :: seen_requests and k :: "u32 \<times> u64" and now
  assume wf: "hm_wf (sr_seen s)"
  then show "hm_wf (sr_seen (fst (mark_if_new s (fst k) (snd k) now ttl n)))"
    by simp
  show "snd (mark_if_new s (fst k) (snd k) now ttl n) \<longleftrightarrow>
      (\<forall>t. hm_get (sr_seen s) k = Some t \<longrightarrow> \<not> saturating_sub now t \<le> ttl)"
    using mark_if_new_iff [OF wf, of "fst k" "snd k"] by (simp add: not_le)
qed (use mark_if_new_room in auto)

section \<open>Correctness of the caches\<close>

text \<open>
  C24. The shortest route is a route cached for the destination that has not expired, and no such
  route has fewer hops; no route is returned exactly when all of them have expired.
\<close>

theorem shortest_route_is_best:
  "case route_shortest c dst now of
     Some r \<Rightarrow> r \<in> routes_to c dst \<and> now \<le> re_expires_at_millis r
       \<and> (\<forall>r' \<in> routes_to c dst. now \<le> re_expires_at_millis r' \<longrightarrow> route_hop_count r \<le> route_hop_count r')
   | None \<Rightarrow> (\<forall>r' \<in> routes_to c dst. re_expires_at_millis r' < now)"
proof (cases "route_shortest c dst now")
  case None
  then show ?thesis
    using rc.best_complete [OF None] by (auto simp: route_live_def not_le)
next
  case (Some r)
  then show ?thesis
    using rc.best_sound [OF Some] rc.best_least [OF Some] by (auto simp: route_live_def)
qed

definition two_routes :: route_cache where
  "two_routes =
     route_insert (route_insert route_cache_default (route_new_dsr 3 [0, 1, 2, 3] 900))
       (route_new_dsr 3 [0, 4, 3] 800)"

theorem shortest_route_is_best_witness:
  "\<exists>r. route_shortest two_routes 3 700 = Some r
     \<and> route_hop_count r \<le> route_hop_count (route_new_dsr 3 [0, 1, 2, 3] 900)"
proof -
  have "route_shortest two_routes 3 700 = Some (route_new_dsr 3 [0, 4, 3] 800)"
    by (simp add: two_routes_def route_shortest_def route_insert_def route_cache_default_def
        route_new_dsr_def route_hop_count_def)
  moreover have "route_new_dsr 3 [0, 1, 2, 3] 900 \<in> routes_to two_routes 3"
    by (simp add: two_routes_def routes_to_def route_insert_def route_cache_default_def route_new_dsr_def)
  moreover have "700 \<le> re_expires_at_millis (route_new_dsr 3 [0, 1, 2, 3] 900)"
    by (simp add: route_new_dsr_def)
  ultimately show ?thesis
    using shortest_route_is_best [of two_routes 3 700] by auto
qed

text \<open>
  C25. What is inserted can be found: while a route lives, asking for its destination returns a
  live route to it with at most as many hops; other destinations are not affected.
\<close>

theorem inserted_route_is_found:
  assumes "now \<le> re_expires_at_millis r"
  shows "(\<exists>r'. route_shortest (route_insert c r) (re_dst_node_id r) now = Some r'
      \<and> r' \<in> insert r (routes_to c (re_dst_node_id r)) \<and> route_hop_count r' \<le> route_hop_count r)
    \<and> (d \<noteq> re_dst_node_id r \<longrightarrow> route_shortest (route_insert c r) d now = route_shortest c d now)"
proof -
  have "route_live now r"
    using assms by (simp add: route_live_def)
  then obtain r' where r': "route_shortest (route_insert c r) (re_dst_node_id r) now = Some r'"
    "route_hop_count r' \<le> route_hop_count r"
    using rc.best_after_store by blast
  moreover have "r' \<in> insert r (routes_to c (re_dst_node_id r))"
    using rc.best_sound [OF r'(1)] by (simp add: rc.stored_store)
  moreover have "route_shortest (route_insert c r) d now = route_shortest c d now" if "d \<noteq> re_dst_node_id r"
    using that by (simp add: route_shortest_def route_insert_def hm_simps)
  ultimately show ?thesis by blast
qed

theorem inserted_route_is_found_witness:
  "\<exists>r'. route_shortest (route_insert route_cache_default (route_new_dldsr 3 [1, 2, 1] 900)) 3 900 = Some r'"
  using inserted_route_is_found [of 900 "route_new_dldsr 3 [1, 2, 1] 900" route_cache_default]
  by (auto simp: route_new_dldsr_def)

text \<open>
  C27. The duplicate cache never exceeds its bound, and what it evicts to stay within it is older,
  with ties broken by the key, than everything it keeps.
\<close>

theorem duplicate_cache_bounded:
  assumes wf: "hm_wf (sr_seen s)"
  shows "seen_len (fst (mark_if_new s a b now ttl n)) \<le> unat n
    \<and> (\<forall>e \<in> set (sr_seen s) - set (sr_seen (enforce_max_entries s n)).
         \<forall>e' \<in> set (sr_seen (enforce_max_entries s n)). eviction_key e \<le> eviction_key e')"
  using mark_if_new_size [OF wf] enforce_max_entries_evicts_oldest [OF wf] by blast

theorem duplicate_cache_bounded_witness:
  "seen_len (fst (mark_if_new \<lparr>sr_seen = [((1, 7), 40), ((2, 9), 30)]\<rparr> 3 5 50 100 2)) \<le> 2"
  using duplicate_cache_bounded [of "\<lparr>sr_seen = [((1, 7), 40), ((2, 9), 30)]\<rparr>" 3 5 50 100 2]
  by (simp add: hm_wf_def)

text \<open>The answers of the duplicate cache to a sequence of requests with their arrival times.\<close>

fun mark_all :: "u64 \<Rightarrow> usize \<Rightarrow> seen_requests \<Rightarrow> ((u32 \<times> u64) \<times> u64) list \<Rightarrow> bool list" where
  "mark_all ttl n s [] = []"
| "mark_all ttl n s (((src, rid), now) # evs) =
     (let (s', is_new) = mark_if_new s src rid now ttl n in is_new # mark_all ttl n s' evs)"

lemma mark_all_marks: "mark_all ttl n s evs = sr.marks ttl n s evs"
proof (induction evs arbitrary: s)
  case (Cons e evs)
  then show ?case
    by (cases e; cases "fst e") (simp add: split_beta)
qed simp

lemma nth_first_occurrences:
  "i < length evs \<Longrightarrow>
     sr.first_occurrences K evs ! i \<longleftrightarrow> fst (evs ! i) \<notin> K \<union> fst ` set (take i evs)"
proof (induction evs arbitrary: K i)
  case Nil
  then show ?case by simp
next
  case (Cons e evs)
  then show ?case
    by (cases e; cases i) auto
qed

text \<open>
  C26. Duplicate suppression is exact while requests are remembered: for a sequence of requests
  whose distinct keys fit the cache and whose arrival times lie within the time to live of each
  other, a request passes exactly when it is the first with its key.
\<close>

theorem requests_pass_once:
  assumes room: "card (fst ` set evs) \<le> unat n"
    and close: "sorted_wrt (\<lambda>e e'. saturating_sub (snd e') (snd e) \<le> ttl) evs"
    and i: "i < length evs"
  shows "mark_all ttl n seen_requests_default evs ! i \<longleftrightarrow> fst (evs ! i) \<notin> fst ` set (take i evs)"
proof -
  have "sr.marks ttl n seen_requests_default evs = sr.first_occurrences {} evs"
    by (rule sr.marks_first_occurrences) (use room close in \<open>auto simp: seen_requests_default_def\<close>)
  then show ?thesis
    by (simp add: mark_all_marks nth_first_occurrences [OF i])
qed

theorem requests_pass_once_witness:
  "mark_all 100 4 seen_requests_default [((1, 7), 10), ((2, 7), 11), ((1, 7), 12)] ! 2 = False"
  using requests_pass_once [of "[((1, 7), 10), ((2, 7), 11), ((1, 7), 12)]" 4 100 2]
  by (simp add: saturating_sub_def card_insert_if)

end
