(* ===== verification/F64.thy ===== *)
theory F64
  imports Prelude Complex_Main "HOL-Library.Log_Nat"
begin

text \<open>
  The \<open>f64\<close> arithmetic the sources use. A finite \<open>f64\<close> is the rational number it denotes;
  an operation is the exact rational operation followed by rounding to 53 significant bits,
  ties to even. The program only meets zero and values between $10^{-4}$ and $2^{140}$, far from
  the subnormal numbers and from overflow, so neither is modelled, nor are NaN and the
  infinities.
\<close>

type_synonym f64 = rat

text \<open>\<open>ilog2 x\<close> is the exponent \<open>e\<close> with \<open>2 powi e \<le> x < 2 powi (e + 1)\<close>, for positive \<open>x\<close>.\<close>

definition ilog2 :: "rat \<Rightarrow> int" where
  "ilog2 x =
     (case quotient_of x of (a, b) \<Rightarrow>
        (let e = bitlen a - bitlen b in if 2 powi e \<le> x then e else e - 1))"

definition round_half_even :: "rat \<Rightarrow> int" where
  "round_half_even q =
     (let f = floor q; d = q - of_int f
      in if d < 1 / 2 then f else if 1 / 2 < d then f + 1 else if even f then f else f + 1)"

definition f64_ulp :: "rat \<Rightarrow> rat" where
  "f64_ulp x = 2 powi (ilog2 x - 52)"

definition f64_round_pos :: "rat \<Rightarrow> rat" where
  "f64_round_pos x = of_int (round_half_even (x / f64_ulp x)) * f64_ulp x"

definition f64_rnd :: "rat \<Rightarrow> f64" where
  "f64_rnd x = (if x = 0 then 0 else if x < 0 then - f64_round_pos (- x) else f64_round_pos x)"

definition f64_of_u64 :: "u64 \<Rightarrow> f64" where
  "f64_of_u64 n = f64_rnd (of_nat (unat n))"

definition f64_add :: "f64 \<Rightarrow> f64 \<Rightarrow> f64" where
  "f64_add x y = f64_rnd (x + y)"

definition f64_sub :: "f64 \<Rightarrow> f64 \<Rightarrow> f64" where
  "f64_sub x y = f64_rnd (x - y)"

definition f64_mul :: "f64 \<Rightarrow> f64 \<Rightarrow> f64" where
  "f64_mul x y = f64_rnd (x * y)"

definition f64_div :: "f64 \<Rightarrow> f64 \<Rightarrow> f64" where
  "f64_div x y = f64_rnd (x / y)"

text \<open>\<open>Iterator::sum\<close>: additions from the left.\<close>

definition f64_sum :: "f64 list \<Rightarrow> f64" where
  "f64_sum xs = foldl f64_add 0 xs"

text \<open>\<open>f64::round\<close> on a non-negative value (halves go up), then the cast to an index.\<close>

definition f64_round_index :: "f64 \<Rightarrow> nat" where
  "f64_round_index x = nat (floor (x + 1 / 2))"

section \<open>The rounding function\<close>

lemma bitlen_powi:
  assumes "0 < n"
  shows "(2 :: rat) powi (bitlen n - 1) \<le> of_int n" "of_int n < (2 :: rat) powi (bitlen n)"
proof -
  have "0 \<le> bitlen n - 1"
    using assms bitlen_eq_zero_iff [of n] bitlen_nonneg [of n] by linarith
  then have "(2 :: rat) powi (bitlen n - 1) = of_int (2 ^ nat (bitlen n - 1))"
    "(2 :: rat) powi (bitlen n) = of_int (2 ^ nat (bitlen n))"
    by (simp_all add: power_int_def)
  then show "(2 :: rat) powi (bitlen n - 1) \<le> of_int n" "of_int n < (2 :: rat) powi (bitlen n)"
    using bitlen_bounds [OF assms] by (simp_all only: of_int_le_iff of_int_less_iff)
qed

lemma ilog2_bounds:
  assumes "0 < x"
  shows "2 powi (ilog2 x) \<le> x" "x < 2 powi (ilog2 x + 1)"
proof -
  obtain a b where q: "quotient_of x = (a, b)"
    by (cases "quotient_of x")
  have b: "0 < b" and x: "x = of_int a / of_int b"
    using quotient_of_denom_pos [OF q] quotient_of_div [OF q] by simp_all
  have a: "0 < a"
    using assms b unfolding x by (simp add: zero_less_divide_iff)
  define e where "e = bitlen a - bitlen b"
  have "x < 2 powi (bitlen a) / 2 powi (bitlen b - 1)"
    unfolding x using bitlen_powi [OF a] bitlen_powi [OF b] a b by (intro frac_less) auto
  also have "\<dots> = 2 powi (e + 1)"
    by (simp add: e_def algebra_simps flip: power_int_diff)
  finally have upper: "x < 2 powi (e + 1)" .
  have "2 powi (e - 1) = 2 powi (bitlen a - 1) / (2 :: rat) powi (bitlen b)"
    by (simp add: e_def algebra_simps flip: power_int_diff)
  also have "\<dots> \<le> x"
    unfolding x using bitlen_powi [OF a] bitlen_powi [OF b] a b
    by (intro frac_le) (auto simp: less_imp_le)
  finally have lower: "2 powi (e - 1) \<le> x" .
  show "2 powi (ilog2 x) \<le> x" "x < 2 powi (ilog2 x + 1)"
    using upper lower by (auto simp: ilog2_def q e_def [symmetric] Let_def)
qed

lemma ilog2_mono: "0 < x \<Longrightarrow> x \<le> y \<Longrightarrow> ilog2 x \<le> ilog2 y"
proof (rule ccontr)
  assume "0 < x" "x \<le> y" "\<not> ilog2 x \<le> ilog2 y"
  then have "(2 :: rat) powi (ilog2 y + 1) \<le> 2 powi (ilog2 x)"
    by (intro power_int_increasing) auto
  then show False
    using ilog2_bounds [of x] ilog2_bounds [of y] \<open>0 < x\<close> \<open>x \<le> y\<close> by simp
qed

lemma round_half_even_int [simp]: "round_half_even (of_int n) = n"
  by (simp add: round_half_even_def)

lemma round_half_even_range: "round_half_even q \<in> {floor q, floor q + 1}"
  by (simp add: round_half_even_def Let_def)

lemma round_half_even_mono:
  assumes "x \<le> y"
  shows "round_half_even x \<le> round_half_even y"
proof (cases "floor x = floor y")
  case True
  with assms show ?thesis
    by (simp add: round_half_even_def Let_def)
next
  case False
  then have "floor x + 1 \<le> floor y"
    using floor_mono [OF assms] by simp
  then show ?thesis
    using round_half_even_range [of x] round_half_even_range [of y] by auto
qed

lemma f64_ulp_pos [simp]: "0 < f64_ulp x"
  by (simp add: f64_ulp_def)

lemma f64_mantissa:
  assumes "0 < x"
  shows "2 ^ 52 \<le> x / f64_ulp x" "x / f64_ulp x < 2 ^ 53"
proof -
  have "(2 :: rat) ^ 52 * f64_ulp x = 2 powi (ilog2 x)" "(2 :: rat) ^ 53 * f64_ulp x = 2 powi (ilog2 x + 1)"
    by (simp_all add: f64_ulp_def power_int_diff power_int_add)
  then show "2 ^ 52 \<le> x / f64_ulp x" "x / f64_ulp x < 2 ^ 53"
    using ilog2_bounds [OF assms] by (simp_all add: pos_le_divide_eq pos_divide_less_eq)
qed

lemma f64_round_pos_bounds:
  assumes "0 < x"
  shows "2 powi (ilog2 x) \<le> f64_round_pos x" "f64_round_pos x \<le> 2 powi (ilog2 x + 1)"
proof -
  have "2 ^ 52 \<le> round_half_even (x / f64_ulp x)" "round_half_even (x / f64_ulp x) \<le> 2 ^ 53"
    using f64_mantissa [OF assms] round_half_even_mono [of "of_int (2 ^ 52)" "x / f64_ulp x"]
      round_half_even_mono [of "x / f64_ulp x" "of_int (2 ^ 53)"]
    by (simp_all only: round_half_even_int) simp_all
  then have "(2 :: rat) ^ 52 \<le> of_int (round_half_even (x / f64_ulp x))"
    "of_int (round_half_even (x / f64_ulp x)) \<le> (2 :: rat) ^ 53"
    by (metis of_int_le_iff of_int_numeral of_int_power)+
  then have "(2 :: rat) ^ 52 * f64_ulp x \<le> f64_round_pos x" "f64_round_pos x \<le> 2 ^ 53 * f64_ulp x"
    unfolding f64_round_pos_def by (auto intro!: mult_right_mono)
  then show "2 powi (ilog2 x) \<le> f64_round_pos x" "f64_round_pos x \<le> 2 powi (ilog2 x + 1)"
    by (simp_all add: f64_ulp_def power_int_diff power_int_add)
qed

lemma f64_round_pos_mono:
  assumes "0 < x" "x \<le> y"
  shows "f64_round_pos x \<le> f64_round_pos y"
proof (cases "ilog2 x = ilog2 y")
  case True
  then have u: "f64_ulp x = f64_ulp y"
    by (simp add: f64_ulp_def)
  have "round_half_even (x / f64_ulp y) \<le> round_half_even (y / f64_ulp y)"
    using assms by (intro round_half_even_mono divide_right_mono) (auto simp: less_imp_le)
  then show ?thesis
    unfolding f64_round_pos_def u by (intro mult_right_mono) (auto simp: less_imp_le)
next
  case False
  then have "ilog2 x + 1 \<le> ilog2 y"
    using ilog2_mono [OF assms] by simp
  have "f64_round_pos x \<le> 2 powi (ilog2 x + 1)"
    using assms by (intro f64_round_pos_bounds)
  also have "\<dots> \<le> 2 powi (ilog2 y)"
    using \<open>ilog2 x + 1 \<le> ilog2 y\<close> by (intro power_int_increasing) auto
  also have "\<dots> \<le> f64_round_pos y"
    using assms by (intro f64_round_pos_bounds) auto
  finally show ?thesis .
qed

lemma f64_round_pos_pos: "0 < x \<Longrightarrow> 0 < f64_round_pos x"
  by (rule less_le_trans [OF _ f64_round_pos_bounds(1)]) auto

lemma f64_rnd_mono: "x \<le> y \<Longrightarrow> f64_rnd x \<le> f64_rnd y"
  using f64_round_pos_mono [of x y] f64_round_pos_mono [of "- y" "- x"]
    f64_round_pos_pos [of y] f64_round_pos_pos [of "- x"]
  by (auto simp: f64_rnd_def)

text \<open>A value whose quotient by its unit is an integer is a floating-point number.\<close>

lemma f64_round_pos_exact: "x / f64_ulp x = of_int k \<Longrightarrow> f64_round_pos x = x"
  by (metis f64_round_pos_def f64_ulp_pos less_irrefl nonzero_eq_divide_eq round_half_even_int)

lemma f64_rnd_of_nat:
  assumes "n \<le> 2 ^ 53"
  shows "f64_rnd (of_nat n) = of_nat n"
proof (cases "n = 0")
  case True
  then show ?thesis by (simp add: f64_rnd_def)
next
  case False
  let ?x = "of_nat n :: rat"
  have pos: "0 < ?x"
    using False by simp
  show ?thesis
  proof (cases "ilog2 ?x \<le> 52")
    case True
    then have "f64_ulp ?x = 1 / 2 ^ nat (52 - ilog2 ?x)"
      by (cases "ilog2 ?x = 52") (simp_all add: f64_ulp_def power_int_def inverse_eq_divide power_one_over)
    then have "?x / f64_ulp ?x = of_int (int n * 2 ^ nat (52 - ilog2 ?x))"
      by simp
    then have "f64_round_pos ?x = ?x"
      by (rule f64_round_pos_exact)
    then show ?thesis
      using pos by (simp add: f64_rnd_def)
  next
    case False
    then have "(2 :: rat) powi 53 \<le> 2 powi (ilog2 ?x)"
      by (intro power_int_increasing) auto
    also have "\<dots> \<le> ?x"
      using ilog2_bounds [OF pos] by simp
    finally have "of_nat (2 ^ 53) \<le> ?x"
      by simp
    then have n: "n = 2 ^ 53"
      using assms by (simp only: of_nat_le_iff)
    then have "ilog2 ?x \<le> 53"
      using ilog2_bounds(1) [OF pos] power_int_strict_increasing [of 53 "ilog2 ?x" "2 :: rat"]
      by (cases "53 < ilog2 ?x") auto
    with False have "ilog2 ?x = 53"
      by simp
    then have "?x / f64_ulp ?x = of_int (2 ^ 52)"
      by (simp add: f64_ulp_def n)
    then have "f64_round_pos ?x = ?x"
      by (rule f64_round_pos_exact)
    then show ?thesis
      using pos by (simp add: f64_rnd_def)
  qed
qed

section \<open>The rounding contract\<close>

text \<open>What the statistics rely on: rounding is monotone and keeps the integers up to \<open>2 ^ 53\<close>.\<close>

locale rounding =
  fixes rnd :: "rat \<Rightarrow> rat"
  assumes mono: "x \<le> y \<Longrightarrow> rnd x \<le> rnd y"
    and exact: "n \<le> 2 ^ 53 \<Longrightarrow> rnd (of_nat n) = of_nat n"
begin

lemma rnd_zero: "rnd 0 = 0"
  using exact [of 0] by simp

lemma nonneg: "0 \<le> x \<Longrightarrow> 0 \<le> rnd x"
  using mono [of 0 x] rnd_zero by simp

lemma le_nat: "x \<le> of_nat n \<Longrightarrow> n \<le> 2 ^ 53 \<Longrightarrow> rnd x \<le> of_nat n"
  using mono [of x "of_nat n"] exact [of n] by simp

lemma scale_le:
  assumes "c \<le> 1" "n \<le> 2 ^ 53"
  shows "rnd (c * rnd (of_nat n)) \<le> of_nat n"
  using assms mult_right_mono [of c 1 "of_nat n"] by (intro le_nat) (simp_all add: exact)

lemma sum_mono:
  assumes "list_all2 (\<le>) xs ys" "a \<le> b"
  shows "foldl (\<lambda>x y. rnd (x + y)) a xs \<le> foldl (\<lambda>x y. rnd (x + y)) b ys"
  using assms
proof (induction xs ys arbitrary: a b rule: list_all2_induct)
  case Nil
  then show ?case by simp
next
  case (Cons x xs y ys)
  have "rnd (a + x) \<le> rnd (b + y)"
    using Cons by (intro mono add_mono)
  then show ?case
    using Cons.IH by simp
qed

end

interpretation f64: rounding f64_rnd
  by unfold_locales (simp_all add: f64_rnd_mono f64_rnd_of_nat)

lemma f64_of_u64_mono: "a \<le> b \<Longrightarrow> f64_of_u64 a \<le> f64_of_u64 b"
  unfolding f64_of_u64_def by (intro f64.mono) (simp only: of_nat_le_iff word_le_nat_alt)

lemma f64_of_u64_exact: "unat n \<le> 2 ^ 53 \<Longrightarrow> f64_of_u64 n = of_nat (unat n)"
  unfolding f64_of_u64_def by (rule f64_rnd_of_nat)

end
