(* ===== verification/Metrics.thy ===== *)
theory Metrics
  imports F64 Packets "HOL-Library.Monad_Syntax"
begin

text \<open>
  \<open>crates/dldsr-core/src/metrics.rs\<close> and \<open>energy.rs\<close>: the live counters of a node, the
  energy proxy, and the deterministic chain benchmark with its statistics, in both build profiles.
\<close>

section \<open>Energy and node counters\<close>

record energy_estimate =
  tx_energy_units :: f64
  rx_energy_units :: f64
  total_energy_units :: f64

definition energy_from_bytes :: "u64 \<Rightarrow> u64 \<Rightarrow> energy_estimate" where
  "energy_from_bytes tx_bytes rx_bytes =
     (let tx = f64_mul (f64_of_u64 tx_bytes) 1;
          rx = f64_mul (f64_of_u64 rx_bytes) (1 / 2)
      in \<lparr>tx_energy_units = tx, rx_energy_units = rx, total_energy_units = f64_add tx rx\<rparr>)"

record node_metrics =
  m_tx_packets :: u64
  m_rx_packets :: u64
  m_tx_bytes :: u64
  m_rx_bytes :: u64
  m_control_bytes :: u64
  m_data_bytes :: u64
  m_delivered_packets :: u64
  m_dropped_packets :: u64
  m_latency_samples_ms :: "f64 list"
  m_route_discovery_attempts :: u64
  m_route_discovery_successes :: u64
  m_route_discovery_failures :: u64
  m_rreq_forwarded :: u64
  m_rreq_dropped_duplicate :: u64
  m_rreq_dropped_ttl :: u64
  m_rrep_forwarded :: u64
  m_rrep_dropped_invalid :: u64
  m_data_forwarded :: u64
  m_data_delivered :: u64
  m_data_dropped :: u64

definition node_metrics_default :: node_metrics where
  "node_metrics_default =
     \<lparr>m_tx_packets = 0, m_rx_packets = 0, m_tx_bytes = 0, m_rx_bytes = 0, m_control_bytes = 0,
      m_data_bytes = 0, m_delivered_packets = 0, m_dropped_packets = 0, m_latency_samples_ms = [],
      m_route_discovery_attempts = 0, m_route_discovery_successes = 0,
      m_route_discovery_failures = 0, m_rreq_forwarded = 0, m_rreq_dropped_duplicate = 0,
      m_rreq_dropped_ttl = 0, m_rrep_forwarded = 0, m_rrep_dropped_invalid = 0,
      m_data_forwarded = 0, m_data_delivered = 0, m_data_dropped = 0\<rparr>"

definition metrics_record_tx :: "node_metrics \<Rightarrow> usize \<Rightarrow> bool \<Rightarrow> node_metrics" where
  "metrics_record_tx m bytes control =
     (let m1 = m\<lparr>m_tx_packets := m_tx_packets m + 1, m_tx_bytes := m_tx_bytes m + bytes\<rparr>
      in if control then m1\<lparr>m_control_bytes := m_control_bytes m1 + bytes\<rparr>
         else m1\<lparr>m_data_bytes := m_data_bytes m1 + bytes\<rparr>)"

definition metrics_record_rx :: "node_metrics \<Rightarrow> usize \<Rightarrow> node_metrics" where
  "metrics_record_rx m bytes =
     m\<lparr>m_rx_packets := m_rx_packets m + 1, m_rx_bytes := m_rx_bytes m + bytes\<rparr>"

definition metrics_energy :: "node_metrics \<Rightarrow> energy_estimate" where
  "metrics_energy m = energy_from_bytes (m_tx_bytes m) (m_rx_bytes m)"

definition mean :: "f64 list \<Rightarrow> f64" where
  "mean values =
     (if values = [] then 0 else f64_div (f64_sum values) (f64_rnd (of_nat (length values))))"

definition metrics_average_latency_ms :: "node_metrics \<Rightarrow> f64" where
  "metrics_average_latency_ms m =
     (if m_latency_samples_ms m = [] then 0
      else f64_div (f64_sum (m_latency_samples_ms m)) (f64_rnd (of_nat (length (m_latency_samples_ms m)))))"

section \<open>The chain benchmark\<close>

record benchmark_report =
  br_mode :: protocol_mode
  br_hops :: usize
  br_payload_size :: usize
  br_packet_count :: u64
  br_total_tx_bytes :: u64
  br_total_rx_bytes :: u64
  br_control_bytes :: u64
  br_data_bytes :: u64
  br_path_header_bytes :: u64
  br_delivered_packets :: u64
  br_lost_packets :: u64
  br_delivery_ratio :: f64
  br_average_latency_ms :: f64
  br_p50_latency_ms :: f64
  br_p95_latency_ms :: f64
  br_estimated_energy_units :: f64

text \<open>
  The index of \<open>percentile\<close> may be out of range as far as the types go; \<open>None\<close> is the panic
  of \<open>values[idx]\<close>.
\<close>

definition percentile_index :: "nat \<Rightarrow> f64 \<Rightarrow> nat" where
  "percentile_index len p =
     f64_round_index (f64_mul (f64_div p 100) (f64_rnd (of_nat (len - 1))))"

definition percentile :: "f64 list \<Rightarrow> f64 \<Rightarrow> f64 option" where
  "percentile values p =
     (if values = [] then Some 0
      else slice_get (sort values) (percentile_index (length values) p))"

definition chain_latency :: "usize \<Rightarrow> usize \<Rightarrow> nat \<Rightarrow> f64" where
  "chain_latency hops payload_size i =
     f64_add
       (f64_add (f64_mul (f64_of_u64 hops) (f64_rnd (8 / 10)))
                (f64_mul (f64_of_u64 payload_size) (f64_rnd (2 / 1000))))
       (f64_mul (f64_rnd (of_nat (i mod 5))) (f64_rnd (5 / 100)))"

definition simulate_chain ::
    "build_profile \<Rightarrow> usize \<Rightarrow> protocol_mode \<Rightarrow> usize \<Rightarrow> u64 \<Rightarrow> benchmark_report option" where
  "simulate_chain prof hops mode payload_size packet_count =
     do {
       path_bytes \<leftarrow> path_header_bytes prof mode hops;
       payload_and_path \<leftarrow> add_checked prof payload_size path_bytes;
       per_packet \<leftarrow> add_checked prof payload_and_path 32;
       let link_transmissions = max (saturating_sub hops 1) 1;
       tx_per_link \<leftarrow> mul_checked prof per_packet packet_count;
       total_tx_bytes \<leftarrow> mul_checked prof tx_per_link link_transmissions;
       rx_per_link \<leftarrow> mul_checked prof per_packet packet_count;
       total_rx_bytes \<leftarrow> mul_checked prof rx_per_link link_transmissions;
       let latencies = map (chain_latency hops payload_size) [0..<unat packet_count];
       let energy = energy_from_bytes total_tx_bytes total_rx_bytes;
       header_bytes \<leftarrow> mul_checked prof path_bytes packet_count;
       p50 \<leftarrow> percentile latencies 50;
       p95 \<leftarrow> percentile latencies 95;
       Some \<lparr>br_mode = mode, br_hops = hops, br_payload_size = payload_size,
             br_packet_count = packet_count, br_total_tx_bytes = total_tx_bytes,
             br_total_rx_bytes = total_rx_bytes, br_control_bytes = 0,
             br_data_bytes = total_tx_bytes, br_path_header_bytes = header_bytes,
             br_delivered_packets = packet_count, br_lost_packets = 0,
             br_delivery_ratio = 1, br_average_latency_ms = mean latencies,
             br_p50_latency_ms = p50, br_p95_latency_ms = p95,
             br_estimated_energy_units = total_energy_units energy\<rparr>
     }"

section \<open>Statistics\<close>

lemma energy_mono:
  assumes "tx \<le> tx'" "rx \<le> rx'"
  shows "total_energy_units (energy_from_bytes tx rx) \<le> total_energy_units (energy_from_bytes tx' rx')"
  using assms
  by (auto simp: energy_from_bytes_def Let_def f64_add_def f64_mul_def
      intro!: f64.mono add_mono mult_right_mono f64_of_u64_mono)

lemma f64_round_index_le: "x \<le> of_nat n \<Longrightarrow> f64_round_index x \<le> n"
proof -
  assume "x \<le> of_nat n"
  then have "floor (x + 1 / 2) \<le> floor (of_nat n + 1 / 2 :: rat)"
    by (intro floor_mono) simp
  also have "\<dots> = int n"
    by (rule floor_unique) simp_all
  finally show ?thesis
    by (simp add: f64_round_index_def)
qed

lemma f64_round_index_mono: "x \<le> y \<Longrightarrow> f64_round_index x \<le> f64_round_index y"
  by (auto simp: f64_round_index_def intro!: nat_mono floor_mono)

lemma f64_div_100:
  "0 \<le> p \<Longrightarrow> p \<le> 100 \<Longrightarrow> 0 \<le> f64_div p 100 \<and> f64_div p 100 \<le> 1"
  using f64.le_nat [of "p / 100" 1] by (simp add: f64_div_def f64.nonneg)

lemma percentile_index_less:
  assumes "0 \<le> p" "p \<le> 100" "0 < len" "len \<le> 2 ^ 53"
  shows "percentile_index len p < len"
proof -
  have "f64_mul (f64_div p 100) (f64_rnd (of_nat (len - 1))) \<le> of_nat (len - 1)"
    unfolding f64_mul_def using f64_div_100 [OF assms(1,2)] assms(4) by (intro f64.scale_le) auto
  then have "percentile_index len p \<le> len - 1"
    unfolding percentile_index_def by (rule f64_round_index_le)
  with assms(3) show ?thesis by simp
qed

lemma percentile_index_mono:
  assumes "p \<le> p'"
  shows "percentile_index len p \<le> percentile_index len p'"
  unfolding percentile_index_def f64_mul_def f64_div_def
  using assms by (intro f64_round_index_mono f64.mono mult_right_mono divide_right_mono f64.nonneg) auto

lemma percentile_Some:
  assumes "0 \<le> p" "p \<le> 100" "length xs \<le> 2 ^ 53"
  shows "\<exists>v. percentile xs p = Some v"
  using percentile_index_less [OF assms(1,2) _ assms(3)]
  by (cases "xs = []") (auto simp: percentile_def slice_get_def)

lemma percentile_mono:
  assumes "percentile xs p = Some v" "percentile xs p' = Some v'" "p \<le> p'"
  shows "v \<le> v'"
proof (cases "xs = []")
  case True
  with assms show ?thesis by (simp add: percentile_def)
next
  case False
  with assms percentile_index_mono [OF assms(3), of "length xs"] show ?thesis
    by (auto simp: percentile_def intro!: sorted_nth_mono)
qed

lemma percentile_in: "percentile xs p = Some v \<Longrightarrow> xs \<noteq> [] \<Longrightarrow> v \<in> set xs"
  using nth_mem [of _ "sort xs"] by (auto simp: percentile_def)

section \<open>When the simulation returns\<close>

text \<open>The bytes of a run as a natural number, and the condition under which no count overflows.\<close>

definition packet_bytes :: "protocol_mode \<Rightarrow> usize \<Rightarrow> usize \<Rightarrow> nat" where
  "packet_bytes mode hops payload = unat payload + entry_bytes mode * unat hops + 32"

abbreviation chain_links :: "usize \<Rightarrow> nat" where
  "chain_links hops \<equiv> max (unat hops - 1) 1"

definition chain_fits :: "protocol_mode \<Rightarrow> usize \<Rightarrow> usize \<Rightarrow> u64 \<Rightarrow> bool" where
  "chain_fits mode hops payload n \<longleftrightarrow>
     packet_bytes mode hops payload < 2 ^ 64
     \<and> packet_bytes mode hops payload * unat n * chain_links hops < 2 ^ 64"

lemma unat_links: "unat (max (saturating_sub hops 1) 1) = chain_links hops" for hops :: usize
  by (auto simp: max_def word_le_nat_alt unat_saturating_sub)

lemma chain_percentiles:
  assumes "unat n \<le> 2 ^ 53"
  obtains p50 p95 where "percentile (map (chain_latency hops payload) [0..<unat n]) 50 = Some p50"
    "percentile (map (chain_latency hops payload) [0..<unat n]) 95 = Some p95"
  using assms percentile_Some [of 50 "map (chain_latency hops payload) [0..<unat n]"]
    percentile_Some [of 95 "map (chain_latency hops payload) [0..<unat n]"]
  by auto

lemma simulate_chain_percentiles:
  assumes "simulate_chain prof hops mode payload n = Some r"
  shows "br_p50_latency_ms r \<le> br_p95_latency_ms r"
  using assms percentile_mono [of _ 50 _ 95]
  by (fastforce simp: simulate_chain_def Let_def bind_eq_Some_conv)

lemma simulate_chain_release:
  assumes "unat n \<le> 2 ^ 53"
  shows "\<exists>r. simulate_chain Release hops mode payload n = Some r"
proof -
  obtain p50 p95 where "percentile (map (chain_latency hops payload) [0..<unat n]) 50 = Some p50"
    "percentile (map (chain_latency hops payload) [0..<unat n]) 95 = Some p95"
    using chain_percentiles [OF assms] .
  then show ?thesis
    by (cases mode) (auto simp: simulate_chain_def path_header_bytes_def Let_def)
qed

text \<open>While the counts fit, both profiles return the same report, with the counts exact.\<close>

lemma simulate_chain_fits:
  assumes n: "unat n \<le> 2 ^ 53" and fits: "chain_fits mode hops payload n"
  obtains r where "\<And>prof. simulate_chain prof hops mode payload n = Some r"
    "unat (br_path_header_bytes r) = entry_bytes mode * unat hops * unat n"
    "unat (br_total_tx_bytes r) = packet_bytes mode hops payload * unat n * chain_links hops"
    "br_estimated_energy_units r = total_energy_units (energy_from_bytes (br_total_tx_bytes r) (br_total_tx_bytes r))"
proof -
  let ?links = "max (saturating_sub hops 1) 1"
  let ?b = "packet_bytes mode hops payload"
  note b = fits [unfolded chain_fits_def]
  have "?b * unat n \<le> ?b * unat n * chain_links hops"
    by simp
  then have burst: "?b * unat n < 2 ^ 64"
    using b by linarith
  have "entry_bytes mode * unat hops * unat n \<le> ?b * unat n"
    by (simp add: packet_bytes_def)
  then have head: "entry_bytes mode * unat hops * unat n < 2 ^ 64"
    using burst by linarith
  have "entry_bytes mode * unat hops < 2 ^ 64"
    using b by (simp add: packet_bytes_def)
  then obtain h where h: "\<And>prof. path_header_bytes prof mode hops = Some h" "unat h = entry_bytes mode * unat hops"
    by (cases mode) (auto simp: path_header_bytes_def entry_bytes_def checked_fits(2) mult.commute)
  have s1: "add_checked prof payload h = Some (payload + h) \<and> unat (payload + h) = unat payload + unat h" for prof
    using b h(2) by (intro checked_fits) (simp add: packet_bytes_def)
  have s2: "add_checked prof (payload + h) 32 = Some (payload + h + 32) \<and> unat (payload + h + 32) = ?b" for prof
    using checked_fits(1) [of "payload + h" 32 prof] b s1 h(2) by (simp add: packet_bytes_def)
  have s3: "mul_checked prof (payload + h + 32) n = Some ((payload + h + 32) * n)
      \<and> unat ((payload + h + 32) * n) = ?b * unat n" for prof
    using checked_fits(2) [of "payload + h + 32" n prof] s2 burst by simp
  have s4: "mul_checked prof ((payload + h + 32) * n) ?links = Some ((payload + h + 32) * n * ?links)
      \<and> unat ((payload + h + 32) * n * ?links) = ?b * unat n * chain_links hops" for prof
    using checked_fits(2) [of "(payload + h + 32) * n" ?links prof] b s3 unat_links [of hops] by simp
  have s5: "mul_checked prof h n = Some (h * n) \<and> unat (h * n) = entry_bytes mode * unat hops * unat n" for prof
    using checked_fits(2) [of h n prof] h(2) head by simp
  obtain p50 p95 where p: "percentile (map (chain_latency hops payload) [0..<unat n]) 50 = Some p50"
    "percentile (map (chain_latency hops payload) [0..<unat n]) 95 = Some p95"
    using chain_percentiles [OF n] .
  let ?r = "the (simulate_chain Release hops mode payload n)"
  have run: "simulate_chain prof hops mode payload n = Some ?r" for prof
    using h(1) s1 s2 s3 s4 s5 p by (simp add: simulate_chain_def Let_def)
  show ?thesis
    by (rule that [OF run])
      (use h(1) s1 s2 s3 s4 s5 p in \<open>simp_all add: simulate_chain_def Let_def\<close>)
qed

text \<open>The development profile panics on the first count that does not fit.\<close>

lemma simulate_chain_dev_panics:
  assumes "\<not> chain_fits mode hops payload n"
  shows "simulate_chain Dev hops mode payload n = None"
proof (rule ccontr)
  assume "simulate_chain Dev hops mode payload n \<noteq> None"
  then obtain h where h: "entry_bytes mode * unat hops < 2 ^ 64" "h = hops * of_nat (entry_bytes mode)"
    and sums: "unat payload + unat h < 2 ^ 64" "unat (payload + h) + 32 < 2 ^ 64"
      "unat (payload + h + 32) * unat n < 2 ^ 64"
      "unat ((payload + h + 32) * n) * unat (max (saturating_sub hops 1) 1) < 2 ^ 64"
    by (auto simp: simulate_chain_def Let_def bind_eq_Some_conv checked_dev_Some path_header_bytes_dev)
  have "unat h = entry_bytes mode * unat hops"
    using h path_header_bytes_fits [OF h(1), of Dev] by (auto simp: path_header_bytes_dev)
  moreover from this have "unat (payload + h) = unat payload + entry_bytes mode * unat hops"
    using sums(1) by (simp add: unat_word_ariths)
  moreover from this have "unat (payload + h + 32) = packet_bytes mode hops payload"
    using sums(2) by (simp add: unat_word_ariths(1) [of "payload + h"] packet_bytes_def)
  moreover from this have "unat ((payload + h + 32) * n) = packet_bytes mode hops payload * unat n"
    using sums(3) by (simp add: unat_word_ariths(2) [of "payload + h + 32"])
  ultimately have "chain_fits mode hops payload n"
    using sums by (simp add: chain_fits_def unat_links packet_bytes_def)
  with assms show False ..
qed

end
