(* ===== verification/Protocol_State.thy ===== *)
theory Protocol_State
  imports Topology Tables Routes Metrics
begin

text \<open>
  \<open>crates/dldsr-node/src/protocol.rs\<close>, the data: commands, events, actions and the state of
  one node, with the read-only helpers that only look at the configuration, the tables or a
  path. Log statements are not modelled.
\<close>

section \<open>Commands, events and actions\<close>

datatype protocol_command = DiscoverAndSend u32 "u8 list"

text \<open>
  The reason strings of drops and route errors, one constructor per format string with the
  values it prints. The wording itself is not modelled.
\<close>

datatype reason =
    RrepSenderUnknown socket_addr
  | RrepSenderNotNeighbor u32
  | RrepTraceMissesNode
  | RrepNoSenderHop
  | RrepSenderMismatch u32 u32
  | RrepSenderNotAdjacent u32
  | RrepReverseNotAdjacent u32
  | DataModeMismatch protocol_mode protocol_mode
  | DataSenderUnknown socket_addr
  | DataSenderNotNeighbor u32
  | DataDsrCursorMismatch
  | DataDsrRouteExhausted
  | DataDsrNextNotNeighbor u32
  | DataLabelPathExhausted
  | DataLabelLookupFailed u8
  | DataDlDsrNextNotNeighbor u32
  | DataDsrPathEnd
  | DataDsrPathMisses
  | DataDsrDeliveryCursor usize nat
  | DataDsrNoPreviousHop
  | DataDsrSenderMismatch u32 u32
  | DataDlDsrDeliveryCursor usize nat
  | DataOriginLookupFailed
  | DiscoveryFailed

datatype protocol_event =
    RouteCached (rc_node: u32) (rc_dst: u32) (rc_request: u64)
  | DataDelivered (dd_node: u32) (dd_src: u32) (dd_dst: u32) (dd_sequence: u64) (dd_payload: "u8 list")
  | RouteDiscoveryFailed (rf_node: u32) (rf_dst: u32) (rf_attempts: u32)
  | DataDropped (dr_node: u32) (dr_dst: u32) (dr_reason: reason)
  | RouteError (er_node: u32) (er_dst: u32) (er_reason: reason)

record outbound_packet =
  ob_packet :: packet
  ob_dst :: socket_addr

record protocol_actions =
  pa_outbound :: "outbound_packet list"
  pa_events :: "protocol_event list"

definition no_actions :: protocol_actions where
  "no_actions = \<lparr>pa_outbound = [], pa_events = []\<rparr>"

definition actions_send :: "protocol_actions \<Rightarrow> packet \<Rightarrow> socket_addr \<Rightarrow> protocol_actions" where
  "actions_send acts packet dst =
     acts\<lparr>pa_outbound := pa_outbound acts @ [\<lparr>ob_packet = packet, ob_dst = dst\<rparr>]\<rparr>"

definition actions_event :: "protocol_actions \<Rightarrow> protocol_event \<Rightarrow> protocol_actions" where
  "actions_event acts ev = acts\<lparr>pa_events := pa_events acts @ [ev]\<rparr>"

section \<open>Node state\<close>

record pending_data =
  pd_dst_node_id :: u32
  pd_payload :: "u8 list"

record discovery_state =
  ds_request_id :: u64
  ds_last_sent_millis :: u64
  ds_retries_done :: u32

record protocol_state =
  ps_config :: node_config
  ps_neighbors :: neighbor_table
  ps_labels :: label_table
  ps_routes :: route_cache
  ps_metrics :: node_metrics
  ps_seen_requests :: seen_requests
  ps_pending_data :: "pending_data list"
  ps_discoveries :: "(u32, discovery_state) hash_map"
  ps_next_request_id :: u64
  ps_next_sequence :: u64

definition protocol_new :: "node_config \<Rightarrow> protocol_state" where
  "protocol_new config =
     \<lparr>ps_config = config, ps_neighbors = neighbor_table_default, ps_labels = label_table_default,
      ps_routes = route_cache_default, ps_metrics = node_metrics_default,
      ps_seen_requests = seen_requests_default, ps_pending_data = [], ps_discoveries = [],
      ps_next_request_id = 1, ps_next_sequence = 1\<rparr>"

abbreviation self_id :: "protocol_state \<Rightarrow> u32" where
  "self_id st \<equiv> cfg_node_id (ps_config st)"

section \<open>Helpers that read the configuration\<close>

definition logical_neighbors :: "node_config \<Rightarrow> u32 list" where
  "logical_neighbors cfg =
     (case topology_node_by_id (cfg_topology cfg) (cfg_node_id cfg) of
        None \<Rightarrow> [] | Some node \<Rightarrow> tn_neighbors node)"

definition is_logical_neighbor :: "node_config \<Rightarrow> u32 \<Rightarrow> bool" where
  "is_logical_neighbor cfg node_id \<longleftrightarrow> node_id \<in> set (logical_neighbors cfg)"

definition endpoint :: "node_config \<Rightarrow> u32 \<Rightarrow> socket_addr option" where
  "endpoint cfg node_id = map_option tn_endpoint (topology_node_by_id (cfg_topology cfg) node_id)"

definition node_id_by_endpoint :: "node_config \<Rightarrow> socket_addr \<Rightarrow> u32 option" where
  "node_id_by_endpoint cfg ep =
     map_option tn_node_id (find (\<lambda>node. tn_endpoint node = ep) (topo_nodes (cfg_topology cfg)))"

definition are_adjacent :: "node_config \<Rightarrow> u32 \<Rightarrow> u32 \<Rightarrow> bool" where
  "are_adjacent cfg left right =
     (case topology_node_by_id (cfg_topology cfg) left of
        None \<Rightarrow> False | Some node \<Rightarrow> right \<in> set (tn_neighbors node))"

definition previous_in_trace :: "u32 list \<Rightarrow> u32 \<Rightarrow> u32 option" where
  "previous_in_trace trace_path current =
     (case position (\<lambda>node_id. node_id = current) trace_path of
        None \<Rightarrow> None
      | Some pos \<Rightarrow>
          (case checked_pred pos of
             None \<Rightarrow> None | Some previous \<Rightarrow> slice_get trace_path previous))"

fun is_control_packet :: "packet \<Rightarrow> bool" where
  "is_control_packet (Hello _ _) = True"
| "is_control_packet (HelloReply _ _ _ _ _) = True"
| "is_control_packet (Rreq _ _ _ _ _ _ _ _ _) = True"
| "is_control_packet (Rrep _ _ _ _ _ _ _) = True"
| "is_control_packet _ = False"

section \<open>Validation\<close>

definition validate_rrep :: "node_config \<Rightarrow> socket_addr \<Rightarrow> u32 list \<Rightarrow> (unit, reason) result" where
  "validate_rrep cfg sender trace_path =
     (case node_id_by_endpoint cfg sender of
        None \<Rightarrow> Inl (RrepSenderUnknown sender)
      | Some sender_node_id \<Rightarrow>
          if \<not> is_logical_neighbor cfg sender_node_id then Inl (RrepSenderNotNeighbor sender_node_id)
          else
            (case position (\<lambda>node_id. node_id = cfg_node_id cfg) trace_path of
               None \<Rightarrow> Inl RrepTraceMissesNode
             | Some pos \<Rightarrow>
                 (case slice_get trace_path (pos + 1) of
                    None \<Rightarrow> Inl RrepNoSenderHop
                  | Some expected_sender \<Rightarrow>
                      if sender_node_id \<noteq> expected_sender
                      then Inl (RrepSenderMismatch sender_node_id expected_sender)
                      else if \<not> are_adjacent cfg (cfg_node_id cfg) expected_sender
                      then Inl (RrepSenderNotAdjacent expected_sender)
                      else
                        (case (case checked_pred pos of
                                 None \<Rightarrow> None | Some idx \<Rightarrow> slice_get trace_path idx) of
                           None \<Rightarrow> Inr ()
                         | Some reverse_next \<Rightarrow>
                             if \<not> are_adjacent cfg (cfg_node_id cfg) reverse_next
                             then Inl (RrepReverseNotAdjacent reverse_next)
                             else Inr ()))))"

definition validate_data_delivery ::
    "node_config \<Rightarrow> u32 \<Rightarrow> protocol_mode \<Rightarrow> usize \<Rightarrow> u32 list \<Rightarrow> u8 list \<Rightarrow> (unit, reason) result" where
  "validate_data_delivery cfg sender_node_id protocol_mode route_cursor dsr_path dldsr_label_path =
     (case protocol_mode of
        Dsr \<Rightarrow>
          if slice_last dsr_path \<noteq> Some (cfg_node_id cfg) then Inl DataDsrPathEnd
          else
            (case position (\<lambda>node_id. node_id = cfg_node_id cfg) dsr_path of
               None \<Rightarrow> Inl DataDsrPathMisses
             | Some expected_position \<Rightarrow>
                 if unat route_cursor \<noteq> expected_position
                 then Inl (DataDsrDeliveryCursor route_cursor expected_position)
                 else
                   (case (case checked_pred expected_position of
                            None \<Rightarrow> None | Some idx \<Rightarrow> slice_get dsr_path idx) of
                      None \<Rightarrow> Inl DataDsrNoPreviousHop
                    | Some previous \<Rightarrow>
                        if previous \<noteq> sender_node_id
                        then Inl (DataDsrSenderMismatch sender_node_id previous)
                        else Inr ()))
      | DlDsr \<Rightarrow>
          if unat route_cursor \<noteq> length dldsr_label_path
          then Inl (DataDlDsrDeliveryCursor route_cursor (length dldsr_label_path))
          else Inr ())"

definition next_data_endpoint :: "protocol_state \<Rightarrow> packet \<Rightarrow> socket_addr option" where
  "next_data_endpoint st packet =
     (case packet of
        Data _ _ _ mode route_cursor dsr_path dldsr_label_path _ _ \<Rightarrow>
          (case mode of
             Dsr \<Rightarrow>
               (case slice_get dsr_path (unat (route_cursor + 1)) of
                  None \<Rightarrow> None | Some next \<Rightarrow> endpoint (ps_config st) next)
           | DlDsr \<Rightarrow>
               (case slice_get dldsr_label_path (unat route_cursor) of
                  None \<Rightarrow> None
                | Some label \<Rightarrow> map_option ne_endpoint (neighbor_by_label (ps_neighbors st) label)))
      | _ \<Rightarrow> None)"

section \<open>Facts about the helpers\<close>

lemma is_logical_neighbor_adjacent:
  "is_logical_neighbor cfg n \<longleftrightarrow> are_adjacent cfg (cfg_node_id cfg) n"
  by (auto simp: is_logical_neighbor_def logical_neighbors_def are_adjacent_def split: option.splits)

lemma previous_in_trace_Some:
  "previous_in_trace trace n = Some p \<longleftrightarrow>
     (\<exists>i. Suc i < length trace \<and> trace ! Suc i = n \<and> (\<forall>j \<le> i. trace ! j \<noteq> n) \<and> trace ! i = p)"
proof -
  have "previous_in_trace trace n = Some p \<longleftrightarrow>
      (\<exists>i. position (\<lambda>x. x = n) trace = Some (Suc i) \<and> trace ! i = p)"
    by (auto simp: previous_in_trace_def checked_pred_def dest: position_less
        split: option.splits nat.splits)
  then show ?thesis
    by (auto simp: position_Some less_Suc_eq_le)
qed

lemma previous_in_trace_snoc:
  "n \<notin> set xs \<Longrightarrow> xs \<noteq> [] \<Longrightarrow> previous_in_trace (xs @ [n]) n = Some (last xs)"
  by (auto simp: previous_in_trace_Some nth_append last_conv_nth
      intro!: exI [of _ "length xs - 1"] dest: nth_mem)

text \<open>
  A reply is accepted exactly when it comes from the neighbour that follows this node in the
  recorded trace, and the node before it, if any, is adjacent.
\<close>

lemma validate_rrep_ok:
  "validate_rrep cfg sender trace = Inr () \<longleftrightarrow>
     (\<exists>s i. node_id_by_endpoint cfg sender = Some s
        \<and> is_logical_neighbor cfg s
        \<and> position (\<lambda>n. n = cfg_node_id cfg) trace = Some i
        \<and> Suc i < length trace \<and> trace ! Suc i = s
        \<and> (\<forall>k. i = Suc k \<longrightarrow> are_adjacent cfg (cfg_node_id cfg) (trace ! k)))"
proof (cases "position (\<lambda>n. n = cfg_node_id cfg) trace")
  case None
  then show ?thesis
    by (auto simp: validate_rrep_def split: option.splits if_splits)
next
  case (Some i)
  moreover have "i < length trace"
    using Some by (rule position_less)
  ultimately show ?thesis
    by (auto simp: validate_rrep_def is_logical_neighbor_adjacent checked_pred_def
        split: option.splits if_splits nat.splits)
qed

end
