(* ===== verification/Protocol.thy ===== *)
theory Protocol
  imports Protocol_State
begin

text \<open>
  \<open>crates/dldsr-node/src/protocol.rs\<close>, the handlers. Each takes the node state (and the
  clock readings of the invocation where it reads the clock) and returns the new state with
  the packets to send and the events to report.
\<close>

type_synonym handler_result = "protocol_state \<times> protocol_actions"

section \<open>Hello exchange\<close>

definition handle_hello ::
    "clock \<Rightarrow> protocol_state \<Rightarrow> u32 \<Rightarrow> u64 \<Rightarrow> socket_addr \<Rightarrow> handler_result" where
  "handle_hello clk st src_node_id timestamp_millis sender =
     (if \<not> is_logical_neighbor (ps_config st) src_node_id then (st, no_actions)
      else
        (case assign_or_reuse_label (ps_neighbors st) src_node_id sender (clk 0) of
           (neighbors', Inl _) \<Rightarrow> (st\<lparr>ps_neighbors := neighbors'\<rparr>, no_actions)
         | (neighbors', Inr label) \<Rightarrow>
             (st\<lparr>ps_neighbors := neighbors'\<rparr>,
              actions_send no_actions
                (HelloReply (self_id st) src_node_id label True (clk 1)) sender)))"

definition handle_hello_reply ::
    "protocol_state \<Rightarrow> u32 \<Rightarrow> u32 \<Rightarrow> u8 \<Rightarrow> u64 \<Rightarrow> handler_result" where
  "handle_hello_reply st src_node_id dst_node_id assigned_label timestamp_millis =
     (if dst_node_id = self_id st \<and> is_logical_neighbor (ps_config st) src_node_id
      then (st\<lparr>ps_labels := update_from_hello_reply (ps_labels st) src_node_id assigned_label
                              timestamp_millis\<rparr>, no_actions)
      else (st, no_actions))"

section \<open>Sending data\<close>

definition drop_data :: "protocol_state \<Rightarrow> u32 \<Rightarrow> reason \<Rightarrow> handler_result" where
  "drop_data st dst_node_id reason =
     (ps_metrics_update
        (m_data_dropped_update (\<lambda>n. n + 1) \<circ> m_dropped_packets_update (\<lambda>n. n + 1)) st,
      actions_event
        (actions_event no_actions (DataDropped (self_id st) dst_node_id reason))
        (RouteError (self_id st) dst_node_id reason))"

definition origin_data ::
    "clock \<Rightarrow> protocol_state \<Rightarrow> u32 \<Rightarrow> u8 list \<Rightarrow> route_entry \<Rightarrow> handler_result" where
  "origin_data clk st dst_node_id payload route =
     (let sequence = ps_next_sequence st;
          st1 = st\<lparr>ps_next_sequence := ps_next_sequence st + 1\<rparr>;
          mode = cfg_protocol_mode (ps_config st1);
          created_at = clk 0;
          lookup_packet =
            Data (self_id st1) dst_node_id sequence mode 0 (re_dsr_path route)
              (re_dldsr_label_path route) payload created_at
      in case next_data_endpoint st1 lookup_packet of
           Some ep \<Rightarrow>
             (st1, actions_send no_actions
               (Data (self_id st1) dst_node_id sequence mode 1 (re_dsr_path route)
                 (re_dldsr_label_path route) payload created_at) ep)
         | None \<Rightarrow> drop_data st1 dst_node_id DataOriginLookupFailed)"

text \<open>
  The loop of \<open>flush_pending\<close> over the queue it pops: payloads for the destination are
  originated with one clock reading each, the others are kept. Only the packets of
  \<open>origin_data\<close> are collected, as in the source; its events are discarded.
\<close>

fun flush_loop ::
    "clock \<Rightarrow> protocol_state \<Rightarrow> u32 \<Rightarrow> route_entry \<Rightarrow> pending_data list \<Rightarrow> pending_data list \<Rightarrow>
     outbound_packet list \<Rightarrow> protocol_state \<times> pending_data list \<times> outbound_packet list" where
  "flush_loop clk st dst route [] remaining outbound = (st, remaining, outbound)"
| "flush_loop clk st dst route (pending # queue) remaining outbound =
     (if pd_dst_node_id pending = dst
      then let (st', acts) = origin_data clk st dst (pd_payload pending) route
           in flush_loop (clock_tl clk) st' dst route queue remaining (outbound @ pa_outbound acts)
      else flush_loop clk st dst route queue (remaining @ [pending]) outbound)"

definition flush_pending ::
    "clock \<Rightarrow> protocol_state \<Rightarrow> u32 \<Rightarrow> route_entry \<Rightarrow> protocol_state \<times> outbound_packet list" where
  "flush_pending clk st dst_node_id route =
     (let (st', remaining, outbound) =
            flush_loop clk (st\<lparr>ps_pending_data := []\<rparr>) dst_node_id route (ps_pending_data st) [] []
      in (st'\<lparr>ps_pending_data := remaining\<rparr>, outbound))"

fun drop_pending_loop ::
    "u32 \<Rightarrow> pending_data list \<Rightarrow> pending_data list \<Rightarrow> nat \<Rightarrow> pending_data list \<times> nat" where
  "drop_pending_loop dst [] remaining dropped = (remaining, dropped)"
| "drop_pending_loop dst (pending # queue) remaining dropped =
     (if pd_dst_node_id pending = dst then drop_pending_loop dst queue remaining (dropped + 1)
      else drop_pending_loop dst queue (remaining @ [pending]) dropped)"

definition drop_pending_for_dst :: "protocol_state \<Rightarrow> u32 \<Rightarrow> protocol_state \<times> nat" where
  "drop_pending_for_dst st dst_node_id =
     (let (remaining, dropped) = drop_pending_loop dst_node_id (ps_pending_data st) [] 0
      in (st\<lparr>ps_pending_data := remaining\<rparr>, dropped))"

section \<open>Route discovery\<close>

fun rreq_originate_loop ::
    "node_config \<Rightarrow> u32 \<Rightarrow> u64 \<Rightarrow> u64 \<Rightarrow> u32 list \<Rightarrow> protocol_actions \<Rightarrow> protocol_actions" where
  "rreq_originate_loop cfg dst request_id now [] acts = acts"
| "rreq_originate_loop cfg dst request_id now (neighbor_id # rest) acts =
     rreq_originate_loop cfg dst request_id now rest
       (case endpoint cfg neighbor_id of
          None \<Rightarrow> acts
        | Some ep \<Rightarrow>
            actions_send acts
              (Rreq (cfg_node_id cfg) dst request_id (cfg_node_id cfg) 0 [cfg_node_id cfg] []
                [cfg_node_id cfg] now) ep)"

definition start_discovery ::
    "clock \<Rightarrow> protocol_state \<Rightarrow> u32 \<Rightarrow> u32 \<Rightarrow> handler_result" where
  "start_discovery clk st dst_node_id retries_done =
     (let cfg = ps_config st;
          request_id = ps_next_request_id st;
          now = clk 0;
          seen' = fst (mark_if_new (ps_seen_requests st) (cfg_node_id cfg) request_id now
                         (cfg_seen_request_ttl_ms cfg) (cfg_seen_request_max_entries cfg));
          st1 = st\<lparr>ps_next_request_id := ps_next_request_id st + 1,
                   ps_seen_requests := seen',
                   ps_discoveries := hm_insert dst_node_id
                     \<lparr>ds_request_id = request_id, ds_last_sent_millis = now,
                      ds_retries_done = retries_done\<rparr> (ps_discoveries st)\<rparr>;
          st2 = ps_metrics_update (m_route_discovery_attempts_update (\<lambda>n. n + 1)) st1
      in (st2, rreq_originate_loop cfg dst_node_id request_id now (logical_neighbors cfg) no_actions))"

definition discover_and_send ::
    "clock \<Rightarrow> protocol_state \<Rightarrow> u32 \<Rightarrow> u8 list \<Rightarrow> handler_result" where
  "discover_and_send clk st dst_node_id payload =
     (case route_shortest (ps_routes st) dst_node_id (clk 0) of
        Some route \<Rightarrow> origin_data (clock_tl clk) st dst_node_id payload route
      | None \<Rightarrow>
          (let st1 = st\<lparr>ps_pending_data := ps_pending_data st
                          @ [\<lparr>pd_dst_node_id = dst_node_id, pd_payload = payload\<rparr>]\<rparr>
           in if hm_get (ps_discoveries st1) dst_node_id \<noteq> None then (st1, no_actions)
              else start_discovery (clock_tl clk) st1 dst_node_id 0))"

definition expired_discoveries :: "protocol_state \<Rightarrow> u64 \<Rightarrow> (u32 \<times> discovery_state) list" where
  "expired_discoveries st now =
     filter (\<lambda>(_, state).
         cfg_route_discovery_timeout_ms (ps_config st) \<le> saturating_sub now (ds_last_sent_millis state))
       (ps_discoveries st)"

definition fail_discovery ::
    "protocol_state \<Rightarrow> u32 \<Rightarrow> discovery_state \<Rightarrow> protocol_actions \<Rightarrow> handler_result" where
  "fail_discovery st dst_node_id state acts =
     (let st1 = st\<lparr>ps_discoveries := hm_remove dst_node_id (ps_discoveries st)\<rparr>;
          (st2, dropped) = drop_pending_for_dst st1 dst_node_id;
          st3 = ps_metrics_update
                  (m_data_dropped_update (\<lambda>n. n + of_nat dropped)
                   \<circ> m_dropped_packets_update (\<lambda>n. n + of_nat dropped)
                   \<circ> m_route_discovery_failures_update (\<lambda>n. n + 1)) st2;
          acts1 = actions_event acts
                    (RouteDiscoveryFailed (self_id st) dst_node_id (ds_retries_done state + 1))
      in (st3, if 0 < dropped
               then actions_event acts1 (DataDropped (self_id st) dst_node_id DiscoveryFailed)
               else acts1))"

fun retry_loop ::
    "clock \<Rightarrow> protocol_state \<Rightarrow> (u32 \<times> discovery_state) list \<Rightarrow> protocol_actions \<Rightarrow> handler_result" where
  "retry_loop clk st [] acts = (st, acts)"
| "retry_loop clk st ((dst_node_id, state) # rest) acts =
     (if cfg_route_discovery_max_retries (ps_config st) \<le> ds_retries_done state
      then let (st', acts') = fail_discovery st dst_node_id state acts
           in retry_loop clk st' rest acts'
      else let (st', started) = start_discovery clk st dst_node_id (ds_retries_done state + 1)
           in retry_loop (clock_tl clk) st' rest
                (acts\<lparr>pa_outbound := pa_outbound acts @ pa_outbound started\<rparr>))"

definition retry_expired_discoveries :: "clock \<Rightarrow> protocol_state \<Rightarrow> u64 \<Rightarrow> handler_result" where
  "retry_expired_discoveries clk st now = retry_loop clk st (expired_discoveries st now) no_actions"

section \<open>Route requests\<close>

definition push_if_new :: "u32 list \<Rightarrow> u32 \<Rightarrow> u32 list" where
  "push_if_new path node_id = (if slice_last path \<noteq> Some node_id then path @ [node_id] else path)"

definition rreq_reply ::
    "protocol_state \<Rightarrow> u32 \<Rightarrow> u32 \<Rightarrow> u64 \<Rightarrow> u32 list \<Rightarrow> u8 list \<Rightarrow> u32 list \<Rightarrow> u64 \<Rightarrow> protocol_actions" where
  "rreq_reply st src dst request_id dsr_path label_path trace_path created_at =
     (case previous_in_trace trace_path (self_id st) of
        None \<Rightarrow> no_actions
      | Some reverse_next \<Rightarrow>
          (case endpoint (ps_config st) reverse_next of
             None \<Rightarrow> no_actions
           | Some ep \<Rightarrow>
               actions_send no_actions
                 (Rrep src dst request_id dsr_path label_path trace_path created_at) ep))"

fun rreq_forward_loop ::
    "protocol_state \<Rightarrow> u32 \<Rightarrow> packet \<Rightarrow> u32 list \<Rightarrow> protocol_actions \<Rightarrow> handler_result" where
  "rreq_forward_loop st previous_hop packet [] acts = (st, acts)"
| "rreq_forward_loop st previous_hop packet (neighbor_id # rest) acts =
     (if neighbor_id = previous_hop then rreq_forward_loop st previous_hop packet rest acts
      else
        (case endpoint (ps_config st) neighbor_id of
           None \<Rightarrow> rreq_forward_loop st previous_hop packet rest acts
         | Some ep \<Rightarrow>
             rreq_forward_loop (ps_metrics_update (m_rreq_forwarded_update (\<lambda>n. n + 1)) st)
               previous_hop packet rest (actions_send acts packet ep)))"

text \<open>The label path after this node: extended in DL-DSR mode, if the label is known.\<close>

definition extend_label_path :: "protocol_state \<Rightarrow> u32 \<Rightarrow> u8 list \<Rightarrow> u8 list option" where
  "extend_label_path st previous_hop label_path =
     (if cfg_protocol_mode (ps_config st) = DlDsr
      then map_option (\<lambda>label. label_path @ [label])
             (label_assigned_by_neighbor (ps_labels st) previous_hop)
      else Some label_path)"

definition handle_rreq ::
    "clock \<Rightarrow> protocol_state \<Rightarrow> u32 \<Rightarrow> u32 \<Rightarrow> u64 \<Rightarrow> u32 \<Rightarrow> u8 \<Rightarrow> u32 list \<Rightarrow> u8 list \<Rightarrow>
     u32 list \<Rightarrow> u64 \<Rightarrow> handler_result" where
  "handle_rreq clk st src_node_id dst_node_id request_id previous_hop hop_count dsr_path
     dldsr_label_path trace_path created_at_millis =
     (let cfg = ps_config st
      in if \<not> is_logical_neighbor cfg previous_hop then (st, no_actions)
         else if cfg_max_rreq_hops cfg \<le> hop_count
         then (ps_metrics_update (m_rreq_dropped_ttl_update (\<lambda>n. n + 1)) st, no_actions)
         else
           (let (seen', is_new) = mark_if_new (ps_seen_requests st) src_node_id request_id (clk 0)
                  (cfg_seen_request_ttl_ms cfg) (cfg_seen_request_max_entries cfg);
                st1 = st\<lparr>ps_seen_requests := seen'\<rparr>
            in if \<not> is_new
               then (ps_metrics_update (m_rreq_dropped_duplicate_update (\<lambda>n. n + 1)) st1, no_actions)
               else
                 (let dsr_path' = push_if_new dsr_path (cfg_node_id cfg);
                      trace_path' = push_if_new trace_path (cfg_node_id cfg)
                  in case extend_label_path st1 previous_hop dldsr_label_path of
                       None \<Rightarrow>
                         (ps_metrics_update (m_dropped_packets_update (\<lambda>n. n + 1)) st1, no_actions)
                     | Some label_path' \<Rightarrow>
                         if cfg_node_id cfg = dst_node_id
                         then (st1, rreq_reply st1 src_node_id dst_node_id request_id dsr_path'
                                      label_path' trace_path' created_at_millis)
                         else rreq_forward_loop st1 previous_hop
                                (Rreq src_node_id dst_node_id request_id (cfg_node_id cfg)
                                  (hop_count + 1) dsr_path' label_path' trace_path' created_at_millis)
                                (logical_neighbors cfg) no_actions)))"

section \<open>Route replies\<close>

definition rrep_route :: "node_config \<Rightarrow> u64 \<Rightarrow> u32 \<Rightarrow> u32 list \<Rightarrow> u8 list \<Rightarrow> route_entry" where
  "rrep_route cfg now dst_node_id dsr_path dldsr_label_path =
     (case cfg_protocol_mode cfg of
        Dsr \<Rightarrow> route_new_dsr dst_node_id dsr_path (now + cfg_route_cache_ttl_ms cfg)
      | DlDsr \<Rightarrow>
          \<lparr>re_dst_node_id = dst_node_id, re_dsr_path = dsr_path,
           re_dldsr_label_path = dldsr_label_path,
           re_expires_at_millis = now + cfg_route_cache_ttl_ms cfg\<rparr>)"

definition handle_rrep ::
    "clock \<Rightarrow> protocol_state \<Rightarrow> socket_addr \<Rightarrow> u32 \<Rightarrow> u32 \<Rightarrow> u64 \<Rightarrow> u32 list \<Rightarrow> u8 list \<Rightarrow> u32 list \<Rightarrow>
     u64 \<Rightarrow> handler_result" where
  "handle_rrep clk st sender src_node_id dst_node_id request_id dsr_path dldsr_label_path
     trace_path created_at_millis =
     (let cfg = ps_config st
      in case validate_rrep cfg sender trace_path of
           Inl reason \<Rightarrow>
             (ps_metrics_update (m_rrep_dropped_invalid_update (\<lambda>n. n + 1)) st,
              actions_event no_actions (RouteError (cfg_node_id cfg) dst_node_id reason))
         | Inr _ \<Rightarrow>
             if cfg_node_id cfg = src_node_id
             then
               (let route = rrep_route cfg (clk 0) dst_node_id dsr_path dldsr_label_path;
                    st1 = st\<lparr>ps_routes := route_insert (ps_routes st) route,
                             ps_discoveries := hm_remove dst_node_id (ps_discoveries st)\<rparr>;
                    st2 = ps_metrics_update (m_route_discovery_successes_update (\<lambda>n. n + 1)) st1;
                    acts = actions_event no_actions
                             (RouteCached (cfg_node_id cfg) dst_node_id request_id);
                    (st3, flushed) = flush_pending (clock_tl clk) st2 dst_node_id route
                in (st3, acts\<lparr>pa_outbound := pa_outbound acts @ flushed\<rparr>))
             else
               (case previous_in_trace trace_path (cfg_node_id cfg) of
                  None \<Rightarrow> (st, no_actions)
                | Some reverse_next \<Rightarrow>
                    (case endpoint cfg reverse_next of
                       None \<Rightarrow> (st, no_actions)
                     | Some ep \<Rightarrow>
                         (ps_metrics_update (m_rrep_forwarded_update (\<lambda>n. n + 1)) st,
                          actions_send no_actions
                            (Rrep src_node_id dst_node_id request_id dsr_path dldsr_label_path
                              trace_path created_at_millis) ep))))"

section \<open>Data\<close>

definition deliver_data ::
    "clock \<Rightarrow> protocol_state \<Rightarrow> u32 \<Rightarrow> u32 \<Rightarrow> u64 \<Rightarrow> u8 list \<Rightarrow> u64 \<Rightarrow> handler_result" where
  "deliver_data clk st src_node_id dst_node_id sequence payload created_at_millis =
     (let latency_ms = saturating_sub (clk 0) created_at_millis
      in (ps_metrics_update
            (m_latency_samples_ms_update (\<lambda>samples. samples @ [f64_of_u64 latency_ms])
             \<circ> m_data_delivered_update (\<lambda>n. n + 1) \<circ> m_delivered_packets_update (\<lambda>n. n + 1)) st,
          actions_event no_actions
            (DataDelivered (self_id st) src_node_id dst_node_id sequence payload)))"

definition forward_data_dsr ::
    "protocol_state \<Rightarrow> u32 \<Rightarrow> u32 \<Rightarrow> u64 \<Rightarrow> usize \<Rightarrow> u32 list \<Rightarrow> u8 list \<Rightarrow> u8 list \<Rightarrow> u64 \<Rightarrow>
     handler_result" where
  "forward_data_dsr st src_node_id dst_node_id sequence route_cursor dsr_path dldsr_label_path
     payload created_at_millis =
     (let cfg = ps_config st
      in if slice_get dsr_path (unat route_cursor) \<noteq> Some (cfg_node_id cfg)
         then drop_data st dst_node_id DataDsrCursorMismatch
         else
           (case slice_get dsr_path (unat (route_cursor + 1)) of
              None \<Rightarrow> drop_data st dst_node_id DataDsrRouteExhausted
            | Some next_node_id \<Rightarrow>
                if \<not> is_logical_neighbor cfg next_node_id
                then drop_data st dst_node_id (DataDsrNextNotNeighbor next_node_id)
                else
                  (case endpoint cfg next_node_id of
                     None \<Rightarrow> (st, no_actions)
                   | Some ep \<Rightarrow>
                       (ps_metrics_update (m_data_forwarded_update (\<lambda>n. n + 1)) st,
                        actions_send no_actions
                          (Data src_node_id dst_node_id sequence Dsr (route_cursor + 1) dsr_path
                            dldsr_label_path payload created_at_millis) ep))))"

definition forward_data_dldsr ::
    "protocol_state \<Rightarrow> u32 \<Rightarrow> u32 \<Rightarrow> u64 \<Rightarrow> usize \<Rightarrow> u32 list \<Rightarrow> u8 list \<Rightarrow> u8 list \<Rightarrow> u64 \<Rightarrow>
     handler_result" where
  "forward_data_dldsr st src_node_id dst_node_id sequence route_cursor dsr_path dldsr_label_path
     payload created_at_millis =
     (case slice_get dldsr_label_path (unat route_cursor) of
        None \<Rightarrow> drop_data st dst_node_id DataLabelPathExhausted
      | Some next_label \<Rightarrow>
          (case neighbor_by_label (ps_neighbors st) next_label of
             None \<Rightarrow> drop_data st dst_node_id (DataLabelLookupFailed next_label)
           | Some entry \<Rightarrow>
               if \<not> is_logical_neighbor (ps_config st) (ne_node_id entry)
               then drop_data st dst_node_id (DataDlDsrNextNotNeighbor (ne_node_id entry))
               else
                 (ps_metrics_update (m_data_forwarded_update (\<lambda>n. n + 1)) st,
                  actions_send no_actions
                    (Data src_node_id dst_node_id sequence DlDsr (route_cursor + 1) dsr_path
                      dldsr_label_path payload created_at_millis) (ne_endpoint entry))))"

definition handle_data ::
    "clock \<Rightarrow> protocol_state \<Rightarrow> socket_addr \<Rightarrow> u32 \<Rightarrow> u32 \<Rightarrow> u64 \<Rightarrow> protocol_mode \<Rightarrow> usize \<Rightarrow>
     u32 list \<Rightarrow> u8 list \<Rightarrow> u8 list \<Rightarrow> u64 \<Rightarrow> handler_result" where
  "handle_data clk st sender src_node_id dst_node_id sequence protocol_mode route_cursor dsr_path
     dldsr_label_path payload created_at_millis =
     (let cfg = ps_config st
      in if cfg_strict_protocol_mode cfg \<and> protocol_mode \<noteq> cfg_protocol_mode cfg
         then drop_data st dst_node_id (DataModeMismatch protocol_mode (cfg_protocol_mode cfg))
         else
           (case node_id_by_endpoint cfg sender of
              None \<Rightarrow> drop_data st dst_node_id (DataSenderUnknown sender)
            | Some sender_node_id \<Rightarrow>
                if \<not> is_logical_neighbor cfg sender_node_id
                then drop_data st dst_node_id (DataSenderNotNeighbor sender_node_id)
                else if dst_node_id = cfg_node_id cfg
                then
                  (case validate_data_delivery cfg sender_node_id protocol_mode route_cursor
                          dsr_path dldsr_label_path of
                     Inl reason \<Rightarrow> drop_data st dst_node_id reason
                   | Inr _ \<Rightarrow>
                       deliver_data clk st src_node_id dst_node_id sequence payload created_at_millis)
                else
                  (case protocol_mode of
                     Dsr \<Rightarrow>
                       forward_data_dsr st src_node_id dst_node_id sequence route_cursor dsr_path
                         dldsr_label_path payload created_at_millis
                   | DlDsr \<Rightarrow>
                       forward_data_dldsr st src_node_id dst_node_id sequence route_cursor dsr_path
                         dldsr_label_path payload created_at_millis)))"

section \<open>Entry points\<close>

definition protocol_record_rx :: "protocol_state \<Rightarrow> usize \<Rightarrow> protocol_state" where
  "protocol_record_rx st bytes = ps_metrics_update (\<lambda>m. metrics_record_rx m bytes) st"

definition protocol_record_tx :: "serializer \<Rightarrow> protocol_state \<Rightarrow> packet \<Rightarrow> protocol_state" where
  "protocol_record_tx ser st packet =
     (case packet_encoded_len ser packet of
        Inl _ \<Rightarrow> st
      | Inr bytes \<Rightarrow>
          ps_metrics_update (\<lambda>m. metrics_record_tx m bytes (is_control_packet packet)) st)"

definition handle_tick :: "clock \<Rightarrow> protocol_state \<Rightarrow> u64 \<Rightarrow> handler_result" where
  "handle_tick clk st now =
     (let st1 = st\<lparr>ps_seen_requests :=
                    seen_prune (ps_seen_requests st) now (cfg_seen_request_ttl_ms (ps_config st))\<rparr>
      in retry_expired_discoveries clk st1 now)"

fun handle_command :: "clock \<Rightarrow> protocol_state \<Rightarrow> protocol_command \<Rightarrow> handler_result" where
  "handle_command clk st (DiscoverAndSend dst_node_id payload) =
     discover_and_send clk st dst_node_id payload"

fun handle_packet :: "clock \<Rightarrow> protocol_state \<Rightarrow> packet \<Rightarrow> socket_addr \<Rightarrow> handler_result" where
  "handle_packet clk st (Hello src ts) sender = handle_hello clk st src ts sender"
| "handle_packet clk st (HelloReply src dst label _ ts) sender =
     handle_hello_reply st src dst label ts"
| "handle_packet clk st (Rreq src dst rid prev hops dsr labels trace created) sender =
     handle_rreq clk st src dst rid prev hops dsr labels trace created"
| "handle_packet clk st (Rrep src dst rid dsr labels trace created) sender =
     handle_rrep clk st sender src dst rid dsr labels trace created"
| "handle_packet clk st (Data src dst seq mode cursor dsr labels payload created) sender =
     handle_data clk st sender src dst seq mode cursor dsr labels payload created"
| "handle_packet clk st (Ack _ _ _) sender = (st, no_actions)"
| "handle_packet clk st (Error _ _ _) sender = (st, no_actions)"

end
