(* ===== verification/Protocol_Facts.thy ===== *)
theory Protocol_Facts
  imports Protocol
begin

text \<open>
  Closed forms of the loops of the handlers, and which components of the state each operation
  leaves alone. The theories about discovery, replies and data build on these facts.
\<close>

section \<open>Actions\<close>

lemma no_actions_sel [simp]: "pa_outbound no_actions = []" "pa_events no_actions = []"
  by (simp_all add: no_actions_def)

lemma actions_send_sel [simp]:
  "pa_outbound (actions_send acts p ep) = pa_outbound acts @ [\<lparr>ob_packet = p, ob_dst = ep\<rparr>]"
  "pa_events (actions_send acts p ep) = pa_events acts"
  by (simp_all add: actions_send_def)

lemma actions_event_sel [simp]:
  "pa_outbound (actions_event acts ev) = pa_outbound acts"
  "pa_events (actions_event acts ev) = pa_events acts @ [ev]"
  by (simp_all add: actions_event_def)

section \<open>Loops over the neighbours\<close>

text \<open>The endpoints of the given nodes, in order; nodes the topology does not know are skipped.\<close>

definition endpoints_of :: "node_config \<Rightarrow> u32 list \<Rightarrow> socket_addr list" where
  "endpoints_of cfg ns = List.map_filter (endpoint cfg) ns"

lemma endpoints_of_simps [simp]:
  "endpoints_of cfg [] = []"
  "endpoints_of cfg (n # ns) =
     (case endpoint cfg n of None \<Rightarrow> endpoints_of cfg ns | Some ep \<Rightarrow> ep # endpoints_of cfg ns)"
  by (simp_all add: endpoints_of_def map_filter_simps split: option.split)

lemma set_endpoints_of: "ep \<in> set (endpoints_of cfg ns) \<longleftrightarrow> (\<exists>n \<in> set ns. endpoint cfg n = Some ep)"
  by (induction ns) (auto split: option.splits)

definition send_all :: "packet \<Rightarrow> socket_addr list \<Rightarrow> outbound_packet list" where
  "send_all p eps = map (\<lambda>ep. \<lparr>ob_packet = p, ob_dst = ep\<rparr>) eps"

lemma send_all_simps [simp]:
  "send_all p [] = []" "send_all p (ep # eps) = \<lparr>ob_packet = p, ob_dst = ep\<rparr> # send_all p eps"
  by (simp_all add: send_all_def)

lemma set_send_all [simp]:
  "ob \<in> set (send_all p eps) \<longleftrightarrow> ob_packet ob = p \<and> ob_dst ob \<in> set eps"
  by (cases ob) (auto simp: send_all_def)

lemma rreq_originate_loop_eq:
  "pa_outbound (rreq_originate_loop cfg dst rid now ns acts) =
     pa_outbound acts
     @ send_all (Rreq (cfg_node_id cfg) dst rid (cfg_node_id cfg) 0 [cfg_node_id cfg] []
                  [cfg_node_id cfg] now) (endpoints_of cfg ns)"
  "pa_events (rreq_originate_loop cfg dst rid now ns acts) = pa_events acts"
  by (induction ns arbitrary: acts) (simp_all split: option.split)

lemma rreq_forward_loop_eq:
  "rreq_forward_loop st prev p ns acts =
     (let eps = endpoints_of (ps_config st) (filter (\<lambda>n. n \<noteq> prev) ns)
      in (ps_metrics_update (m_rreq_forwarded_update (\<lambda>n. n + of_nat (length eps))) st,
          acts\<lparr>pa_outbound := pa_outbound acts @ send_all p eps\<rparr>))"
  by (induction ns arbitrary: st acts)
    (simp_all add: Let_def actions_send_def algebra_simps split: option.split)

section \<open>Queue operations\<close>

lemma drop_pending_loop_eq:
  "drop_pending_loop dst queue remaining dropped =
     (remaining @ filter (\<lambda>p. pd_dst_node_id p \<noteq> dst) queue,
      dropped + length (filter (\<lambda>p. pd_dst_node_id p = dst) queue))"
  by (induction queue arbitrary: remaining dropped) simp_all

lemma drop_pending_for_dst_eq:
  "drop_pending_for_dst st dst =
     (st\<lparr>ps_pending_data := filter (\<lambda>p. pd_dst_node_id p \<noteq> dst) (ps_pending_data st)\<rparr>,
      length (filter (\<lambda>p. pd_dst_node_id p = dst) (ps_pending_data st)))"
  by (simp add: drop_pending_for_dst_def drop_pending_loop_eq)

text \<open>
  \<open>origin_data\<close> only draws a sequence number and, when the next hop cannot be resolved,
  counts a drop.
\<close>

definition origin_resolves :: "protocol_state \<Rightarrow> route_entry \<Rightarrow> socket_addr option" where
  "origin_resolves st route =
     (case cfg_protocol_mode (ps_config st) of
        Dsr \<Rightarrow>
          (case slice_get (re_dsr_path route) 1 of
             None \<Rightarrow> None | Some next \<Rightarrow> endpoint (ps_config st) next)
      | DlDsr \<Rightarrow>
          (case slice_get (re_dldsr_label_path route) 0 of
             None \<Rightarrow> None
           | Some label \<Rightarrow> map_option ne_endpoint (neighbor_by_label (ps_neighbors st) label)))"

definition origin_packet ::
    "node_config \<Rightarrow> u64 \<Rightarrow> u32 \<Rightarrow> u8 list \<Rightarrow> route_entry \<Rightarrow> u64 \<Rightarrow> packet" where
  "origin_packet cfg sequence dst payload route created_at =
     Data (cfg_node_id cfg) dst sequence (cfg_protocol_mode cfg) 1 (re_dsr_path route)
       (re_dldsr_label_path route) payload created_at"

lemma origin_resolves_cong:
  "ps_config st = ps_config st' \<Longrightarrow> ps_neighbors st = ps_neighbors st' \<Longrightarrow>
     origin_resolves st route = origin_resolves st' route"
  by (simp add: origin_resolves_def cong: option.case_cong protocol_mode.case_cong)

lemma origin_resolves_update [simp]:
  "origin_resolves (ps_next_sequence_update f st) route = origin_resolves st route"
  "origin_resolves (ps_metrics_update g st) route = origin_resolves st route"
  "origin_resolves (ps_pending_data_update h st) route = origin_resolves st route"
  "origin_resolves (ps_routes_update i st) route = origin_resolves st route"
  "origin_resolves (ps_discoveries_update j st) route = origin_resolves st route"
  by (rule origin_resolves_cong; simp)+

lemma next_data_endpoint_origin:
  "ps_config st' = ps_config st \<Longrightarrow> ps_neighbors st' = ps_neighbors st \<Longrightarrow>
     next_data_endpoint st'
       (Data src dst sequence (cfg_protocol_mode (ps_config st)) 0 (re_dsr_path route)
         (re_dldsr_label_path route) payload created_at) = origin_resolves st route"
  by (cases "cfg_protocol_mode (ps_config st)")
    (simp_all add: next_data_endpoint_def origin_resolves_def cong: option.case_cong)

lemma origin_data_eq:
  "origin_data clk st dst payload route =
     (case origin_resolves st route of
        Some ep \<Rightarrow>
          (st\<lparr>ps_next_sequence := ps_next_sequence st + 1\<rparr>,
           actions_send no_actions
             (origin_packet (ps_config st) (ps_next_sequence st) dst payload route (clk 0)) ep)
      | None \<Rightarrow>
          drop_data (st\<lparr>ps_next_sequence := ps_next_sequence st + 1\<rparr>) dst DataOriginLookupFailed)"
  by (simp add: origin_data_def Let_def next_data_endpoint_origin origin_packet_def
      cong: option.case_cong)

lemma drop_data_frame [simp, frame_simps]:
  "ps_config (fst (drop_data st dst r)) = ps_config st"
  "ps_neighbors (fst (drop_data st dst r)) = ps_neighbors st"
  "ps_labels (fst (drop_data st dst r)) = ps_labels st"
  "ps_routes (fst (drop_data st dst r)) = ps_routes st"
  "ps_seen_requests (fst (drop_data st dst r)) = ps_seen_requests st"
  "ps_pending_data (fst (drop_data st dst r)) = ps_pending_data st"
  "ps_discoveries (fst (drop_data st dst r)) = ps_discoveries st"
  "ps_next_request_id (fst (drop_data st dst r)) = ps_next_request_id st"
  "ps_next_sequence (fst (drop_data st dst r)) = ps_next_sequence st"
  "pa_outbound (snd (drop_data st dst r)) = []"
  "pa_events (snd (drop_data st dst r)) =
     [DataDropped (self_id st) dst r, RouteError (self_id st) dst r]"
  by (simp_all add: drop_data_def)

lemma origin_data_frame [simp, frame_simps]:
  "ps_config (fst (origin_data clk st dst payload route)) = ps_config st"
  "ps_neighbors (fst (origin_data clk st dst payload route)) = ps_neighbors st"
  "ps_labels (fst (origin_data clk st dst payload route)) = ps_labels st"
  "ps_routes (fst (origin_data clk st dst payload route)) = ps_routes st"
  "ps_seen_requests (fst (origin_data clk st dst payload route)) = ps_seen_requests st"
  "ps_pending_data (fst (origin_data clk st dst payload route)) = ps_pending_data st"
  "ps_discoveries (fst (origin_data clk st dst payload route)) = ps_discoveries st"
  "ps_next_request_id (fst (origin_data clk st dst payload route)) = ps_next_request_id st"
  "ps_next_sequence (fst (origin_data clk st dst payload route)) = ps_next_sequence st + 1"
  by (simp_all add: origin_data_eq split: option.split)

text \<open>
  Closed form of the flush: the payloads for the destination leave in order with consecutive
  sequence numbers, or are all counted as dropped; the rest of the queue stays in order.
\<close>

fun flush_packets ::
    "clock \<Rightarrow> node_config \<Rightarrow> u64 \<Rightarrow> u32 \<Rightarrow> route_entry \<Rightarrow> u8 list list \<Rightarrow> packet list" where
  "flush_packets clk cfg sequence dst route [] = []"
| "flush_packets clk cfg sequence dst route (payload # rest) =
     origin_packet cfg sequence dst payload route (clk 0)
     # flush_packets (clock_tl clk) cfg (sequence + 1) dst route rest"

abbreviation payloads_for :: "u32 \<Rightarrow> pending_data list \<Rightarrow> u8 list list" where
  "payloads_for dst queue \<equiv> map pd_payload (filter (\<lambda>p. pd_dst_node_id p = dst) queue)"

definition count_drops :: "nat \<Rightarrow> node_metrics \<Rightarrow> node_metrics" where
  "count_drops k = m_data_dropped_update (\<lambda>n. n + of_nat k) \<circ> m_dropped_packets_update (\<lambda>n. n + of_nat k)"

lemma count_drops_sel [simp]:
  "m_data_dropped (count_drops k m) = m_data_dropped m + of_nat k"
  "m_dropped_packets (count_drops k m) = m_dropped_packets m + of_nat k"
  "m_delivered_packets (count_drops k m) = m_delivered_packets m"
  "m_data_delivered (count_drops k m) = m_data_delivered m"
  "m_latency_samples_ms (count_drops k m) = m_latency_samples_ms m"
  by (simp_all add: count_drops_def)

lemma count_drops_0 [simp]: "count_drops 0 m = m"
  by (simp add: count_drops_def)

lemma count_drops_add: "count_drops k (count_drops j m) = count_drops (j + k) m"
  by (simp add: count_drops_def algebra_simps)

lemma drop_data_metrics: "ps_metrics (fst (drop_data st dst r)) = count_drops 1 (ps_metrics st)"
  by (simp add: drop_data_def count_drops_def)

lemma flush_loop_eq:
  "flush_loop clk st dst route queue remaining outbound =
     (let ps = payloads_for dst queue;
          st' = st\<lparr>ps_next_sequence := ps_next_sequence st + of_nat (length ps)\<rparr>;
          remaining' = remaining @ filter (\<lambda>p. pd_dst_node_id p \<noteq> dst) queue
      in case origin_resolves st route of
           Some ep \<Rightarrow>
             (st', remaining',
              outbound @ map (\<lambda>p. \<lparr>ob_packet = p, ob_dst = ep\<rparr>)
                (flush_packets clk (ps_config st) (ps_next_sequence st) dst route ps))
         | None \<Rightarrow> (ps_metrics_update (count_drops (length ps)) st', remaining', outbound))"
proof (induction queue arbitrary: clk st remaining outbound)
  case Nil
  then show ?case
    by (simp split: option.split)
next
  case (Cons pending queue)
  show ?case
  proof (cases "pd_dst_node_id pending = dst")
    case False
    then show ?thesis by (simp add: Cons.IH)
  next
    case True
    then show ?thesis
      by (cases "origin_resolves st route")
        (simp_all add: Cons.IH Let_def origin_data_eq split_beta drop_data_def count_drops_def
          comp_def algebra_simps)
  qed
qed

lemma flush_pending_eq:
  "flush_pending clk st dst route =
     (let ps = payloads_for dst (ps_pending_data st);
          st' = st\<lparr>ps_next_sequence := ps_next_sequence st + of_nat (length ps),
                   ps_pending_data := filter (\<lambda>p. pd_dst_node_id p \<noteq> dst) (ps_pending_data st)\<rparr>
      in case origin_resolves st route of
           Some ep \<Rightarrow>
             (st', map (\<lambda>p. \<lparr>ob_packet = p, ob_dst = ep\<rparr>)
                (flush_packets clk (ps_config st) (ps_next_sequence st) dst route ps))
         | None \<Rightarrow> (ps_metrics_update (count_drops (length ps)) st', []))"
  by (cases "origin_resolves st route")
    (simp_all add: flush_pending_def flush_loop_eq Let_def)

lemma length_flush_packets [simp]: "length (flush_packets clk cfg sq dst route ps) = length ps"
  by (induction ps arbitrary: clk sq) simp_all

lemma nth_flush_packets:
  "i < length ps \<Longrightarrow>
     flush_packets clk cfg sq dst route ps ! i =
       origin_packet cfg (sq + of_nat i) dst (ps ! i) route (clk i)"
  by (induction ps arbitrary: clk sq i) (auto simp: nth_Cons algebra_simps split: nat.split)

end
