(* ===== verification/Protocol_Inv.thy ===== *)
theory Protocol_Inv
  imports Protocol_Facts
begin

text \<open>
  The invariant of one node, that every entry point keeps it, and the step relation of a node:
  any packet, command, tick or transport event in any order, with the iteration order of the
  hash maps changing at will.
\<close>

section \<open>The invariant\<close>

definition tables_wf :: "protocol_state \<Rightarrow> bool" where
  "tables_wf st \<longleftrightarrow>
     neighbor_table_wf (ps_neighbors st)
     \<and> (\<forall>(k, e) \<in> set (nt_entries (ps_neighbors st)). is_logical_neighbor (ps_config st) k)
     \<and> hm_wf (lt_entries (ps_labels st))
     \<and> (\<forall>(k, e) \<in> set (lt_entries (ps_labels st)). is_logical_neighbor (ps_config st) k)
     \<and> hm_wf (rc_routes (ps_routes st))
     \<and> (\<forall>(d, rs) \<in> set (rc_routes (ps_routes st)). \<forall>r \<in> set rs. re_dst_node_id r = d)"

text \<open>The duplicate cache stays within its configured size.\<close>

definition seen_wf :: "protocol_state \<Rightarrow> bool" where
  "seen_wf st \<longleftrightarrow>
     hm_wf (sr_seen (ps_seen_requests st))
     \<and> seen_len (ps_seen_requests st) \<le> unat (cfg_seen_request_max_entries (ps_config st))"

text \<open>No payload waits without a discovery under way, and no discovery is retried too often.\<close>

definition queue_wf :: "protocol_state \<Rightarrow> bool" where
  "queue_wf st \<longleftrightarrow>
     hm_wf (ps_discoveries st)
     \<and> (\<forall>p \<in> set (ps_pending_data st). hm_get (ps_discoveries st) (pd_dst_node_id p) \<noteq> None)
     \<and> (\<forall>(d, s) \<in> set (ps_discoveries st).
          ds_retries_done s \<le> cfg_route_discovery_max_retries (ps_config st))"

definition counters_wf :: "protocol_state \<Rightarrow> bool" where
  "counters_wf st \<longleftrightarrow>
     m_delivered_packets (ps_metrics st) = m_data_delivered (ps_metrics st)
     \<and> m_delivered_packets (ps_metrics st) = of_nat (length (m_latency_samples_ms (ps_metrics st)))
     \<and> m_tx_bytes (ps_metrics st) = m_control_bytes (ps_metrics st) + m_data_bytes (ps_metrics st)"

definition node_inv :: "protocol_state \<Rightarrow> bool" where
  "node_inv st \<longleftrightarrow> tables_wf st \<and> seen_wf st \<and> queue_wf st \<and> counters_wf st"

lemma node_inv_new: "node_inv (protocol_new cfg)"
  by (simp add: node_inv_def tables_wf_def seen_wf_def queue_wf_def counters_wf_def protocol_new_def
      neighbor_table_default_def neighbor_table_wf_def label_table_default_def
      route_cache_default_def seen_requests_default_def seen_len_def node_metrics_default_def)

text \<open>Each part of the invariant only reads its own components.\<close>

lemma tables_wf_update [simp]:
  "tables_wf (ps_metrics_update f st) = tables_wf st"
  "tables_wf (ps_seen_requests_update g st) = tables_wf st"
  "tables_wf (ps_pending_data_update h st) = tables_wf st"
  "tables_wf (ps_discoveries_update i st) = tables_wf st"
  "tables_wf (ps_next_request_id_update j st) = tables_wf st"
  "tables_wf (ps_next_sequence_update k st) = tables_wf st"
  by (simp_all add: tables_wf_def)

lemma seen_wf_update [simp]:
  "seen_wf (ps_metrics_update f st) = seen_wf st"
  "seen_wf (ps_neighbors_update g st) = seen_wf st"
  "seen_wf (ps_labels_update h st) = seen_wf st"
  "seen_wf (ps_routes_update i st) = seen_wf st"
  "seen_wf (ps_pending_data_update j st) = seen_wf st"
  "seen_wf (ps_discoveries_update k st) = seen_wf st"
  "seen_wf (ps_next_request_id_update l st) = seen_wf st"
  "seen_wf (ps_next_sequence_update m st) = seen_wf st"
  by (simp_all add: seen_wf_def)

lemma queue_wf_update [simp]:
  "queue_wf (ps_metrics_update f st) = queue_wf st"
  "queue_wf (ps_neighbors_update g st) = queue_wf st"
  "queue_wf (ps_labels_update h st) = queue_wf st"
  "queue_wf (ps_routes_update i st) = queue_wf st"
  "queue_wf (ps_seen_requests_update j st) = queue_wf st"
  "queue_wf (ps_next_request_id_update l st) = queue_wf st"
  "queue_wf (ps_next_sequence_update m st) = queue_wf st"
  by (simp_all add: queue_wf_def)

lemma counters_wf_update [simp]:
  "counters_wf (ps_neighbors_update g st) = counters_wf st"
  "counters_wf (ps_labels_update h st) = counters_wf st"
  "counters_wf (ps_routes_update i st) = counters_wf st"
  "counters_wf (ps_seen_requests_update j st) = counters_wf st"
  "counters_wf (ps_pending_data_update k st) = counters_wf st"
  "counters_wf (ps_discoveries_update l st) = counters_wf st"
  "counters_wf (ps_next_request_id_update m st) = counters_wf st"
  "counters_wf (ps_next_sequence_update n st) = counters_wf st"
  by (simp_all add: counters_wf_def)

text \<open>Counters other than the delivery and byte counters may change freely.\<close>

definition same_accounts :: "node_metrics \<Rightarrow> node_metrics \<Rightarrow> bool" where
  "same_accounts m m' \<longleftrightarrow>
     m_delivered_packets m' = m_delivered_packets m \<and> m_data_delivered m' = m_data_delivered m
     \<and> m_latency_samples_ms m' = m_latency_samples_ms m \<and> m_tx_bytes m' = m_tx_bytes m
     \<and> m_control_bytes m' = m_control_bytes m \<and> m_data_bytes m' = m_data_bytes m"

lemma same_accounts_updates [simp]:
  "same_accounts m (m_rreq_forwarded_update f m)"
  "same_accounts m (m_rreq_dropped_duplicate_update f m)"
  "same_accounts m (m_rreq_dropped_ttl_update f m)"
  "same_accounts m (m_rrep_forwarded_update f m)"
  "same_accounts m (m_rrep_dropped_invalid_update f m)"
  "same_accounts m (m_data_forwarded_update f m)"
  "same_accounts m (m_dropped_packets_update f m)"
  "same_accounts m (m_data_dropped_update g (m_dropped_packets_update f m))"
  "same_accounts m (m_route_discovery_attempts_update f m)"
  "same_accounts m (m_route_discovery_successes_update f m)"
  "same_accounts m (count_drops k m)"
  "same_accounts m (count_drops k (m_route_discovery_failures_update f m))"
  "same_accounts m (metrics_record_rx m bytes)"
  by (simp_all add: same_accounts_def count_drops_def metrics_record_rx_def)

lemma counters_wf_metrics:
  assumes "same_accounts (ps_metrics st) (f (ps_metrics st))"
  shows "counters_wf (ps_metrics_update f st) = counters_wf st"
  using assms by (simp add: counters_wf_def same_accounts_def)

lemma node_inv_metrics:
  assumes "node_inv st" "same_accounts (ps_metrics st) (f (ps_metrics st))"
  shows "node_inv (ps_metrics_update f st)"
  using assms by (simp add: node_inv_def counters_wf_metrics)

lemma node_inv_sequence [simp]: "node_inv (ps_next_sequence_update f st) = node_inv st"
  by (simp add: node_inv_def)

lemma seen_wf_mark:
  "seen_wf st \<Longrightarrow>
     seen_wf (st\<lparr>ps_seen_requests := fst (mark_if_new (ps_seen_requests st) a b now ttl
       (cfg_seen_request_max_entries (ps_config st)))\<rparr>)"
  by (simp add: seen_wf_def mark_if_new_size)

lemma seen_prune_len: "seen_len (seen_prune s now ttl) \<le> seen_len s"
  by (simp add: seen_len_def seen_prune_def)

lemma seen_wf_prune:
  "seen_wf st \<Longrightarrow> seen_wf (st\<lparr>ps_seen_requests := seen_prune (ps_seen_requests st) now ttl\<rparr>)"
  using seen_prune_len [of "ps_seen_requests st" now ttl] by (auto simp: seen_wf_def)

section \<open>Every entry point keeps the invariant\<close>

lemma node_inv_drop_data: "node_inv st \<Longrightarrow> node_inv (fst (drop_data st dst r))"
  by (simp add: drop_data_def node_inv_metrics)

lemma node_inv_origin_data: "node_inv st \<Longrightarrow> node_inv (fst (origin_data clk st dst payload route))"
  by (simp add: origin_data_eq node_inv_drop_data split: option.split)

lemma node_inv_hello:
  assumes inv: "node_inv st"
  shows "node_inv (fst (handle_hello clk st src ts sender))"
proof (cases "is_logical_neighbor (ps_config st) src")
  case True
  let ?t = "fst (assign_or_reuse_label (ps_neighbors st) src sender (clk 0))"
  have wf: "neighbor_table_wf (ps_neighbors st)"
    using inv by (simp add: node_inv_def tables_wf_def)
  have keys: "fst ` set (nt_entries ?t) \<subseteq> insert src (fst ` set (nt_entries (ps_neighbors st)))"
    by (auto simp: assign_or_reuse_label_def Let_def dom_update split: option.splits
        dest: image_eqI [of _ fst])
  have "tables_wf (st\<lparr>ps_neighbors := ?t\<rparr>)"
    using inv wf keys True nt.wf_assign [OF wf]
    by (fastforce simp: node_inv_def tables_wf_def)
  then have "node_inv (st\<lparr>ps_neighbors := ?t\<rparr>)"
    using inv by (simp add: node_inv_def)
  then show ?thesis
    using True by (auto simp: handle_hello_def split: prod.splits sum.splits)
qed (use inv in \<open>simp add: handle_hello_def\<close>)

lemma node_inv_hello_reply:
  "node_inv st \<Longrightarrow> node_inv (fst (handle_hello_reply st src dst label ts))"
  by (auto simp: handle_hello_reply_def node_inv_def tables_wf_def update_from_hello_reply_def hm_simps)

lemma queue_wf_start_discovery:
  assumes "queue_wf st" "retries \<le> cfg_route_discovery_max_retries (ps_config st)"
  shows "queue_wf (fst (start_discovery clk st dst retries))"
  using assms by (auto simp: queue_wf_def start_discovery_def Let_def hm_simps)

lemma start_discovery_frame [simp, frame_simps]:
  "ps_config (fst (start_discovery clk st dst retries)) = ps_config st"
  "ps_neighbors (fst (start_discovery clk st dst retries)) = ps_neighbors st"
  "ps_labels (fst (start_discovery clk st dst retries)) = ps_labels st"
  "ps_routes (fst (start_discovery clk st dst retries)) = ps_routes st"
  "ps_pending_data (fst (start_discovery clk st dst retries)) = ps_pending_data st"
  "ps_next_sequence (fst (start_discovery clk st dst retries)) = ps_next_sequence st"
  by (simp_all add: start_discovery_def Let_def)

lemma seen_wf_start_discovery: "seen_wf st \<Longrightarrow> seen_wf (fst (start_discovery clk st dst retries))"
  by (simp add: start_discovery_def Let_def seen_wf_def mark_if_new_size)

lemma counters_wf_start_discovery:
  "counters_wf st \<Longrightarrow> counters_wf (fst (start_discovery clk st dst retries))"
  by (auto simp: start_discovery_def Let_def counters_wf_def)

lemma tables_wf_start_discovery:
  "tables_wf st \<Longrightarrow> tables_wf (fst (start_discovery clk st dst retries))"
  by (simp add: tables_wf_def)

lemma node_inv_start_discovery:
  assumes "node_inv st" "retries \<le> cfg_route_discovery_max_retries (ps_config st)"
  shows "node_inv (fst (start_discovery clk st dst retries))"
  using assms
  by (simp add: node_inv_def queue_wf_start_discovery seen_wf_start_discovery
      counters_wf_start_discovery tables_wf_start_discovery)

text \<open>
  A command leaves a payload waiting only together with a discovery: either one is under way
  already or one is started.
\<close>

lemma start_discovery_pending:
  "hm_get (ps_discoveries (fst (start_discovery clk st dst retries))) d =
     (if d = dst
      then Some \<lparr>ds_request_id = ps_next_request_id st, ds_last_sent_millis = clk 0,
                  ds_retries_done = retries\<rparr>
      else hm_get (ps_discoveries st) d)"
  by (simp add: start_discovery_def Let_def hm_simps)

lemma node_inv_discover_and_send:
  assumes inv: "node_inv st"
  shows "node_inv (fst (discover_and_send clk st dst payload))"
proof (cases "route_shortest (ps_routes st) dst (clk 0)")
  case (Some route)
  then show ?thesis
    using inv by (simp add: discover_and_send_def node_inv_origin_data)
next
  case None
  let ?st = "st\<lparr>ps_pending_data := ps_pending_data st @ [\<lparr>pd_dst_node_id = dst, pd_payload = payload\<rparr>]\<rparr>"
  let ?st' = "fst (start_discovery (clock_tl clk) ?st dst 0)"
  have other: "tables_wf ?st" "seen_wf ?st" "counters_wf ?st"
    using inv by (simp_all add: node_inv_def)
  show ?thesis
  proof (cases "hm_get (ps_discoveries st) dst = None")
    case False
    then have "queue_wf ?st"
      using inv by (auto simp: node_inv_def queue_wf_def)
    then show ?thesis
      using None False other by (simp add: discover_and_send_def Let_def node_inv_def)
  next
    case True
    have "queue_wf ?st'"
      using inv by (auto simp: node_inv_def queue_wf_def start_discovery_def Let_def hm_simps)
    then have "node_inv ?st'"
      using other by (simp add: node_inv_def seen_wf_start_discovery counters_wf_start_discovery
          tables_wf_start_discovery)
    then show ?thesis
      using None True by (simp add: discover_and_send_def Let_def)
  qed
qed

lemma fail_discovery_state:
  "fst (fail_discovery st dst state acts) =
     ps_metrics_update
       (count_drops (length (filter (\<lambda>p. pd_dst_node_id p = dst) (ps_pending_data st)))
        \<circ> m_route_discovery_failures_update (\<lambda>n. n + 1))
       (st\<lparr>ps_discoveries := hm_remove dst (ps_discoveries st),
           ps_pending_data := filter (\<lambda>p. pd_dst_node_id p \<noteq> dst) (ps_pending_data st)\<rparr>)"
  by (simp add: fail_discovery_def Let_def drop_pending_for_dst_eq count_drops_def comp_def)

lemma node_inv_fail_discovery:
  assumes inv: "node_inv st"
  shows "node_inv (fst (fail_discovery st dst state acts))"
proof -
  have "queue_wf (fst (fail_discovery st dst state acts))"
    using inv by (auto simp: fail_discovery_state node_inv_def queue_wf_def hm_simps)
  moreover have "counters_wf (fst (fail_discovery st dst state acts))"
    using inv by (simp add: fail_discovery_state node_inv_def counters_wf_metrics)
  ultimately show ?thesis
    using inv by (simp add: fail_discovery_state node_inv_def)
qed

lemma node_inv_retry_loop:
  "node_inv st \<Longrightarrow> node_inv (fst (retry_loop clk st expired acts))"
proof (induction expired arbitrary: clk st acts)
  case Nil
  then show ?case by simp
next
  case (Cons e expired)
  obtain dst state where e: "e = (dst, state)"
    by (cases e)
  show ?case
  proof (cases "cfg_route_discovery_max_retries (ps_config st) \<le> ds_retries_done state")
    case True
    then show ?thesis
      using Cons.IH [OF node_inv_fail_discovery [OF Cons.prems]] by (simp add: e split_beta)
  next
    case False
    then have "ds_retries_done state + 1 \<le> cfg_route_discovery_max_retries (ps_config st)"
      by (simp add: word_succ_le not_le)
    then have "node_inv (fst (start_discovery clk st dst (ds_retries_done state + 1)))"
      using Cons.prems by (rule node_inv_start_discovery [rotated])
    then show ?thesis
      using Cons.IH False by (simp add: e split_beta)
  qed
qed

lemma node_inv_tick: "node_inv st \<Longrightarrow> node_inv (fst (handle_tick clk st now))"
  unfolding handle_tick_def Let_def retry_expired_discoveries_def
  by (intro node_inv_retry_loop) (simp add: node_inv_def seen_wf_prune)

lemma node_inv_rreq:
  assumes inv: "node_inv st"
  shows "node_inv (fst (handle_rreq clk st src dst rid prev hops dsr labels trace created))"
proof -
  let ?seen = "fst (mark_if_new (ps_seen_requests st) src rid (clk 0)
    (cfg_seen_request_ttl_ms (ps_config st)) (cfg_seen_request_max_entries (ps_config st)))"
  have "node_inv (st\<lparr>ps_seen_requests := ?seen\<rparr>)"
    using inv seen_wf_mark [of st src rid "clk 0"] by (simp add: node_inv_def)
  then show ?thesis
    using inv
    by (auto simp: handle_rreq_def Let_def split_beta rreq_forward_loop_eq node_inv_metrics
        split: option.split)
qed

lemma flush_pending_frame [simp, frame_simps]:
  "ps_config (fst (flush_pending clk st dst route)) = ps_config st"
  "ps_neighbors (fst (flush_pending clk st dst route)) = ps_neighbors st"
  "ps_labels (fst (flush_pending clk st dst route)) = ps_labels st"
  "ps_routes (fst (flush_pending clk st dst route)) = ps_routes st"
  "ps_seen_requests (fst (flush_pending clk st dst route)) = ps_seen_requests st"
  "ps_discoveries (fst (flush_pending clk st dst route)) = ps_discoveries st"
  "ps_next_request_id (fst (flush_pending clk st dst route)) = ps_next_request_id st"
  "ps_pending_data (fst (flush_pending clk st dst route)) =
     filter (\<lambda>p. pd_dst_node_id p \<noteq> dst) (ps_pending_data st)"
  by (simp_all add: flush_pending_eq Let_def split: option.split)

lemma node_inv_flush_pending:
  assumes "tables_wf st" "seen_wf st" "counters_wf st"
    and "queue_wf (st\<lparr>ps_pending_data := filter (\<lambda>p. pd_dst_node_id p \<noteq> dst) (ps_pending_data st)\<rparr>)"
  shows "node_inv (fst (flush_pending clk st dst route))"
proof -
  have "counters_wf (fst (flush_pending clk st dst route))"
    using assms(3) by (simp add: flush_pending_eq Let_def counters_wf_metrics split: option.split)
  moreover have "tables_wf (fst (flush_pending clk st dst route))"
    "seen_wf (fst (flush_pending clk st dst route))"
    "queue_wf (fst (flush_pending clk st dst route))"
    using assms unfolding tables_wf_def seen_wf_def queue_wf_def by simp_all
  ultimately show ?thesis
    by (simp add: node_inv_def)
qed

lemma tables_wf_route_insert:
  assumes "tables_wf st"
  shows "tables_wf (st\<lparr>ps_routes := route_insert (ps_routes st) r\<rparr>)"
proof -
  let ?m = "rc_routes (ps_routes st)" and ?d = "re_dst_node_id r"
  have wf: "hm_wf ?m" and dst: "\<forall>(d, rs) \<in> set ?m. \<forall>r \<in> set rs. re_dst_node_id r = d"
    using assms by (simp_all add: tables_wf_def)
  have "\<forall>x \<in> set (case hm_get ?m ?d of None \<Rightarrow> [] | Some rs \<Rightarrow> rs). re_dst_node_id x = ?d"
    using dst hm_get_SomeD [of ?m ?d] by (cases "hm_get ?m ?d") fastforce+
  then have "\<forall>(d, rs) \<in> set (rc_routes (route_insert (ps_routes st) r)). \<forall>r \<in> set rs. re_dst_node_id r = d"
    using wf dst by (simp add: route_insert_def hm_simps)
  moreover have "hm_wf (rc_routes (route_insert (ps_routes st) r))"
    using wf by (simp add: route_insert_def)
  ultimately show ?thesis
    using assms by (simp add: tables_wf_def)
qed

lemma node_inv_rrep:
  assumes inv: "node_inv st"
  shows "node_inv (fst (handle_rrep clk st sender src dst rid dsr labels trace created))"
proof -
  let ?route = "rrep_route (ps_config st) (clk 0) dst dsr labels"
  let ?st = "ps_metrics_update (m_route_discovery_successes_update (\<lambda>n. n + 1))
    (st\<lparr>ps_routes := route_insert (ps_routes st) ?route,
        ps_discoveries := hm_remove dst (ps_discoveries st)\<rparr>)"
  have "tables_wf ?st" "seen_wf ?st" "counters_wf ?st"
    using inv tables_wf_route_insert [of st ?route] by (auto simp: node_inv_def counters_wf_def)
  moreover have "queue_wf (?st\<lparr>ps_pending_data :=
      filter (\<lambda>p. pd_dst_node_id p \<noteq> dst) (ps_pending_data ?st)\<rparr>)"
    using inv by (auto simp: node_inv_def queue_wf_def hm_simps)
  ultimately have "node_inv (fst (flush_pending (clock_tl clk) ?st dst ?route))"
    by (rule node_inv_flush_pending)
  then show ?thesis
    using inv
    by (auto simp: handle_rrep_def Let_def split_beta node_inv_metrics split: sum.split option.split)
qed

lemma node_inv_deliver: "node_inv st \<Longrightarrow> node_inv (fst (deliver_data clk st src dst sq payload created))"
  by (auto simp: deliver_data_def node_inv_def counters_wf_def)

lemma node_inv_forward_dsr:
  "node_inv st \<Longrightarrow> node_inv (fst (forward_data_dsr st src dst sq cursor dsr labels payload created))"
  by (simp add: forward_data_dsr_def Let_def node_inv_drop_data node_inv_metrics split: option.split)

lemma node_inv_forward_dldsr:
  "node_inv st \<Longrightarrow> node_inv (fst (forward_data_dldsr st src dst sq cursor dsr labels payload created))"
  by (simp add: forward_data_dldsr_def Let_def node_inv_drop_data node_inv_metrics split: option.split)

lemma node_inv_data:
  "node_inv st \<Longrightarrow>
     node_inv (fst (handle_data clk st sender src dst sq mode cursor dsr labels payload created))"
  by (simp add: handle_data_def Let_def node_inv_drop_data node_inv_deliver node_inv_forward_dsr
      node_inv_forward_dldsr split: option.split sum.split protocol_mode.split)

lemmas node_inv_handlers =
  node_inv_hello node_inv_hello_reply node_inv_rreq node_inv_rrep node_inv_data

lemma node_inv_packet: "node_inv st \<Longrightarrow> node_inv (fst (handle_packet clk st p sender))"
  by (cases p) (simp_all add: node_inv_handlers)

lemma node_inv_command: "node_inv st \<Longrightarrow> node_inv (fst (handle_command clk st c))"
  by (cases c) (simp add: node_inv_discover_and_send)

section \<open>The step relation of a node\<close>

text \<open>
  The hash maps may be iterated in another order after any step: \<open>rehashed st st'\<close> holds when
  the states differ in the order of their maps only.
\<close>

definition rehashed :: "protocol_state \<Rightarrow> protocol_state \<Rightarrow> bool" where
  "rehashed st st' \<longleftrightarrow>
     (\<exists>ns ls rs ss ds.
        mset ns = mset (nt_entries (ps_neighbors st))
        \<and> mset ls = mset (lt_entries (ps_labels st))
        \<and> mset rs = mset (rc_routes (ps_routes st))
        \<and> mset ss = mset (sr_seen (ps_seen_requests st))
        \<and> mset ds = mset (ps_discoveries st)
        \<and> st' = st\<lparr>ps_neighbors := \<lparr>nt_entries = ns\<rparr>, ps_labels := \<lparr>lt_entries = ls\<rparr>,
                   ps_routes := \<lparr>rc_routes = rs\<rparr>, ps_seen_requests := \<lparr>sr_seen = ss\<rparr>,
                   ps_discoveries := ds\<rparr>)"

inductive node_step :: "serializer \<Rightarrow> protocol_state \<Rightarrow> protocol_actions \<Rightarrow> protocol_state \<Rightarrow> bool"
  for ser where
  packet: "handle_packet clk st p sender = (st', acts) \<Longrightarrow> node_step ser st acts st'"
| command: "handle_command clk st c = (st', acts) \<Longrightarrow> node_step ser st acts st'"
| tick: "handle_tick clk st now = (st', acts) \<Longrightarrow> node_step ser st acts st'"
| received: "node_step ser st no_actions (protocol_record_rx st bytes)"
| sent: "node_step ser st no_actions (protocol_record_tx ser st p)"
| send_failed:
    "node_step ser st no_actions (ps_metrics_update (m_dropped_packets_update (\<lambda>n. n + 1)) st)"
| rehash: "rehashed st st' \<Longrightarrow> node_step ser st no_actions st'"

inductive_cases node_stepE: "node_step ser st acts st'"

definition node_moves :: "serializer \<Rightarrow> protocol_state \<Rightarrow> protocol_state \<Rightarrow> bool" where
  "node_moves ser st st' \<longleftrightarrow> (\<exists>acts. node_step ser st acts st')"

lemma neighbor_table_wf_perm:
  assumes "mset ns = mset (nt_entries t)" "neighbor_table_wf t"
  shows "neighbor_table_wf \<lparr>nt_entries = ns\<rparr>"
  using assms hm_wf_perm [OF assms(1)] mset_eq_setD [OF assms(1)] by (simp add: neighbor_table_wf_def)

lemma node_inv_rehashed:
  assumes "node_inv st" "rehashed st st'"
  shows "node_inv st'"
proof -
  obtain ns ls rs ss ds where
    perm: "mset ns = mset (nt_entries (ps_neighbors st))" "mset ls = mset (lt_entries (ps_labels st))"
      "mset rs = mset (rc_routes (ps_routes st))" "mset ss = mset (sr_seen (ps_seen_requests st))"
      "mset ds = mset (ps_discoveries st)"
    and st': "st' = st\<lparr>ps_neighbors := \<lparr>nt_entries = ns\<rparr>, ps_labels := \<lparr>lt_entries = ls\<rparr>,
      ps_routes := \<lparr>rc_routes = rs\<rparr>, ps_seen_requests := \<lparr>sr_seen = ss\<rparr>, ps_discoveries := ds\<rparr>"
    using assms(2) unfolding rehashed_def by blast
  have sets: "set ns = set (nt_entries (ps_neighbors st))" "set ls = set (lt_entries (ps_labels st))"
      "set rs = set (rc_routes (ps_routes st))" "set ds = set (ps_discoveries st)"
      "length ss = length (sr_seen (ps_seen_requests st))"
    using perm mset_eq_setD mset_eq_length by blast+
  have wf: "hm_wf ds" "hm_wf (ps_discoveries st)"
    using assms(1) perm hm_wf_perm unfolding node_inv_def queue_wf_def by blast+
  have "tables_wf st'"
    using assms(1) sets perm hm_wf_perm [OF perm(2)] hm_wf_perm [OF perm(3)]
    by (simp add: st' node_inv_def tables_wf_def neighbor_table_wf_perm)
  moreover have "seen_wf st'"
    using assms(1) sets hm_wf_perm [OF perm(4)] by (simp add: st' node_inv_def seen_wf_def seen_len_def)
  moreover have "queue_wf st'"
    using assms(1) sets wf hm_get_perm [OF perm(5) wf(1)] by (simp add: st' node_inv_def queue_wf_def)
  moreover have "counters_wf st'"
    using assms(1) by (simp add: st' node_inv_def)
  ultimately show ?thesis
    by (simp add: node_inv_def)
qed

lemma node_inv_step:
  assumes "node_inv st" "node_step ser st acts st'"
  shows "node_inv st'"
  using assms(2)
proof (cases rule: node_step.cases)
  case (packet clk p sender)
  then show ?thesis using node_inv_packet [OF assms(1), of clk p sender] by simp
next
  case (command clk c)
  then show ?thesis using node_inv_command [OF assms(1), of clk c] by simp
next
  case (tick clk now)
  then show ?thesis using node_inv_tick [OF assms(1), of clk now] by simp
next
  case (sent p)
  then show ?thesis
    using assms(1)
    by (auto simp: protocol_record_tx_def metrics_record_tx_def Let_def node_inv_def counters_wf_def
        split: sum.split)
next
  case rehash
  then show ?thesis using assms(1) node_inv_rehashed by blast
qed (use assms(1) in \<open>simp_all add: protocol_record_rx_def node_inv_metrics\<close>)

interpretation node: transition_invariant "\<lambda>st. \<exists>cfg. st = protocol_new cfg" "node_moves ser" node_inv
  for ser
  by unfold_locales (auto simp: node_inv_new node_moves_def intro: node_inv_step)

end
