(* ===== verification/Chain_Example.thy ===== *)
theory Chain_Example
  imports Protocol_Inv
begin

text \<open>
  The four-node chain of the unit tests of \<open>protocol.rs\<close> (\<open>chain_config\<close> and \<open>rreq\<close> there),
  on which the theories instantiate their theorems, with its neighbourhoods evaluated.
\<close>

definition local_addr :: "u16 \<Rightarrow> socket_addr" where
  "local_addr port = SockV4 0x7F000001 port"

definition chain4 :: topology where
  "chain4 = \<lparr>topo_nodes =
     [\<lparr>tn_node_id = 0, tn_endpoint = local_addr 7000, tn_neighbors = [1]\<rparr>,
      \<lparr>tn_node_id = 1, tn_endpoint = local_addr 7001, tn_neighbors = [0, 2]\<rparr>,
      \<lparr>tn_node_id = 2, tn_endpoint = local_addr 7002, tn_neighbors = [1, 3]\<rparr>,
      \<lparr>tn_node_id = 3, tn_endpoint = local_addr 7003, tn_neighbors = [2]\<rparr>]\<rparr>"

definition chain_config :: "u32 \<Rightarrow> protocol_mode \<Rightarrow> node_config" where
  "chain_config node_id mode =
     \<lparr>cfg_node_id = node_id, cfg_bind_addr = local_addr (7000 + ucast node_id),
      cfg_protocol_mode = mode, cfg_hello_interval_ms = 200, cfg_route_cache_ttl_ms = 30000,
      cfg_neighbor_ttl_ms = 5000, cfg_log_level = ''info'', cfg_topology = chain4,
      cfg_demo_send = None, cfg_route_discovery_timeout_ms = 10,
      cfg_route_discovery_max_retries = 1, cfg_max_rreq_hops = 4, cfg_seen_request_ttl_ms = 60000,
      cfg_seen_request_max_entries = 10000, cfg_metrics_output_path = None,
      cfg_control_bind_addr = None, cfg_strict_protocol_mode = True\<rparr>"

abbreviation chain_node :: "u32 \<Rightarrow> protocol_mode \<Rightarrow> protocol_state" where
  "chain_node node_id mode \<equiv> protocol_new (chain_config node_id mode)"

lemma chain_config_sel [simp]:
  "cfg_node_id (chain_config i m) = i"
  "cfg_protocol_mode (chain_config i m) = m"
  "cfg_topology (chain_config i m) = chain4"
  "cfg_route_cache_ttl_ms (chain_config i m) = 30000"
  "cfg_route_discovery_timeout_ms (chain_config i m) = 10"
  "cfg_route_discovery_max_retries (chain_config i m) = 1"
  "cfg_max_rreq_hops (chain_config i m) = 4"
  "cfg_seen_request_ttl_ms (chain_config i m) = 60000"
  "cfg_seen_request_max_entries (chain_config i m) = 10000"
  "cfg_strict_protocol_mode (chain_config i m) = True"
  by (simp_all add: chain_config_def)

lemma protocol_new_sel [simp]:
  "ps_config (protocol_new cfg) = cfg"
  "ps_neighbors (protocol_new cfg) = neighbor_table_default"
  "ps_labels (protocol_new cfg) = label_table_default"
  "ps_routes (protocol_new cfg) = route_cache_default"
  "ps_metrics (protocol_new cfg) = node_metrics_default"
  "ps_seen_requests (protocol_new cfg) = seen_requests_default"
  "ps_pending_data (protocol_new cfg) = []"
  "ps_discoveries (protocol_new cfg) = []"
  "ps_next_request_id (protocol_new cfg) = 1"
  "ps_next_sequence (protocol_new cfg) = 1"
  by (simp_all add: protocol_new_def)

lemma chain4_nodes:
  "topology_node_by_id chain4 0 = Some \<lparr>tn_node_id = 0, tn_endpoint = local_addr 7000, tn_neighbors = [1]\<rparr>"
  "topology_node_by_id chain4 1 = Some \<lparr>tn_node_id = 1, tn_endpoint = local_addr 7001, tn_neighbors = [0, 2]\<rparr>"
  "topology_node_by_id chain4 2 = Some \<lparr>tn_node_id = 2, tn_endpoint = local_addr 7002, tn_neighbors = [1, 3]\<rparr>"
  "topology_node_by_id chain4 3 = Some \<lparr>tn_node_id = 3, tn_endpoint = local_addr 7003, tn_neighbors = [2]\<rparr>"
  by (simp_all add: topology_node_by_id_def chain4_def)

lemma chain_neighborhood [simp]:
  "logical_neighbors (chain_config 0 m) = [1]"
  "logical_neighbors (chain_config 1 m) = [0, 2]"
  "logical_neighbors (chain_config 2 m) = [1, 3]"
  "logical_neighbors (chain_config 3 m) = [2]"
  by (simp_all add: logical_neighbors_def chain4_nodes)

lemma chain_endpoint [simp]:
  "endpoint (chain_config i m) 0 = Some (local_addr 7000)"
  "endpoint (chain_config i m) 1 = Some (local_addr 7001)"
  "endpoint (chain_config i m) 2 = Some (local_addr 7002)"
  "endpoint (chain_config i m) 3 = Some (local_addr 7003)"
  by (simp_all add: endpoint_def chain4_nodes)

lemma chain_node_by_endpoint [simp]:
  "node_id_by_endpoint (chain_config i m) (local_addr 7000) = Some 0"
  "node_id_by_endpoint (chain_config i m) (local_addr 7001) = Some 1"
  "node_id_by_endpoint (chain_config i m) (local_addr 7002) = Some 2"
  "node_id_by_endpoint (chain_config i m) (local_addr 7003) = Some 3"
  by (simp_all add: node_id_by_endpoint_def chain4_def local_addr_def)

lemma seen_requests_default_sel [simp]:
  "sr_seen seen_requests_default = []" "seen_len seen_requests_default = 0"
  by (simp_all add: seen_requests_default_def seen_len_def)

lemma mark_if_new_default [simp]: "snd (mark_if_new seen_requests_default a b now ttl n)"
  by (simp add: mark_if_new_iff)

end
