(* ===== verification/Protocol_Discovery.thy ===== *)
theory Protocol_Discovery
  imports Chain_Example
begin

text \<open>
  Route discovery on one node: what a request does on every branch, duplicate suppression, the
  hop bound, retries and giving up, replies and the flush of the waiting payloads.
\<close>

section \<open>Requests\<close>

text \<open>A request that passes the guards is new, has hops left and a known reverse label.\<close>

definition rreq_passes :: "clock \<Rightarrow> protocol_state \<Rightarrow> u32 \<Rightarrow> u64 \<Rightarrow> u32 \<Rightarrow> u8 \<Rightarrow> bool" where
  "rreq_passes clk st src rid prev hops \<longleftrightarrow>
     is_logical_neighbor (ps_config st) prev
     \<and> hops < cfg_max_rreq_hops (ps_config st)
     \<and> snd (mark_if_new (ps_seen_requests st) src rid (clk 0)
           (cfg_seen_request_ttl_ms (ps_config st)) (cfg_seen_request_max_entries (ps_config st)))"

definition rreq_marked :: "clock \<Rightarrow> protocol_state \<Rightarrow> u32 \<Rightarrow> u64 \<Rightarrow> protocol_state" where
  "rreq_marked clk st src rid =
     st\<lparr>ps_seen_requests := fst (mark_if_new (ps_seen_requests st) src rid (clk 0)
           (cfg_seen_request_ttl_ms (ps_config st)) (cfg_seen_request_max_entries (ps_config st)))\<rparr>"

lemma rreq_marked_sel [simp]:
  "ps_config (rreq_marked clk st src rid) = ps_config st"
  "ps_metrics (rreq_marked clk st src rid) = ps_metrics st"
  "ps_labels (rreq_marked clk st src rid) = ps_labels st"
  by (simp_all add: rreq_marked_def)

lemma extend_label_path_marked [simp]:
  "extend_label_path (ps_seen_requests_update f st) prev labels = extend_label_path st prev labels"
  "extend_label_path (rreq_marked clk st src rid) prev labels = extend_label_path st prev labels"
  by (simp_all add: extend_label_path_def)

lemma handle_rreq_forward_eq:
  assumes "rreq_passes clk st src rid prev hops"
    and "extend_label_path st prev labels = Some labels'"
    and "self_id st \<noteq> dst"
  shows "handle_rreq clk st src dst rid prev hops dsr labels trace created =
    rreq_forward_loop (rreq_marked clk st src rid) prev
      (Rreq src dst rid (self_id st) (hops + 1) (push_if_new dsr (self_id st)) labels'
        (push_if_new trace (self_id st)) created)
      (logical_neighbors (ps_config st)) no_actions"
  using assms
  by (auto simp: handle_rreq_def rreq_passes_def rreq_marked_def Let_def split_beta)

lemma handle_rreq_reply_eq:
  assumes "rreq_passes clk st src rid prev hops"
    and "extend_label_path st prev labels = Some labels'"
    and "self_id st = dst"
  shows "handle_rreq clk st src dst rid prev hops dsr labels trace created =
    (rreq_marked clk st src rid,
     rreq_reply (rreq_marked clk st src rid) src dst rid (push_if_new dsr dst) labels'
       (push_if_new trace dst) created)"
  using assms
  by (auto simp: handle_rreq_def rreq_passes_def rreq_marked_def Let_def split_beta)

lemma handle_rreq_silent:
  assumes "\<not> rreq_passes clk st src rid prev hops \<or> extend_label_path st prev labels = None"
  shows "snd (handle_rreq clk st src dst rid prev hops dsr labels trace created) = no_actions"
  using assms by (auto simp: handle_rreq_def rreq_passes_def Let_def split_beta)

lemma handle_rreq_cases:
  obtains
    (silent) "snd (handle_rreq clk st src dst rid prev hops dsr labels trace created) = no_actions"
  | (reply) labels' where "rreq_passes clk st src rid prev hops"
      "extend_label_path st prev labels = Some labels'" "self_id st = dst"
      "handle_rreq clk st src dst rid prev hops dsr labels trace created =
        (rreq_marked clk st src rid,
         rreq_reply (rreq_marked clk st src rid) src dst rid (push_if_new dsr dst) labels'
           (push_if_new trace dst) created)"
  | (forward) labels' where "rreq_passes clk st src rid prev hops"
      "extend_label_path st prev labels = Some labels'" "self_id st \<noteq> dst"
      "handle_rreq clk st src dst rid prev hops dsr labels trace created =
        rreq_forward_loop (rreq_marked clk st src rid) prev
          (Rreq src dst rid (self_id st) (hops + 1) (push_if_new dsr (self_id st)) labels'
            (push_if_new trace (self_id st)) created)
          (logical_neighbors (ps_config st)) no_actions"
  using handle_rreq_silent handle_rreq_forward_eq handle_rreq_reply_eq by (metis not_None_eq)

text \<open>
  C14. A request that passes the guards and is not for this node is forwarded to every logical
  neighbour with an endpoint except the one it came from, with this node appended to the paths
  and one more hop; nothing else is sent and no event is reported.
\<close>

theorem rreq_flooded_to_other_neighbors:
  assumes "rreq_passes clk st src rid prev hops"
    and "extend_label_path st prev labels = Some labels'"
    and "self_id st \<noteq> dst"
  shows "pa_events (snd (handle_rreq clk st src dst rid prev hops dsr labels trace created)) = []
    \<and> (\<forall>ob. ob \<in> set (pa_outbound (snd (handle_rreq clk st src dst rid prev hops dsr labels trace created)))
      \<longleftrightarrow> ob_packet ob = Rreq src dst rid (self_id st) (hops + 1) (push_if_new dsr (self_id st)) labels'
            (push_if_new trace (self_id st)) created
        \<and> (\<exists>n \<in> set (logical_neighbors (ps_config st)) - {prev}.
              endpoint (ps_config st) n = Some (ob_dst ob)))"
  unfolding handle_rreq_forward_eq [OF assms]
  by (auto simp: rreq_forward_loop_eq Let_def set_endpoints_of)

lemma chain_rreq_passes:
  "rreq_passes clk (chain_node 1 m) 0 77 0 0"
  by (simp add: rreq_passes_def is_logical_neighbor_def)

theorem rreq_flooded_to_other_neighbors_witness:
  "\<lparr>ob_packet = Rreq 0 3 77 1 1 [0, 1] [] [0, 1] 500, ob_dst = local_addr 7002\<rparr>
     \<in> set (pa_outbound (snd (handle_rreq (\<lambda>_. 500) (chain_node 1 Dsr) 0 3 77 0 0 [0] [] [0] 500)))"
proof -
  have labels: "extend_label_path (chain_node 1 Dsr) 0 [] = Some []"
    by (simp add: extend_label_path_def)
  show ?thesis
    using rreq_flooded_to_other_neighbors [OF chain_rreq_passes labels, of 3 "\<lambda>_. 500" "[0]" "[0]" 500]
    by (simp add: push_if_new_def slice_last_def)
qed

text \<open>
  C15. The hop counter of a forwarded request does not wrap: it is exactly one more than that of
  the request received, and never exceeds the configured maximum.
\<close>

theorem rreq_hop_count_bounded:
  assumes "ob \<in> set (pa_outbound (snd (handle_rreq clk st src dst rid prev hops dsr labels trace created)))"
    and "ob_packet ob = Rreq src' dst' rid' prev' hops' dsr' labels' trace' created'"
  shows "unat hops' = Suc (unat hops) \<and> hops' \<le> cfg_max_rreq_hops (ps_config st)"
proof (cases rule: handle_rreq_cases [of clk st src dst rid prev hops dsr labels trace created])
  case silent
  with assms show ?thesis by simp
next
  case (reply labels'')
  show ?thesis
    using assms unfolding reply(4) by (auto simp: rreq_reply_def split: option.splits)
next
  case (forward labels'')
  then have "hops < cfg_max_rreq_hops (ps_config st)"
    by (simp add: rreq_passes_def)
  moreover have "hops' = hops + 1"
    using assms unfolding forward(4) by (simp add: rreq_forward_loop_eq Let_def)
  ultimately show ?thesis
    by (simp add: unat_plus_one word_succ_le)
qed

lemma chain_rreq_outbound:
  "pa_outbound (snd (handle_rreq (\<lambda>_. 500) (chain_node 1 Dsr) 0 3 77 0 0 [0] [] [0] 500)) =
     [\<lparr>ob_packet = Rreq 0 3 77 1 1 [0, 1] [] [0, 1] 500, ob_dst = local_addr 7002\<rparr>]"
  by (simp add: handle_rreq_def is_logical_neighbor_def extend_label_path_def
      rreq_forward_loop_eq push_if_new_def slice_last_def split_beta Let_def)

theorem rreq_hop_count_bounded_witness:
  "\<exists>ob \<in> set (pa_outbound (snd (handle_rreq (\<lambda>_. 500) (chain_node 1 Dsr) 0 3 77 0 0 [0] [] [0] 500))).
     unat (rreq_hop_count (ob_packet ob)) = Suc (unat (0 :: u8)) \<and> rreq_hop_count (ob_packet ob) \<le> 4"
  using rreq_hop_count_bounded [of
      "\<lparr>ob_packet = Rreq 0 3 77 1 1 [0, 1] [] [0, 1] 500, ob_dst = local_addr 7002\<rparr>"
      "\<lambda>_. 500" "chain_node 1 Dsr" 0 3 77 0 0 "[0]" "[]" "[0]" 500]
  by (simp add: chain_rreq_outbound)

section \<open>Duplicates\<close>

lemma mark_if_new_recorded:
  assumes wf: "hm_wf (sr_seen s)" and room: "seen_len s < unat n"
  shows "hm_get (sr_seen (fst (mark_if_new s a b now ttl n))) (a, b) = Some now"
proof -
  let ?live = "{k. \<exists>t. hm_get (sr_seen s) k = Some t \<and> saturating_sub now t \<le> ttl}"
  have "?live \<subseteq> dom (map_of (sr_seen s))"
    by auto
  then have "card ?live \<le> card (dom (map_of (sr_seen s)))"
    by (intro card_mono finite_dom_map_of)
  also have "\<dots> = seen_len s"
    using hm_length_dom [OF wf] by (simp add: seen_len_def)
  finally have "card ?live \<le> seen_len s" .
  then have "card (insert (a, b) ?live) \<le> unat n"
    using room card_insert_le_m1 [of "unat n" ?live "(a, b)"] by simp
  from mark_if_new_room [OF wf this, of "(a, b)"] show ?thesis
    by simp
qed

lemma handle_rreq_seen:
  assumes "is_logical_neighbor (ps_config st) prev" "hops < cfg_max_rreq_hops (ps_config st)"
  shows "ps_seen_requests (fst (handle_rreq clk st src dst rid prev hops dsr labels trace created)) =
    ps_seen_requests (rreq_marked clk st src rid)"
  using assms
  by (auto simp: handle_rreq_def rreq_marked_def Let_def split_beta not_le rreq_forward_loop_eq split: option.split)

lemma handle_rreq_duplicates:
  assumes "is_logical_neighbor (ps_config st) prev" "hops < cfg_max_rreq_hops (ps_config st)"
  shows "m_rreq_dropped_duplicate (ps_metrics (fst (handle_rreq clk st src dst rid prev hops dsr labels trace created))) =
      m_rreq_dropped_duplicate (ps_metrics st) + (if rreq_passes clk st src rid prev hops then 0 else 1)"
  using assms
  by (auto simp: handle_rreq_def rreq_passes_def Let_def split_beta not_le rreq_forward_loop_eq split: option.split)

text \<open>
  C13. A request from a neighbour within the hop limit is dropped as a duplicate, and counted as
  one, exactly when its source and id are in the cache with an age within the time to live,
  whatever destination, path or labels it carries. Either way, if the cache has room, it is
  remembered from now on, so that the next copy within the time to live is dropped unless the
  entry has been evicted before.
\<close>

theorem duplicate_rreq_dropped:
  assumes inv: "node_inv st"
    and guards: "is_logical_neighbor (ps_config st) prev" "hops < cfg_max_rreq_hops (ps_config st)"
    and res: "(st', acts) = handle_rreq clk st src dst rid prev hops dsr labels trace created"
    and remembered: "remembered \<longleftrightarrow>
      (\<exists>t. hm_get (sr_seen (ps_seen_requests st)) (src, rid) = Some t
         \<and> saturating_sub (clk 0) t \<le> cfg_seen_request_ttl_ms (ps_config st))"
  shows "m_rreq_dropped_duplicate (ps_metrics st') =
      m_rreq_dropped_duplicate (ps_metrics st) + (if remembered then 1 else 0)
    \<and> (remembered \<longrightarrow> acts = no_actions)
    \<and> (seen_len (ps_seen_requests st) < unat (cfg_seen_request_max_entries (ps_config st)) \<longrightarrow>
        hm_get (sr_seen (ps_seen_requests st')) (src, rid) = Some (clk 0))"
proof -
  have wf: "hm_wf (sr_seen (ps_seen_requests st))"
    using inv by (simp add: node_inv_def seen_wf_def)
  then have pass: "rreq_passes clk st src rid prev hops \<longleftrightarrow> \<not> remembered"
    using guards by (auto simp: rreq_passes_def mark_if_new_iff remembered not_less)
  have "acts = no_actions" if remembered
    using that handle_rreq_silent [of clk st src rid prev hops] pass res by (metis snd_conv)
  moreover have "hm_get (sr_seen (ps_seen_requests st')) (src, rid) = Some (clk 0)"
    if "seen_len (ps_seen_requests st) < unat (cfg_seen_request_max_entries (ps_config st))"
    using mark_if_new_recorded [OF wf that] handle_rreq_seen [OF guards, of clk src dst rid dsr labels trace created]
      res [symmetric] by (simp add: rreq_marked_def)
  moreover have "m_rreq_dropped_duplicate (ps_metrics st') =
      m_rreq_dropped_duplicate (ps_metrics st) + (if remembered then 1 else 0)"
    using handle_rreq_duplicates [OF guards, of clk src dst rid dsr labels trace created] pass res [symmetric] by simp
  ultimately show ?thesis
    by blast
qed

theorem duplicate_rreq_dropped_witness:
  "snd (handle_rreq (\<lambda>_. 510)
     (fst (handle_rreq (\<lambda>_. 500) (chain_node 1 Dsr) 0 3 77 0 0 [0] [] [0] 500))
     0 3 77 2 2 [0, 9, 2] [] [0, 9, 2] 500) = no_actions"
proof -
  let ?first = "handle_rreq (\<lambda>_. 500) (chain_node 1 Dsr) 0 3 77 0 0 [0] [] [0] 500"
  have "hm_get (sr_seen (ps_seen_requests (fst ?first))) (0, 77) = Some 500"
    using duplicate_rreq_dropped [OF node_inv_new _ _ prod.collapse refl, of "chain_config 1 Dsr" 0 0
        "\<lambda>_. 500" 0 3 77 "[0]" "[]" "[0]" 500]
    by (simp add: is_logical_neighbor_def)
  moreover have "node_inv (fst ?first)"
    by (simp add: node_inv_rreq node_inv_new)
  moreover have "ps_config (fst ?first) = chain_config 1 Dsr"
    by (auto simp: handle_rreq_def Let_def split_beta rreq_forward_loop_eq split: option.split)
  ultimately show ?thesis
    using duplicate_rreq_dropped [OF _ _ _ prod.collapse refl, of "fst ?first" 2 2
        "\<lambda>_. 510" 0 3 77 "[0, 9, 2]" "[]" "[0, 9, 2]" 500]
    by (simp add: is_logical_neighbor_def saturating_sub_def)
qed

section \<open>Retries\<close>

text \<open>
  The loop over the expired discoveries treats each destination on its own: one that has
  retries left is restarted with one more, one that has none is removed; the others are not
  touched.
\<close>

lemma fail_discovery_frame [simp]:
  "ps_config (fst (fail_discovery st dst state acts)) = ps_config st"
  "ps_discoveries (fst (fail_discovery st dst state acts)) = hm_remove dst (ps_discoveries st)"
  "ps_pending_data (fst (fail_discovery st dst state acts)) =
     filter (\<lambda>p. pd_dst_node_id p \<noteq> dst) (ps_pending_data st)"
  by (simp_all add: fail_discovery_state)

lemma fail_discovery_events:
  "pa_events (snd (fail_discovery st dst state acts)) =
     pa_events acts @ RouteDiscoveryFailed (self_id st) dst (ds_retries_done state + 1)
     # (if \<exists>p \<in> set (ps_pending_data st). pd_dst_node_id p = dst
        then [DataDropped (self_id st) dst DiscoveryFailed] else [])"
  by (auto simp: fail_discovery_def Let_def drop_pending_for_dst_eq filter_empty_conv)

lemma retry_loop_config [simp]: "ps_config (fst (retry_loop clk st es acts)) = ps_config st"
  by (induction es arbitrary: clk st acts) (auto simp: split_beta)

lemma retry_loop_get_other:
  "d \<notin> fst ` set es \<Longrightarrow>
     hm_get (ps_discoveries (fst (retry_loop clk st es acts))) d = hm_get (ps_discoveries st) d"
  by (induction es arbitrary: clk st acts)
    (auto simp: split_beta start_discovery_pending hm_simps)

lemma retry_loop_pending:
  "ps_pending_data (fst (retry_loop clk st es acts)) =
     filter (\<lambda>p. \<forall>s. (pd_dst_node_id p, s) \<in> set es \<longrightarrow>
        ds_retries_done s < cfg_route_discovery_max_retries (ps_config st)) (ps_pending_data st)"
proof (induction es arbitrary: clk st acts)
  case Nil
  then show ?case by simp
next
  case (Cons e es)
  obtain dst state where e: "e = (dst, state)"
    by (cases e)
  show ?case
    by (cases "cfg_route_discovery_max_retries (ps_config st) \<le> ds_retries_done state")
      (auto simp: e split_beta Cons.IH not_le intro!: filter_cong)
qed

lemma retry_loop_events_mono:
  "set (pa_events acts) \<subseteq> set (pa_events (snd (retry_loop clk st es acts)))"
proof (induction es arbitrary: clk st acts)
  case Nil
  then show ?case by simp
next
  case (Cons e es)
  obtain dst state where e: "e = (dst, state)"
    by (cases e)
  let ?f = "fail_discovery st dst state acts"
  have "set (pa_events acts) \<subseteq> set (pa_events (snd ?f))"
    by (auto simp: fail_discovery_events)
  then show ?case
    using Cons.IH [where acts = "snd ?f" and st = "fst ?f"]
      Cons.IH [where acts = "acts\<lparr>pa_outbound := pa_outbound acts @ x\<rparr>" for x]
    by (fastforce simp: e split_beta)
qed

lemma retry_loop_get:
  assumes "distinct (map fst es)" "(d, s) \<in> set es"
  shows "if cfg_route_discovery_max_retries (ps_config st) \<le> ds_retries_done s
    then hm_get (ps_discoveries (fst (retry_loop clk st es acts))) d = None
      \<and> RouteDiscoveryFailed (self_id st) d (ds_retries_done s + 1)
          \<in> set (pa_events (snd (retry_loop clk st es acts)))
    else \<exists>rid i. hm_get (ps_discoveries (fst (retry_loop clk st es acts))) d =
      Some \<lparr>ds_request_id = rid, ds_last_sent_millis = clk i, ds_retries_done = ds_retries_done s + 1\<rparr>"
  using assms
proof (induction es arbitrary: clk st acts)
  case Nil
  then show ?case by simp
next
  case (Cons e es)
  obtain dst state where e: "e = (dst, state)"
    by (cases e)
  have dist: "dst \<notin> fst ` set es" "distinct (map fst es)"
    using Cons.prems(1) by (auto simp: e)
  show ?case
  proof (cases "(d, s) = e")
    case True
    let ?f = "fail_discovery st dst state acts"
    have "RouteDiscoveryFailed (self_id st) dst (ds_retries_done state + 1)
        \<in> set (pa_events (snd (retry_loop clk (fst ?f) es (snd ?f))))"
      using retry_loop_events_mono [of "snd ?f" clk "fst ?f" es] by (auto simp: fail_discovery_events)
    then show ?thesis
      using True dist(1)
      by (auto simp: e split_beta retry_loop_get_other start_discovery_pending hm_simps)
  next
    case False
    then have mem: "(d, s) \<in> set es"
      using Cons.prems(2) by simp
    show ?thesis
    proof (cases "cfg_route_discovery_max_retries (ps_config st) \<le> ds_retries_done state")
      case True
      then show ?thesis
        using Cons.IH [OF dist(2) mem, where st = "fst (fail_discovery st dst state acts)"
            and clk = clk and acts = "snd (fail_discovery st dst state acts)"]
        by (auto simp: e split_beta split: if_splits)
    next
      case False
      show ?thesis
        using Cons.IH [OF dist(2) mem, where st = "fst (start_discovery clk st dst (ds_retries_done state + 1))"
            and clk = "clock_tl clk" and acts = "acts\<lparr>pa_outbound := pa_outbound acts
              @ pa_outbound (snd (start_discovery clk st dst (ds_retries_done state + 1)))\<rparr>"] False
        by (auto simp: e split_beta) blast
    qed
  qed
qed

text \<open>A discovery has timed out at \<open>now\<close>.\<close>

definition timed_out :: "protocol_state \<Rightarrow> discovery_state \<Rightarrow> u64 \<Rightarrow> bool" where
  "timed_out st s now \<longleftrightarrow>
     cfg_route_discovery_timeout_ms (ps_config st) \<le> saturating_sub now (ds_last_sent_millis s)"

lemma expired_discoveries_mem:
  assumes "hm_wf (ps_discoveries st)"
  shows "(d, s) \<in> set (expired_discoveries st now) \<longleftrightarrow>
    hm_get (ps_discoveries st) d = Some s \<and> timed_out st s now"
  using assms by (simp add: expired_discoveries_def timed_out_def hm.items_get)

lemma expired_discoveries_distinct:
  "hm_wf (ps_discoveries st) \<Longrightarrow> distinct (map fst (expired_discoveries st now))"
  by (simp add: expired_discoveries_def hm_wf_def distinct_map_filter)

lemma handle_tick_eq:
  "handle_tick clk st now =
     retry_loop clk
       (st\<lparr>ps_seen_requests := seen_prune (ps_seen_requests st) now (cfg_seen_request_ttl_ms (ps_config st))\<rparr>)
       (expired_discoveries st now) no_actions"
  by (simp add: handle_tick_def retry_expired_discoveries_def expired_discoveries_def)

lemma handle_tick_config [simp]: "ps_config (fst (handle_tick clk st now)) = ps_config st"
  by (simp add: handle_tick_eq)

lemma tick_waits:
  assumes "node_inv st" "hm_get (ps_discoveries st) d = Some s" "\<not> timed_out st s now"
  shows "hm_get (ps_discoveries (fst (handle_tick clk st now))) d = Some s"
proof -
  have "d \<notin> fst ` set (expired_discoveries st now)"
    using assms expired_discoveries_mem [of st] by (auto simp: node_inv_def queue_wf_def)
  then show ?thesis
    using assms(2) by (simp add: handle_tick_eq retry_loop_get_other)
qed

lemma tick_retries:
  assumes inv: "node_inv st" and get: "hm_get (ps_discoveries st) d = Some s"
    and late: "timed_out st s now"
    and left: "ds_retries_done s < cfg_route_discovery_max_retries (ps_config st)"
  shows "\<exists>rid i. hm_get (ps_discoveries (fst (handle_tick clk st now))) d =
      Some \<lparr>ds_request_id = rid, ds_last_sent_millis = clk i, ds_retries_done = ds_retries_done s + 1\<rparr>"
    and "filter (\<lambda>p. pd_dst_node_id p = d) (ps_pending_data (fst (handle_tick clk st now))) =
      filter (\<lambda>p. pd_dst_node_id p = d) (ps_pending_data st)"
proof -
  have wf: "hm_wf (ps_discoveries st)"
    using inv by (simp add: node_inv_def queue_wf_def)
  have mem: "(d, s) \<in> set (expired_discoveries st now)"
    using get late by (simp add: expired_discoveries_mem [OF wf])
  show "\<exists>rid i. hm_get (ps_discoveries (fst (handle_tick clk st now))) d =
      Some \<lparr>ds_request_id = rid, ds_last_sent_millis = clk i, ds_retries_done = ds_retries_done s + 1\<rparr>"
    using retry_loop_get [OF expired_discoveries_distinct [OF wf] mem, of
        "st\<lparr>ps_seen_requests := x\<rparr>" for x] left
    by (simp add: handle_tick_eq not_le [symmetric])
  have "s' = s" if "(d, s') \<in> set (expired_discoveries st now)" for s'
    using that get by (simp add: expired_discoveries_mem [OF wf])
  then show "filter (\<lambda>p. pd_dst_node_id p = d) (ps_pending_data (fst (handle_tick clk st now))) =
      filter (\<lambda>p. pd_dst_node_id p = d) (ps_pending_data st)"
    using left by (auto simp: handle_tick_eq retry_loop_pending intro!: filter_cong)
qed

lemma tick_fails:
  assumes inv: "node_inv st" and get: "hm_get (ps_discoveries st) d = Some s"
    and late: "timed_out st s now"
    and left: "cfg_route_discovery_max_retries (ps_config st) \<le> ds_retries_done s"
  shows "hm_get (ps_discoveries (fst (handle_tick clk st now))) d = None"
    and "RouteDiscoveryFailed (self_id st) d (ds_retries_done s + 1)
      \<in> set (pa_events (snd (handle_tick clk st now)))"
    and "\<forall>p \<in> set (ps_pending_data (fst (handle_tick clk st now))). pd_dst_node_id p \<noteq> d"
proof -
  have wf: "hm_wf (ps_discoveries st)"
    using inv by (simp add: node_inv_def queue_wf_def)
  have mem: "(d, s) \<in> set (expired_discoveries st now)"
    using get late by (simp add: expired_discoveries_mem [OF wf])
  show "hm_get (ps_discoveries (fst (handle_tick clk st now))) d = None"
    "RouteDiscoveryFailed (self_id st) d (ds_retries_done s + 1)
      \<in> set (pa_events (snd (handle_tick clk st now)))"
    using retry_loop_get [OF expired_discoveries_distinct [OF wf] mem, of
        "st\<lparr>ps_seen_requests := x\<rparr>" for x] left
    by (simp_all add: handle_tick_eq)
  show "\<forall>p \<in> set (ps_pending_data (fst (handle_tick clk st now))). pd_dst_node_id p \<noteq> d"
    using mem left by (auto simp: handle_tick_eq retry_loop_pending)
qed

text \<open>A run of ticks, and the events it reports.\<close>

fun tick_run :: "(clock \<times> u64) list \<Rightarrow> protocol_state \<Rightarrow> protocol_state \<times> protocol_event list" where
  "tick_run [] st = (st, [])"
| "tick_run ((clk, now) # ticks) st =
     (let (st1, acts) = handle_tick clk st now; (st2, evs) = tick_run ticks st1
      in (st2, pa_events acts @ evs))"

text \<open>Every tick comes a timeout after the times \<open>T\<close> and after the readings of the tick before.\<close>

fun late_ticks :: "u64 \<Rightarrow> u64 set \<Rightarrow> (clock \<times> u64) list \<Rightarrow> bool" where
  "late_ticks timeout T [] \<longleftrightarrow> True"
| "late_ticks timeout T ((clk, now) # ticks) \<longleftrightarrow>
     (\<forall>t \<in> T. timeout \<le> saturating_sub now t) \<and> late_ticks timeout (range clk) ticks"

lemma late_ticks_mono: "late_ticks timeout T ticks \<Longrightarrow> T' \<subseteq> T \<Longrightarrow> late_ticks timeout T' ticks"
  by (cases ticks; auto) blast

text \<open>
  C9. A discovery that gets no reply ends: after one timed-out tick per retry left and one
  more, it is gone, its failure is reported with the number of attempts, and no payload for the
  destination is left waiting.
\<close>

theorem discovery_gives_up:
  assumes "node_inv st" "hm_get (ps_discoveries st) d = Some s"
    and "unat (ds_retries_done s) + k = unat (cfg_route_discovery_max_retries (ps_config st))"
    and "length ticks = Suc k"
    and "late_ticks (cfg_route_discovery_timeout_ms (ps_config st)) {ds_last_sent_millis s} ticks"
  shows "hm_get (ps_discoveries (fst (tick_run ticks st))) d = None
    \<and> (\<forall>p \<in> set (ps_pending_data (fst (tick_run ticks st))). pd_dst_node_id p \<noteq> d)
    \<and> RouteDiscoveryFailed (self_id st) d (cfg_route_discovery_max_retries (ps_config st) + 1)
        \<in> set (snd (tick_run ticks st))"
  using assms
proof (induction k arbitrary: st s ticks)
  case 0
  then obtain clk now where ticks: "ticks = [(clk, now)]"
    by (auto simp: length_Suc_conv)
  have "ds_retries_done s = cfg_route_discovery_max_retries (ps_config st)"
    using 0 by (simp add: word_unat_eq_iff)
  moreover have "timed_out st s now"
    using 0 by (simp add: ticks timed_out_def)
  ultimately show ?case
    using tick_fails [OF 0(1,2), of now clk] by (simp add: ticks split_beta)
next
  case (Suc k)
  then obtain clk now rest where ticks: "ticks = (clk, now) # rest" "length rest = Suc k"
    by (auto simp: length_Suc_conv)
  let ?st = "fst (handle_tick clk st now)"
  have left: "ds_retries_done s < cfg_route_discovery_max_retries (ps_config st)"
    using Suc.prems(3) by (simp add: word_less_nat_alt)
  have late: "timed_out st s now"
    using Suc.prems(5) by (simp add: ticks timed_out_def)
  obtain rid i where get: "hm_get (ps_discoveries ?st) d =
      Some \<lparr>ds_request_id = rid, ds_last_sent_millis = clk i, ds_retries_done = ds_retries_done s + 1\<rparr>"
    using tick_retries(1) [OF Suc.prems(1,2) late left] by blast
  have "late_ticks (cfg_route_discovery_timeout_ms (ps_config ?st)) {clk i} rest"
    using Suc.prems(5) by (auto simp: ticks elim!: late_ticks_mono)
  then show ?case
    using Suc.IH [OF node_inv_tick [OF Suc.prems(1)] get _ ticks(2)] Suc.prems(3) left
    by (simp add: ticks split_beta unat_plus_one)
qed

theorem discovery_gives_up_witness:
  "RouteDiscoveryFailed 0 99 2 \<in> set (snd (tick_run [(\<lambda>_. 120, 120), (\<lambda>_. 140, 140)]
     (fst (discover_and_send (\<lambda>_. 100) (chain_node 0 Dsr) 99 [1, 2]))))"
proof -
  let ?st = "fst (discover_and_send (\<lambda>_. 100) (chain_node 0 Dsr) 99 [1, 2])"
  have inv: "node_inv ?st"
    by (rule node_inv_discover_and_send [OF node_inv_new])
  have st: "hm_get (ps_discoveries ?st) 99 =
      Some \<lparr>ds_request_id = 1, ds_last_sent_millis = 100, ds_retries_done = 0\<rparr>"
    "ps_config ?st = chain_config 0 Dsr"
    by (simp_all add: discover_and_send_def route_shortest_def route_cache_default_def Let_def
        start_discovery_pending)
  show ?thesis
    using discovery_gives_up [OF inv st(1), of 1 "[(\<lambda>_. 120, 120), (\<lambda>_. 140, 140)]"]
    by (simp add: st(2) saturating_sub_def)
qed

end
