(* ===== verification/Protocol_Replies.thy ===== *)
theory Protocol_Replies
  imports Protocol_Discovery
begin

text \<open>
  Commands and route replies on one node: what is sent at once and what waits, which replies
  are accepted, how long a route lives, and the fate of the waiting payloads.
\<close>

section \<open>Commands\<close>

text \<open>
  C18. A command for a destination with a live route uses it at once and queues nothing. Without
  one the payload is queued behind the earlier ones, and afterwards a discovery for the
  destination is under way: the one already running, with no packet sent, or a new one whose
  request goes to every logical neighbour with an endpoint.
\<close>

theorem command_sends_or_queues:
  "case route_shortest (ps_routes st) dst (clk 0) of
     Some route \<Rightarrow>
       ps_pending_data (fst (discover_and_send clk st dst payload)) = ps_pending_data st
       \<and> ps_discoveries (fst (discover_and_send clk st dst payload)) = ps_discoveries st
       \<and> pa_outbound (snd (discover_and_send clk st dst payload)) =
           (case origin_resolves st route of
              None \<Rightarrow> []
            | Some ep \<Rightarrow>
                [\<lparr>ob_packet = origin_packet (ps_config st) (ps_next_sequence st) dst payload route (clk 1),
                  ob_dst = ep\<rparr>])
   | None \<Rightarrow>
       ps_pending_data (fst (discover_and_send clk st dst payload)) =
         ps_pending_data st @ [\<lparr>pd_dst_node_id = dst, pd_payload = payload\<rparr>]
       \<and> hm_get (ps_discoveries (fst (discover_and_send clk st dst payload))) dst \<noteq> None
       \<and> pa_outbound (snd (discover_and_send clk st dst payload)) =
           (if hm_get (ps_discoveries st) dst \<noteq> None then []
            else send_all (Rreq (self_id st) dst (ps_next_request_id st) (self_id st) 0 [self_id st] []
                             [self_id st] (clk 1))
                   (endpoints_of (ps_config st) (logical_neighbors (ps_config st))))"
proof (cases "route_shortest (ps_routes st) dst (clk 0)")
  case None
  show ?thesis
    by (cases "hm_get (ps_discoveries st) dst = None")
      (simp_all add: None discover_and_send_def Let_def start_discovery_pending,
        simp add: start_discovery_def Let_def rreq_originate_loop_eq)
next
  case (Some route)
  then show ?thesis
    by (cases "origin_resolves st route") (simp_all add: discover_and_send_def origin_data_eq)
qed

section \<open>Which replies are accepted\<close>

text \<open>
  C16. A reply is accepted exactly when its sender's address belongs to a logical neighbour, this
  node occurs in the trace with that neighbour right after its first occurrence, and the node
  right before it, if any, is adjacent.
\<close>

theorem rrep_accepted_iff:
  "validate_rrep cfg sender trace = Inr () \<longleftrightarrow>
     (\<exists>before s rest. trace = before @ cfg_node_id cfg # s # rest
        \<and> cfg_node_id cfg \<notin> set before
        \<and> node_id_by_endpoint cfg sender = Some s
        \<and> is_logical_neighbor cfg s
        \<and> (before \<noteq> [] \<longrightarrow> are_adjacent cfg (cfg_node_id cfg) (last before)))"
    (is "_ \<longleftrightarrow> (\<exists>before s rest. ?split before s rest)")
proof
  assume "validate_rrep cfg sender trace = Inr ()"
  then obtain s i where ok: "node_id_by_endpoint cfg sender = Some s" "is_logical_neighbor cfg s"
    "position (\<lambda>n. n = cfg_node_id cfg) trace = Some i" "Suc i < length trace" "trace ! Suc i = s"
    "\<forall>k. i = Suc k \<longrightarrow> are_adjacent cfg (cfg_node_id cfg) (trace ! k)"
    using validate_rrep_ok by blast
  have "trace = take i trace @ trace ! i # trace ! Suc i # drop (Suc (Suc i)) trace"
    using ok(4) by (simp add: Cons_nth_drop_Suc)
  moreover have "trace ! i = cfg_node_id cfg" "cfg_node_id cfg \<notin> set (take i trace)"
    using ok(3) by (auto simp: position_Some in_set_conv_nth)
  moreover have "are_adjacent cfg (cfg_node_id cfg) (last (take i trace))" if "take i trace \<noteq> []"
    using that ok(4,6) by (cases i) (auto simp: last_conv_nth)
  ultimately show "\<exists>before s rest. ?split before s rest"
    using ok(1,2,5) by metis
next
  assume "\<exists>before s rest. ?split before s rest"
  then obtain before s rest where split: "?split before s rest"
    by blast
  then have "position (\<lambda>n. n = cfg_node_id cfg) trace = Some (length before)"
    by (auto intro!: position_append_notin)
  moreover have "are_adjacent cfg (cfg_node_id cfg) (trace ! k)" if "length before = Suc k" for k
  proof -
    have "before \<noteq> []" "k = length before - 1" "k < length before"
      using that by auto
    then have "trace ! k = last before"
      using split by (simp add: nth_append last_conv_nth)
    then show ?thesis
      using split \<open>before \<noteq> []\<close> by simp
  qed
  ultimately show "validate_rrep cfg sender trace = Inr ()"
    using split by (auto simp: validate_rrep_ok nth_append)
qed

theorem rrep_accepted_iff_witness:
  "validate_rrep (chain_config 1 DlDsr) (local_addr 7002) [0, 1, 2, 3] = Inr ()"
proof -
  have "\<exists>before s rest. [0, 1, 2, 3 :: u32] = before @ cfg_node_id (chain_config 1 DlDsr) # s # rest
      \<and> cfg_node_id (chain_config 1 DlDsr) \<notin> set before
      \<and> node_id_by_endpoint (chain_config 1 DlDsr) (local_addr 7002) = Some s
      \<and> is_logical_neighbor (chain_config 1 DlDsr) s
      \<and> (before \<noteq> [] \<longrightarrow>
           are_adjacent (chain_config 1 DlDsr) (cfg_node_id (chain_config 1 DlDsr)) (last before))"
    by (intro exI [of _ "[0]"] exI [of _ 2] exI [of _ "[3]"])
      (simp add: are_adjacent_def chain4_nodes is_logical_neighbor_def)
  then show ?thesis
    by (rule rrep_accepted_iff [THEN iffD2])
qed

section \<open>The life of a route\<close>

text \<open>
  C28. A route learnt at time \<open>now\<close> is usable up to and including \<open>now\<close> plus the configured time
  to live, unless that sum exceeds 64 bits: then the wrapped expiry lies in the past and the
  route is dead on arrival.
\<close>

theorem cached_route_lifetime:
  "route_live t (rrep_route cfg now dst dsr labels) \<longleftrightarrow>
     (if unat now + unat (cfg_route_cache_ttl_ms cfg) < 2 ^ 64
      then unat t \<le> unat now + unat (cfg_route_cache_ttl_ms cfg)
      else unat t + 2 ^ 64 \<le> unat now + unat (cfg_route_cache_ttl_ms cfg))"
proof -
  let ?ttl = "cfg_route_cache_ttl_ms cfg"
  have "re_expires_at_millis (rrep_route cfg now dst dsr labels) = now + ?ttl"
    by (simp add: rrep_route_def route_new_dsr_def split: protocol_mode.split)
  moreover have "unat (now + ?ttl) =
      (if unat now + unat ?ttl < 2 ^ 64 then unat now + unat ?ttl else unat now + unat ?ttl - 2 ^ 64)"
    using unat_plus_wrap [of now ?ttl] by simp
  ultimately show ?thesis
    by (auto simp: route_live_def word_le_nat_alt)
qed

section \<open>What an accepted reply does at the source\<close>

lemma handle_rrep_source_eq:
  assumes "validate_rrep (ps_config st) sender trace = Inr ()"
  shows "handle_rrep clk st sender (self_id st) dst rid dsr labels trace created =
    (let route = rrep_route (ps_config st) (clk 0) dst dsr labels;
         ps = payloads_for dst (ps_pending_data st);
         st' = ps_metrics_update (m_route_discovery_successes_update (\<lambda>n. n + 1))
           (st\<lparr>ps_routes := route_insert (ps_routes st) route,
               ps_discoveries := hm_remove dst (ps_discoveries st),
               ps_next_sequence := ps_next_sequence st + of_nat (length ps),
               ps_pending_data := filter (\<lambda>p. pd_dst_node_id p \<noteq> dst) (ps_pending_data st)\<rparr>)
     in case origin_resolves st route of
          Some ep \<Rightarrow>
            (st', \<lparr>pa_outbound = map (\<lambda>p. \<lparr>ob_packet = p, ob_dst = ep\<rparr>)
                     (flush_packets (clock_tl clk) (ps_config st) (ps_next_sequence st) dst route ps),
                   pa_events = [RouteCached (self_id st) dst rid]\<rparr>)
        | None \<Rightarrow>
            (ps_metrics_update (count_drops (length ps)) st',
             \<lparr>pa_outbound = [], pa_events = [RouteCached (self_id st) dst rid]\<rparr>))"
  using assms
  by (cases "origin_resolves st (rrep_route (ps_config st) (clk 0) dst dsr labels)")
    (simp_all add: handle_rrep_def Let_def flush_pending_eq no_actions_def actions_event_def)

text \<open>
  C8. An accepted reply at the source ends the discovery, caches the route and takes the payloads
  that waited for the destination off the queue, leaving every other payload queued. When the
  first hop of the route resolves they leave in the order they were queued, one packet each, with
  consecutive sequence numbers; when it does not, none leaves and each is counted as dropped.
\<close>

theorem rrep_completes_discovery:
  assumes ok: "validate_rrep (ps_config st) sender trace = Inr ()"
    and route: "route = rrep_route (ps_config st) (clk 0) dst dsr labels"
    and res: "(st', acts) = handle_rrep clk st sender (self_id st) dst rid dsr labels trace created"
    and waiting: "ps = payloads_for dst (ps_pending_data st)"
  shows "hm_get (ps_discoveries st') dst = None
    \<and> route \<in> routes_to (ps_routes st') dst
    \<and> ps_pending_data st' = filter (\<lambda>p. pd_dst_node_id p \<noteq> dst) (ps_pending_data st)
    \<and> pa_events acts = [RouteCached (self_id st) dst rid]
    \<and> ps_next_sequence st' = ps_next_sequence st + of_nat (length ps)
    \<and> (case origin_resolves st route of
         Some ep \<Rightarrow>
           length (pa_outbound acts) = length ps
           \<and> (\<forall>i < length ps. pa_outbound acts ! i =
                \<lparr>ob_packet = origin_packet (ps_config st) (ps_next_sequence st + of_nat i) dst (ps ! i) route
                               (clk (Suc i)),
                 ob_dst = ep\<rparr>)
           \<and> m_data_dropped (ps_metrics st') = m_data_dropped (ps_metrics st)
       | None \<Rightarrow>
           pa_outbound acts = []
           \<and> m_data_dropped (ps_metrics st') = m_data_dropped (ps_metrics st) + of_nat (length ps))"
proof -
  have "re_dst_node_id route = dst"
    by (simp add: route rrep_route_def route_new_dsr_def split: protocol_mode.split)
  then have "route \<in> routes_to (route_insert (ps_routes st) route) dst"
    by (simp add: rc.stored_store)
  then show ?thesis
    using res
    by (cases "origin_resolves st route")
      (auto simp: handle_rrep_source_eq [OF ok] Let_def waiting nth_flush_packets hm_simps simp flip: route)
qed


section \<open>The two claims on the chain\<close>

lemma chain_rrep_valid: "validate_rrep (chain_config 0 m) (local_addr 7001) [0, 1, 2, 3] = Inr ()"
  by (simp add: validate_rrep_def is_logical_neighbor_def are_adjacent_def chain4_nodes slice_get_def
      checked_pred_def)

lemma chain_discover_pending:
  "ps_config (fst (discover_and_send clk (chain_node 0 m) 3 payload)) = chain_config 0 m"
  "ps_pending_data (fst (discover_and_send clk (chain_node 0 m) 3 payload)) =
     [\<lparr>pd_dst_node_id = 3, pd_payload = payload\<rparr>]"
  "ps_neighbors (fst (discover_and_send clk (chain_node 0 m) 3 payload)) = neighbor_table_default"
  "ps_next_sequence (fst (discover_and_send clk (chain_node 0 m) 3 payload)) = 1"
  by (simp_all add: discover_and_send_def route_shortest_def route_cache_default_def Let_def
      start_discovery_pending)

theorem rrep_completes_discovery_witness:
  "pa_outbound (snd (handle_rrep (\<lambda>_. 200)
     (fst (discover_and_send (\<lambda>_. 100) (chain_node 0 Dsr) 3 [1, 2])) (local_addr 7001) 0 3 1
     [0, 1, 2, 3] [] [0, 1, 2, 3] 100)) ! 0 =
   \<lparr>ob_packet = Data 0 3 1 Dsr 1 [0, 1, 2, 3] [] [1, 2] 200, ob_dst = local_addr 7001\<rparr>"
proof -
  let ?st = "fst (discover_and_send (\<lambda>_. 100) (chain_node 0 Dsr) 3 [1, 2])"
  let ?r = "handle_rrep (\<lambda>_. 200) ?st (local_addr 7001) 0 3 1 [0, 1, 2, 3] [] [0, 1, 2, 3] 100"
  let ?route = "rrep_route (ps_config ?st) 200 3 [0, 1, 2, 3] []"
  have hop: "origin_resolves ?st ?route = Some (local_addr 7001)"
    by (simp add: origin_resolves_def chain_discover_pending rrep_route_def route_new_dsr_def slice_get_def)
  have res: "(fst ?r, snd ?r) = handle_rrep (\<lambda>_. 200) ?st (local_addr 7001) (self_id ?st) 3 1
      [0, 1, 2, 3] [] [0, 1, 2, 3] 100"
    by (simp add: chain_discover_pending)
  have ok: "validate_rrep (ps_config ?st) (local_addr 7001) [0, 1, 2, 3] = Inr ()"
    by (simp add: chain_discover_pending chain_rrep_valid)
  show ?thesis
    using rrep_completes_discovery [OF ok refl res refl] hop
    by (simp add: chain_discover_pending origin_packet_def rrep_route_def route_new_dsr_def)
qed


end
