(* ===== verification/Protocol_Data.thy ===== *)
theory Protocol_Data
  imports Protocol_Replies
begin

text \<open>
  Hello exchange and data packets on one node: the agreement two neighbours reach about a label,
  the fate of every data packet, and which packets are delivered.
\<close>

section \<open>Hello exchange\<close>

text \<open>
  C19. A hello and its reply leave the two neighbours in agreement: the label that \<open>b\<close> now holds
  for \<open>a\<close> is one under which \<open>a\<close> finds \<open>b\<close>, at the address the hello came from.
\<close>

theorem hello_exchange_agrees:
  assumes inv: "node_inv a"
    and sent: "\<lparr>ob_packet = HelloReply (self_id a) n label True ts, ob_dst = addr\<rparr>
      \<in> set (pa_outbound (snd (handle_hello clk a (self_id b) hello_ts addr)))"
    and mutual: "is_logical_neighbor (ps_config b) (self_id a)"
    and a': "a' = fst (handle_hello clk a (self_id b) hello_ts addr)"
    and b': "b' = fst (handle_hello_reply b (self_id a) n label ts)"
  shows "label_assigned_by_neighbor (ps_labels b') (self_id a) = Some label
    \<and> (\<exists>e. neighbor_by_label (ps_neighbors a') label = Some e
          \<and> ne_node_id e = self_id b \<and> ne_endpoint e = addr)"
proof -
  have wf: "neighbor_table_wf (ps_neighbors a)"
    using inv by (simp add: node_inv_def tables_wf_def)
  from sent obtain t' where t': "assign_or_reuse_label (ps_neighbors a) (self_id b) addr (clk 0) = (t', Inr label)"
    and n: "n = self_id b"
    by (auto simp: handle_hello_def split: if_splits prod.splits sum.splits)
  have tab: "ps_neighbors a' = t'"
    using sent t' by (auto simp: a' handle_hello_def split: if_splits)
  have wf': "neighbor_table_wf t'"
    using neighbor_table_wf_assign [OF wf, of "self_id b" addr "clk 0"] t' by simp
  obtain e where e: "neighbor_get t' (self_id b) = Some e" "ne_label_assigned_by_me e = label"
    "ne_endpoint e = addr"
    using neighbor_get_assign [of "ps_neighbors a" "self_id b" addr "clk 0" "self_id b"] t' by auto
  then have "neighbor_by_label t' label = Some e" "ne_node_id e = self_id b"
    using neighbor_get_resolves [OF wf'] neighbor_get_node_id [OF wf'] by blast+
  moreover have "label_assigned_by_neighbor (ps_labels b') (self_id a) = Some label"
    using mutual by (simp add: b' handle_hello_reply_def n label_assigned_by_neighbor_def
        update_from_hello_reply_def hm_simps)
  ultimately show ?thesis
    using e(3) tab by blast
qed

theorem hello_exchange_agrees_witness:
  "label_assigned_by_neighbor
     (ps_labels (fst (handle_hello_reply (chain_node 1 DlDsr) 0 1 1 20))) 0 = Some 1"
proof -
  have sent: "\<lparr>ob_packet = HelloReply (self_id (chain_node 0 DlDsr)) 1 1 True 20, ob_dst = local_addr 7001\<rparr>
      \<in> set (pa_outbound (snd (handle_hello (\<lambda>_. 20) (chain_node 0 DlDsr) (self_id (chain_node 1 DlDsr))
          10 (local_addr 7001))))"
    by (simp add: handle_hello_def is_logical_neighbor_def assign_or_reuse_label_def)
  show ?thesis
    using hello_exchange_agrees [OF node_inv_new sent _ refl refl] by (simp add: is_logical_neighbor_def)
qed

section \<open>The fate of a data packet\<close>

text \<open>
  The four outcomes of \<open>handle_data\<close>, as predicates on the state before and the result: delivery
  here, one copy to the next hop with the cursor advanced, a drop that is counted and reported,
  or nothing at all.
\<close>

definition delivered ::
    "protocol_state \<Rightarrow> u32 \<Rightarrow> u32 \<Rightarrow> u64 \<Rightarrow> u8 list \<Rightarrow> handler_result \<Rightarrow> bool" where
  "delivered st src dst sq payload res \<longleftrightarrow>
     dst = self_id st
     \<and> pa_outbound (snd res) = []
     \<and> pa_events (snd res) = [DataDelivered (self_id st) src dst sq payload]
     \<and> m_data_delivered (ps_metrics (fst res)) = m_data_delivered (ps_metrics st) + 1
     \<and> m_data_dropped (ps_metrics (fst res)) = m_data_dropped (ps_metrics st)"

definition forwarded :: "protocol_state \<Rightarrow> u32 \<Rightarrow> (usize \<Rightarrow> packet) \<Rightarrow> usize \<Rightarrow> handler_result \<Rightarrow> bool" where
  "forwarded st dst pkt cursor res \<longleftrightarrow>
     dst \<noteq> self_id st
     \<and> unat (cursor + 1) = Suc (unat cursor)
     \<and> (\<exists>n ep. is_logical_neighbor (ps_config st) n
          \<and> (endpoint (ps_config st) n = Some ep
             \<or> (\<exists>e. neighbor_get (ps_neighbors st) n = Some e \<and> ne_endpoint e = ep))
          \<and> pa_outbound (snd res) = [\<lparr>ob_packet = pkt (cursor + 1), ob_dst = ep\<rparr>])
     \<and> pa_events (snd res) = []
     \<and> m_data_forwarded (ps_metrics (fst res)) = m_data_forwarded (ps_metrics st) + 1
     \<and> m_data_dropped (ps_metrics (fst res)) = m_data_dropped (ps_metrics st)"

definition dropped :: "protocol_state \<Rightarrow> u32 \<Rightarrow> reason \<Rightarrow> handler_result \<Rightarrow> bool" where
  "dropped st dst r res \<longleftrightarrow>
     pa_outbound (snd res) = []
     \<and> pa_events (snd res) = [DataDropped (self_id st) dst r, RouteError (self_id st) dst r]
     \<and> m_data_dropped (ps_metrics (fst res)) = m_data_dropped (ps_metrics st) + 1
     \<and> m_dropped_packets (ps_metrics (fst res)) = m_dropped_packets (ps_metrics st) + 1"

lemma dropped_drop_data [simp]: "dropped st dst r (drop_data st dst r') \<longleftrightarrow> r' = r"
  by (auto simp: dropped_def drop_data_metrics)

lemma delivered_deliver_data [simp]:
  "delivered st src dst sq payload (deliver_data clk st src dst sq payload created) \<longleftrightarrow> dst = self_id st"
  by (auto simp: delivered_def deliver_data_def)

lemma unat_cursor_Suc:
  "unat (cursor :: usize) < length xs \<Longrightarrow> length xs < 2 ^ 64 \<Longrightarrow> unat (cursor + 1) = Suc (unat cursor)"
  using unat_plus_wrap [of cursor 1] by simp

lemma forward_data_dsr_outcome:
  assumes "length dsr < 2 ^ 64" "dst \<noteq> self_id st"
    and res: "res = forward_data_dsr st src dst sq cursor dsr labels payload created"
  shows "(\<exists>r. dropped st dst r res)
    \<or> forwarded st dst (\<lambda>c. Data src dst sq Dsr c dsr labels payload created) cursor res
    \<or> res = (st, no_actions)
      \<and> (\<exists>n. slice_get dsr (Suc (unat cursor)) = Some n \<and> is_logical_neighbor (ps_config st) n
            \<and> endpoint (ps_config st) n = None)"
proof (cases "slice_get dsr (unat cursor) = Some (self_id st)")
  case False
  then show ?thesis by (simp add: res forward_data_dsr_def)
next
  case True
  then have "unat (cursor + 1) = Suc (unat cursor)"
    using assms(1) by (intro unat_cursor_Suc [of _ dsr]) (auto simp: slice_get_def split: if_splits)
  with True show ?thesis
    using assms(2) unfolding res
    by (auto simp: forward_data_dsr_def Let_def forwarded_def split: option.split)
qed

lemma forward_data_dldsr_outcome:
  assumes "length labels < 2 ^ 64" "dst \<noteq> self_id st" "node_inv st"
    and res: "res = forward_data_dldsr st src dst sq cursor dsr labels payload created"
  shows "(\<exists>r. dropped st dst r res)
    \<or> forwarded st dst (\<lambda>c. Data src dst sq DlDsr c dsr labels payload created) cursor res"
proof (cases "slice_get labels (unat cursor)")
  case None
  then have "res = drop_data st dst DataLabelPathExhausted"
    unfolding res forward_data_dldsr_def by (simp only: option.case)
  then show ?thesis by simp
next
  case lab: (Some l)
  then have cur: "unat (cursor + 1) = Suc (unat cursor)"
    using assms(1) by (intro unat_cursor_Suc [of _ labels]) (auto simp: slice_get_def split: if_splits)
  show ?thesis
  proof (cases "neighbor_by_label (ps_neighbors st) l")
    case None
    with lab show ?thesis by (simp add: res forward_data_dldsr_def)
  next
    case (Some e)
    then have "neighbor_get (ps_neighbors st) (ne_node_id e) = Some e"
      using assms(3) by (simp add: node_inv_def tables_wf_def neighbor_by_label_get)
    with Some lab cur show ?thesis
      using assms(2) unfolding res by (auto simp: forward_data_dldsr_def forwarded_def)
  qed
qed

text \<open>
  C7. Every data packet has exactly one fate. It is delivered here, forwarded as one copy to a
  logical neighbour with only the cursor changed (and the cursor does not wrap), or dropped with
  the drop counted and reported twice over. The only way to vanish without a trace is a DSR hop
  to a configured neighbour that the topology has no entry for. (Vector lengths fit in 64 bits.)
\<close>

theorem data_fate:
  assumes inv: "node_inv st"
    and "length dsr < 2 ^ 64" "length labels < 2 ^ 64"
    and res: "res = handle_data clk st sender src dst sq mode cursor dsr labels payload created"
  shows "delivered st src dst sq payload res
    \<or> forwarded st dst (\<lambda>c. Data src dst sq mode c dsr labels payload created) cursor res
    \<or> (\<exists>r. dropped st dst r res)
    \<or> mode = Dsr \<and> res = (st, no_actions)
      \<and> (\<exists>n. slice_get dsr (Suc (unat cursor)) = Some n \<and> is_logical_neighbor (ps_config st) n
            \<and> endpoint (ps_config st) n = None)"
proof (cases "\<exists>r. res = drop_data st dst r")
  case True
  then show ?thesis by auto
next
  case False
  then consider
      "dst = self_id st" "res = deliver_data clk st src dst sq payload created"
    | "dst \<noteq> self_id st" "mode = Dsr" "res = forward_data_dsr st src dst sq cursor dsr labels payload created"
    | "dst \<noteq> self_id st" "mode = DlDsr" "res = forward_data_dldsr st src dst sq cursor dsr labels payload created"
    unfolding res
    by (auto simp: handle_data_def Let_def split: option.splits if_splits sum.splits protocol_mode.splits)
  then show ?thesis
  proof cases
    case 1
    then show ?thesis by simp
  next
    case 2
    then show ?thesis
      using forward_data_dsr_outcome [OF assms(2) 2(1,3)] by blast
  next
    case 3
    then show ?thesis
      using forward_data_dldsr_outcome [OF assms(3) 3(1) inv 3(3)] by blast
  qed
qed

lemma chain_data_forward:
  "pa_outbound (snd (handle_data clk (chain_node 1 Dsr) (local_addr 7000) 0 3 1 Dsr 1 [0, 1, 2, 3] []
     payload created)) =
     [\<lparr>ob_packet = Data 0 3 1 Dsr 2 [0, 1, 2, 3] [] payload created, ob_dst = local_addr 7002\<rparr>]"
  by (simp add: handle_data_def is_logical_neighbor_def forward_data_dsr_def Let_def)

theorem data_fate_witness:
  "forwarded (chain_node 1 Dsr) 3 (\<lambda>c. Data 0 3 1 Dsr c [0, 1, 2, 3] [] [7] 100) 1
     (handle_data (\<lambda>_. 120) (chain_node 1 Dsr) (local_addr 7000) 0 3 1 Dsr 1 [0, 1, 2, 3] [] [7] 100)"
proof -
  let ?res = "handle_data (\<lambda>_. 120) (chain_node 1 Dsr) (local_addr 7000) 0 3 1 Dsr 1 [0, 1, 2, 3] [] [7] 100"
  have "\<not> delivered (chain_node 1 Dsr) 0 3 1 [7] ?res" "\<not> dropped (chain_node 1 Dsr) 3 r ?res"
    "?res \<noteq> (chain_node 1 Dsr, no_actions)" for r
    using chain_data_forward [of "\<lambda>_. 120" "[7]" 100] by (auto simp: delivered_def dropped_def)
  then show ?thesis
    using data_fate [OF node_inv_new [of "chain_config 1 Dsr"], of "[0, 1, 2, 3]" "[]" ?res "\<lambda>_. 120"
        "local_addr 7000" 0 3 1 Dsr 1 "[7]" 100] by simp
qed

section \<open>What is delivered\<close>

lemma handle_data_delivers:
  "DataDelivered n src' dst' sq' payload' \<in>
     set (pa_events (snd (handle_data clk st sender src dst sq mode cursor dsr labels payload created)))
   \<longleftrightarrow> n = self_id st \<and> src' = src \<and> dst' = dst \<and> sq' = sq \<and> payload' = payload
     \<and> dst = self_id st
     \<and> (cfg_strict_protocol_mode (ps_config st) \<longrightarrow> mode = cfg_protocol_mode (ps_config st))
     \<and> (\<exists>s. node_id_by_endpoint (ps_config st) sender = Some s \<and> is_logical_neighbor (ps_config st) s
          \<and> validate_data_delivery (ps_config st) s mode cursor dsr labels = Inr ())"
  by (auto simp: handle_data_def Let_def deliver_data_def forward_data_dsr_def forward_data_dldsr_def
      split: option.splits if_splits sum.splits protocol_mode.splits)

lemma validate_dsr_delivery_position:
  "validate_data_delivery cfg s Dsr cursor dsr labels = Inr () \<longleftrightarrow>
     slice_last dsr = Some (cfg_node_id cfg)
     \<and> (\<exists>i. position (\<lambda>n. n = cfg_node_id cfg) dsr = Some (Suc i) \<and> unat cursor = Suc i \<and> dsr ! i = s)"
  by (auto simp: validate_data_delivery_def checked_pred_def dest: position_less
      split: if_splits option.splits nat.splits)

lemma validate_dsr_delivery:
  "validate_data_delivery cfg s Dsr cursor dsr labels = Inr () \<longleftrightarrow>
     (\<exists>before rest. dsr = before @ s # cfg_node_id cfg # rest
        \<and> cfg_node_id cfg \<notin> set (before @ [s])
        \<and> unat cursor = Suc (length before) \<and> last dsr = cfg_node_id cfg)"
    (is "?ok \<longleftrightarrow> (\<exists>before rest. ?split before rest)")
proof
  assume ?ok
  then obtain i where i: "slice_last dsr = Some (cfg_node_id cfg)"
    "position (\<lambda>n. n = cfg_node_id cfg) dsr = Some (Suc i)" "unat cursor = Suc i" "dsr ! i = s"
    by (auto simp: validate_dsr_delivery_position)
  have pos: "Suc i < length dsr" "dsr ! Suc i = cfg_node_id cfg" "\<forall>j < Suc i. dsr ! j \<noteq> cfg_node_id cfg"
    using i(2) by (auto simp: position_Some)
  have "dsr = take i dsr @ dsr ! i # dsr ! Suc i # drop (Suc (Suc i)) dsr"
    using pos(1) by (simp add: Cons_nth_drop_Suc)
  moreover have "cfg_node_id cfg \<notin> set (take i dsr @ [s])"
    using pos i(4) by (auto simp: in_set_conv_nth)
  moreover have "last dsr = cfg_node_id cfg"
    using i(1) by (auto simp: slice_last_def split: if_splits)
  ultimately show "\<exists>before rest. ?split before rest"
    using i(3,4) pos(1,2) by (intro exI [of _ "take i dsr"] exI [of _ "drop (Suc (Suc i)) dsr"]) simp
next
  assume "\<exists>before rest. ?split before rest"
  then obtain before rest where split: "?split before rest"
    by blast
  have "position (\<lambda>n. n = cfg_node_id cfg) ((before @ [s]) @ cfg_node_id cfg # rest) =
      Some (length (before @ [s]))"
    using split by (intro position_append_notin) auto
  then show ?ok
    using split by (auto simp: validate_dsr_delivery_position slice_last_def nth_append)
qed

text \<open>
  C17. A payload is delivered exactly when it is addressed to this node, fits the configured mode
  where that is enforced, comes from a logical neighbour, and its route ends here: a DSR path has
  this node last, and the sender right before this node's first occurrence, where the cursor
  points; a DL-DSR label path is used up.
\<close>

theorem data_delivered_iff:
  "DataDelivered n src' dst' sq' payload' \<in>
     set (pa_events (snd (handle_data clk st sender src dst sq mode cursor dsr labels payload created)))
   \<longleftrightarrow> n = self_id st \<and> src' = src \<and> dst' = dst \<and> sq' = sq \<and> payload' = payload
     \<and> dst = self_id st
     \<and> (mode = cfg_protocol_mode (ps_config st) \<or> \<not> cfg_strict_protocol_mode (ps_config st))
     \<and> (\<exists>s. node_id_by_endpoint (ps_config st) sender = Some s \<and> is_logical_neighbor (ps_config st) s
          \<and> (case mode of
               Dsr \<Rightarrow>
                 (\<exists>before rest. dsr = before @ s # self_id st # rest
                    \<and> self_id st \<notin> set (before @ [s])
                    \<and> unat cursor = Suc (length before) \<and> last dsr = self_id st)
             | DlDsr \<Rightarrow> unat cursor = length labels))"
proof -
  have "validate_data_delivery cfg s DlDsr cursor dsr labels = Inr () \<longleftrightarrow> unat cursor = length labels"
    for cfg s
    by (simp add: validate_data_delivery_def)
  then show ?thesis
    unfolding handle_data_delivers by (cases mode) (auto simp: validate_dsr_delivery)
qed

theorem data_delivered_iff_witness:
  "DataDelivered 3 0 3 1 [7] \<in> set (pa_events (snd (handle_data (\<lambda>_. 120) (chain_node 3 Dsr)
     (local_addr 7002) 0 3 1 Dsr 3 [0, 1, 2, 3] [] [7] 100)))"
proof -
  have "\<exists>before rest. [0, 1, 2, 3 :: u32] = before @ 2 # 3 # rest \<and> 3 \<notin> set (before @ [2])
      \<and> unat (3 :: usize) = Suc (length before) \<and> last [0, 1, 2, 3 :: u32] = 3"
    by (intro exI [of _ "[0, 1]"] exI [of _ "[]"]) simp
  then show ?thesis
    using data_delivered_iff [of 3 0 3 1 "[7]" "\<lambda>_. 120" "chain_node 3 Dsr" "local_addr 7002" 0 3 1 Dsr 3
        "[0, 1, 2, 3]" "[]" "[7]" 100]
    by (simp add: is_logical_neighbor_def)
qed

end
