(* ===== verification/Daemon.thy ===== *)
theory Daemon
  imports Protocol_Data "HOL-Library.Sublist"
begin

text \<open>
  \<open>crates/dldsr-node/src/daemon.rs\<close> and \<open>udp_transport.rs\<close>: periodic hellos, the transport,
  the application of actions, the control socket, the metrics snapshot and the \<open>select!\<close> loop as
  a step relation. Sockets, \<open>serde_json\<close> and the \<open>tokio\<close> runtime are outside: the results of
  the socket calls and the JSON parser are arguments, and any ready branch of the loop may run.
\<close>

section \<open>Transport\<close>

datatype transport_error = EncodingError dldsr_error | IoError string

text \<open>
  The socket's answers to successive \<open>send_to\<close> calls, in the manner of the clock: call number
  \<open>i\<close> is answered by \<open>sock i\<close>.
\<close>

type_synonym send_to = "u8 list \<Rightarrow> socket_addr \<Rightarrow> (usize, string) result"
type_synonym socket = "nat \<Rightarrow> send_to"

definition udp_send ::
    "serializer \<Rightarrow> send_to \<Rightarrow> packet \<Rightarrow> socket_addr \<Rightarrow> (usize, transport_error) result" where
  "udp_send ser send_to packet addr =
     (case packet_encode ser packet of
        Inl e \<Rightarrow> Inl (EncodingError e)
      | Inr bytes \<Rightarrow> (case send_to bytes addr of Inl io \<Rightarrow> Inl (IoError io) | Inr n \<Rightarrow> Inr n))"

definition RECV_BUFFER :: nat where
  "RECV_BUFFER = 65536"

text \<open>\<open>recv_from\<close> copies at most a buffer full of the datagram; the rest of it is lost.\<close>

definition udp_recv ::
    "deserializer \<Rightarrow> (u8 list \<times> socket_addr, string) result \<Rightarrow>
     (packet \<times> socket_addr \<times> usize, transport_error) result" where
  "udp_recv de received =
     (case received of
        Inl io \<Rightarrow> Inl (IoError io)
      | Inr (datagram, src) \<Rightarrow>
          (let bytes = take RECV_BUFFER datagram
           in case packet_decode de bytes of
                Inl e \<Rightarrow> Inl (EncodingError e)
              | Inr packet \<Rightarrow> Inr (packet, src, of_nat (length bytes))))"

section \<open>Hellos and actions\<close>

fun send_hellos_loop ::
    "clock \<Rightarrow> node_config \<Rightarrow> u32 list \<Rightarrow> protocol_actions \<Rightarrow> protocol_actions" where
  "send_hellos_loop clk cfg [] acts = acts"
| "send_hellos_loop clk cfg (neighbor_id # rest) acts =
     (case topology_node_by_id (cfg_topology cfg) neighbor_id of
        None \<Rightarrow> send_hellos_loop clk cfg rest acts
      | Some node \<Rightarrow>
          send_hellos_loop (clock_tl clk) cfg rest
            (actions_send acts (Hello (cfg_node_id cfg) (clk 0)) (tn_endpoint node)))"

definition send_hellos :: "clock \<Rightarrow> protocol_state \<Rightarrow> protocol_actions" where
  "send_hellos clk st =
     send_hellos_loop clk (ps_config st) (logical_neighbors (ps_config st)) no_actions"

text \<open>The packets of an action list the socket took, and the state with each one accounted for.\<close>

fun apply_outbound ::
    "serializer \<Rightarrow> socket \<Rightarrow> protocol_state \<Rightarrow> outbound_packet list \<Rightarrow>
     protocol_state \<times> outbound_packet list" where
  "apply_outbound ser sock st [] = (st, [])"
| "apply_outbound ser sock st (outbound # rest) =
     (case udp_send ser (sock 0) (ob_packet outbound) (ob_dst outbound) of
        Inr _ \<Rightarrow>
          (let (st', sent) = apply_outbound ser (\<lambda>i. sock (Suc i))
                               (protocol_record_tx ser st (ob_packet outbound)) rest
           in (st', outbound # sent))
      | Inl _ \<Rightarrow>
          apply_outbound ser (\<lambda>i. sock (Suc i))
            (ps_metrics_update (m_dropped_packets_update (\<lambda>n. n + 1)) st) rest)"

text \<open>
  \<open>events\<close> is the optional event channel: \<open>Some True\<close> while its receiver lives. A send to a
  receiver that is gone is only logged.
\<close>

definition apply_actions ::
    "serializer \<Rightarrow> socket \<Rightarrow> bool option \<Rightarrow> protocol_state \<Rightarrow> protocol_actions \<Rightarrow>
     protocol_state \<times> outbound_packet list \<times> protocol_event list" where
  "apply_actions ser sock events st acts =
     (let (st', sent) = apply_outbound ser sock st (pa_outbound acts)
      in (st', sent, if events = Some True then pa_events acts else []))"

section \<open>Control socket\<close>

text \<open>A Rust \<open>String\<close> is modelled by its UTF-8 bytes, as characters; \<open>into_bytes\<close> reads them.\<close>

definition into_bytes :: "string \<Rightarrow> u8 list" where
  "into_bytes = map of_char"

record control_send_request =
  cs_dst :: u32
  cs_payload :: string

type_synonym json_parser = "u8 list \<Rightarrow> (control_send_request, string) result"

definition control_accepted :: string where
  "control_accepted = ''{\"status\":\"accepted\"}''"

definition control_error :: "string \<Rightarrow> string" where
  "control_error err = ''{\"status\":\"error\",\"reason\":\"'' @ err @ ''\"}''"

definition handle_control_message ::
    "json_parser \<Rightarrow> clock \<Rightarrow> protocol_state \<Rightarrow> u8 list \<Rightarrow> bool \<Rightarrow>
     protocol_state \<times> protocol_actions \<times> u8 list option" where
  "handle_control_message from_slice clk st bytes has_socket =
     (case from_slice bytes of
        Inr request \<Rightarrow>
          (let reply = (if has_socket then Some (into_bytes control_accepted) else None);
               (st', acts) =
                 handle_command clk st (DiscoverAndSend (cs_dst request) (into_bytes (cs_payload request)))
           in (st', acts, reply))
      | Inl err \<Rightarrow>
          (st, no_actions, if has_socket then Some (into_bytes (control_error err)) else None))"

section \<open>Metrics snapshot\<close>

record metrics_snapshot =
  ms_node_id :: u32
  ms_protocol_mode :: protocol_mode
  ms_tx_bytes :: u64
  ms_rx_bytes :: u64
  ms_control_bytes :: u64
  ms_data_bytes :: u64
  ms_delivered_packets :: u64
  ms_dropped_packets :: u64
  ms_route_discovery_attempts :: u64
  ms_route_discovery_successes :: u64
  ms_route_discovery_failures :: u64
  ms_rreq_forwarded :: u64
  ms_rreq_dropped_duplicate :: u64
  ms_rreq_dropped_ttl :: u64
  ms_rrep_forwarded :: u64
  ms_rrep_dropped_invalid :: u64
  ms_data_forwarded :: u64
  ms_data_delivered :: u64
  ms_data_dropped :: u64
  ms_average_latency_ms :: f64

definition take_snapshot :: "protocol_state \<Rightarrow> metrics_snapshot" where
  "take_snapshot st =
     (let m = ps_metrics st
      in \<lparr>ms_node_id = self_id st, ms_protocol_mode = cfg_protocol_mode (ps_config st),
          ms_tx_bytes = m_tx_bytes m, ms_rx_bytes = m_rx_bytes m,
          ms_control_bytes = m_control_bytes m, ms_data_bytes = m_data_bytes m,
          ms_delivered_packets = m_delivered_packets m, ms_dropped_packets = m_dropped_packets m,
          ms_route_discovery_attempts = m_route_discovery_attempts m,
          ms_route_discovery_successes = m_route_discovery_successes m,
          ms_route_discovery_failures = m_route_discovery_failures m,
          ms_rreq_forwarded = m_rreq_forwarded m,
          ms_rreq_dropped_duplicate = m_rreq_dropped_duplicate m,
          ms_rreq_dropped_ttl = m_rreq_dropped_ttl m, ms_rrep_forwarded = m_rrep_forwarded m,
          ms_rrep_dropped_invalid = m_rrep_dropped_invalid m,
          ms_data_forwarded = m_data_forwarded m, ms_data_delivered = m_data_delivered m,
          ms_data_dropped = m_data_dropped m,
          ms_average_latency_ms = metrics_average_latency_ms m\<rparr>)"

text \<open>The snapshot \<open>write_metrics_file\<close> writes, if a path is configured, and to where.\<close>

definition metrics_file :: "protocol_state \<Rightarrow> (string \<times> metrics_snapshot) option" where
  "metrics_file st =
     (case cfg_metrics_output_path (ps_config st) of
        None \<Rightarrow> None | Some path \<Rightarrow> Some (path, take_snapshot st))"

section \<open>The event loop\<close>

text \<open>
  The receiving end of the command channel: what is queued, and whether a sender is left.
  \<open>recv_command\<close> is ready with a command, ready with \<open>None\<close> once the channel is empty and
  closed, and pending otherwise; \<open>None\<close> here is pending.
\<close>

record command_channel =
  ch_queue :: "protocol_command list"
  ch_open :: bool

definition recv_command :: "command_channel \<Rightarrow> (protocol_command option \<times> command_channel) option" where
  "recv_command ch =
     (case ch_queue ch of
        c # rest \<Rightarrow> Some (Some c, ch\<lparr>ch_queue := rest\<rparr>)
      | [] \<Rightarrow> if ch_open ch then None else Some (None, ch))"

text \<open>\<open>recv_control\<close>, with its buffer: what the control socket, if bound, received.\<close>

definition CONTROL_BUFFER :: nat where
  "CONTROL_BUFFER = 4096"

definition recv_control ::
    "bool \<Rightarrow> (u8 list \<times> socket_addr, string) result \<Rightarrow> (u8 list \<times> socket_addr, string) result option" where
  "recv_control bound received =
     (if bound then Some (map_sum id (map_prod (take CONTROL_BUFFER) id) received) else None)"

text \<open>
  The daemon: the protocol state, the command channel, the demo sender still asleep, whether the
  control socket is bound, and the event channel.
\<close>

record daemon =
  d_state :: protocol_state
  d_commands :: "command_channel option"
  d_demo :: "protocol_command option"
  d_control :: bool
  d_events :: "bool option"

definition daemon_start :: "node_config \<Rightarrow> command_channel option \<Rightarrow> bool option \<Rightarrow> daemon" where
  "daemon_start config commands events =
     (let d = \<lparr>d_state = protocol_new config, d_commands = commands, d_demo = None,
               d_control = (cfg_control_bind_addr config \<noteq> None), d_events = events\<rparr>
      in case cfg_demo_send config of
           None \<Rightarrow> d
         | Some demo \<Rightarrow>
             if commands = None
             then d\<lparr>d_commands := Some \<lparr>ch_queue = [], ch_open = True\<rparr>,
                    d_demo := Some (DiscoverAndSend (demo_dst_node_id demo)
                                      (into_bytes (demo_payload demo)))\<rparr>
             else d)"

record daemon_output =
  out_sent :: "outbound_packet list"
  out_events :: "protocol_event list"
  out_reply :: "(u8 list \<times> socket_addr) option"
  out_metrics :: "(string \<times> metrics_snapshot) option"

definition silent :: daemon_output where
  "silent = \<lparr>out_sent = [], out_events = [], out_reply = None, out_metrics = None\<rparr>"

definition applied :: "serializer \<Rightarrow> socket \<Rightarrow> daemon \<Rightarrow> handler_result \<Rightarrow> daemon \<times> daemon_output" where
  "applied ser sock d res =
     (let (st', sent, events) = apply_actions ser sock (d_events d) (fst res) (snd res)
      in (d\<lparr>d_state := st'\<rparr>, silent\<lparr>out_sent := sent, out_events := events\<rparr>))"

text \<open>
  What an iteration of the loop reacts to: the branch of \<open>select!\<close> that is ready, with what it
  delivers. The last four come from outside the loop: the demo sender waking up, a command sent
  into or the end of a channel that was passed in, and a hash map changing its iteration order.
\<close>

datatype loop_event =
    HelloTick
  | ProtocolTick u64
  | MetricsTick
  | ControlReady "(u8 list \<times> socket_addr, string) result"
  | PacketReady "(u8 list \<times> socket_addr, string) result"
  | CommandReady "protocol_command option"
  | DemoSent protocol_command
  | OutsideSent protocol_command
  | OutsideClosed
  | Rehashed

text \<open>One iteration of the loop per rule, one rule per branch and outcome.\<close>

inductive daemon_step ::
    "serializer \<Rightarrow> deserializer \<Rightarrow> json_parser \<Rightarrow> daemon \<Rightarrow> loop_event \<Rightarrow> daemon_output \<Rightarrow> daemon \<Rightarrow> bool"
  for ser de from_slice where
  hello_tick:
    "applied ser sock d (d_state d, send_hellos clk (d_state d)) = (d', out) \<Longrightarrow>
       daemon_step ser de from_slice d HelloTick out d'"
| protocol_tick:
    "applied ser sock d (handle_tick clk (d_state d) now) = (d', out) \<Longrightarrow>
       daemon_step ser de from_slice d (ProtocolTick now) out d'"
| metrics_tick:
    "daemon_step ser de from_slice d MetricsTick (silent\<lparr>out_metrics := metrics_file (d_state d)\<rparr>) d"
| control:
    "recv_control (d_control d) received = Some (Inr (bytes, sender)) \<Longrightarrow>
     handle_control_message from_slice clk (d_state d) bytes (d_control d) = (st', acts, reply) \<Longrightarrow>
     applied ser sock d (st', acts) = (d', out) \<Longrightarrow>
       daemon_step ser de from_slice d (ControlReady received)
         (out\<lparr>out_reply := map_option (\<lambda>text. (text, sender)) reply\<rparr>) d'"
| control_failed:
    "recv_control (d_control d) received = Some (Inl err) \<Longrightarrow>
       daemon_step ser de from_slice d (ControlReady received) silent d"
| received:
    "udp_recv de datagram = Inr (packet, sender, len) \<Longrightarrow>
     applied ser sock d (handle_packet clk (protocol_record_rx (d_state d) len) packet sender) = (d', out) \<Longrightarrow>
       daemon_step ser de from_slice d (PacketReady datagram) out d'"
| receive_failed:
    "udp_recv de datagram = Inl err \<Longrightarrow>
       daemon_step ser de from_slice d (PacketReady datagram) silent d"
| command:
    "d_commands d = Some ch \<Longrightarrow> recv_command ch = Some (Some c, ch') \<Longrightarrow>
     applied ser sock (d\<lparr>d_commands := Some ch'\<rparr>) (handle_command clk (d_state d) c) = (d', out) \<Longrightarrow>
       daemon_step ser de from_slice d (CommandReady (Some c)) out d'"
| command_closed:
    "d_commands d = Some ch \<Longrightarrow> recv_command ch = Some (None, ch') \<Longrightarrow>
       daemon_step ser de from_slice d (CommandReady None) silent (d\<lparr>d_commands := Some ch'\<rparr>)"
| demo_wakes:
    "d_demo d = Some c \<Longrightarrow> d_commands d = Some ch \<Longrightarrow>
       daemon_step ser de from_slice d (DemoSent c) silent
         (d\<lparr>d_demo := None, d_commands := Some \<lparr>ch_queue = ch_queue ch @ [c], ch_open = False\<rparr>\<rparr>)"
| outside_sends:
    "d_demo d = None \<Longrightarrow> d_commands d = Some ch \<Longrightarrow> ch_open ch \<Longrightarrow>
       daemon_step ser de from_slice d (OutsideSent c) silent
         (d\<lparr>d_commands := Some (ch\<lparr>ch_queue := ch_queue ch @ [c]\<rparr>)\<rparr>)"
| outside_closes:
    "d_demo d = None \<Longrightarrow> d_commands d = Some ch \<Longrightarrow>
       daemon_step ser de from_slice d OutsideClosed silent (d\<lparr>d_commands := Some (ch\<lparr>ch_open := False\<rparr>)\<rparr>)"
| rehash:
    "rehashed (d_state d) st' \<Longrightarrow>
       daemon_step ser de from_slice d Rehashed silent (d\<lparr>d_state := st'\<rparr>)"

inductive_cases daemon_stepE: "daemon_step ser de from_slice d ev out d'"

definition daemon_moves ::
    "serializer \<Rightarrow> deserializer \<Rightarrow> json_parser \<Rightarrow> daemon \<Rightarrow> daemon \<Rightarrow> bool" where
  "daemon_moves ser de from_slice d d' \<longleftrightarrow> (\<exists>ev out. daemon_step ser de from_slice d ev out d')"

text \<open>A run of the loop with what each iteration reacted to and put out.\<close>

inductive daemon_trace ::
    "serializer \<Rightarrow> deserializer \<Rightarrow> json_parser \<Rightarrow> daemon \<Rightarrow> (loop_event \<times> daemon_output) list \<Rightarrow> daemon \<Rightarrow> bool"
  for ser de from_slice where
  no_iteration: "daemon_trace ser de from_slice d [] d"
| iteration: "daemon_step ser de from_slice d ev out d' \<Longrightarrow> daemon_trace ser de from_slice d' trace d'' \<Longrightarrow>
     daemon_trace ser de from_slice d ((ev, out) # trace) d''"

lemma daemon_trace_moves:
  "daemon_trace ser de from_slice d trace d' \<Longrightarrow> (daemon_moves ser de from_slice)\<^sup>*\<^sup>* d d'"
  by (induction rule: daemon_trace.induct)
    (auto simp: daemon_moves_def intro: converse_rtranclp_into_rtranclp)

section \<open>Hellos\<close>

lemma send_hellos_loop_eq:
  "map ob_dst (pa_outbound (send_hellos_loop clk cfg ns acts)) =
     map ob_dst (pa_outbound acts) @ endpoints_of cfg ns"
  "pa_events (send_hellos_loop clk cfg ns acts) = pa_events acts"
  by (induction clk cfg ns acts rule: send_hellos_loop.induct)
    (auto simp: endpoint_def split: option.splits)

lemma send_hellos_loop_packets:
  "ob \<in> set (pa_outbound (send_hellos_loop clk cfg ns acts)) \<Longrightarrow>
     ob \<in> set (pa_outbound acts) \<or>
     (\<exists>ts n. ob_packet ob = Hello (cfg_node_id cfg) ts \<and> n \<in> set ns \<and> endpoint cfg n = Some (ob_dst ob))"
proof (induction ns arbitrary: clk acts)
  case Nil
  then show ?case by simp
next
  case (Cons n ns)
  show ?case
  proof (cases "topology_node_by_id (cfg_topology cfg) n")
    case None
    then show ?thesis using Cons.IH [of clk acts] Cons.prems by auto
  next
    case (Some node)
    then have "endpoint cfg n = Some (tn_endpoint node)"
      by (simp add: endpoint_def)
    then show ?thesis
      using Some Cons.IH [of "clock_tl clk"
          "actions_send acts (Hello (cfg_node_id cfg) (clk 0)) (tn_endpoint node)"] Cons.prems
      by (auto simp del: clock_tl_apply)
  qed
qed

lemma send_hellos_packets:
  "ob \<in> set (pa_outbound (send_hellos clk st)) \<Longrightarrow>
     \<exists>ts n. ob_packet ob = Hello (self_id st) ts \<and> is_logical_neighbor (ps_config st) n
       \<and> endpoint (ps_config st) n = Some (ob_dst ob)"
  unfolding send_hellos_def is_logical_neighbor_def
  by (drule send_hellos_loop_packets) auto

section \<open>Accounting of the sends\<close>

definition encoded_bytes :: "serializer \<Rightarrow> packet \<Rightarrow> u64" where
  "encoded_bytes ser p = (case packet_encoded_len ser p of Inl _ \<Rightarrow> 0 | Inr n \<Rightarrow> n)"

lemma record_tx_sent:
  assumes "udp_send ser send_to p addr = Inr k"
  shows "m_tx_packets (ps_metrics (protocol_record_tx ser st p)) = m_tx_packets (ps_metrics st) + 1"
    and "m_tx_bytes (ps_metrics (protocol_record_tx ser st p)) =
      m_tx_bytes (ps_metrics st) + encoded_bytes ser p"
    and "m_dropped_packets (ps_metrics (protocol_record_tx ser st p)) = m_dropped_packets (ps_metrics st)"
    and "m_control_bytes (ps_metrics (protocol_record_tx ser st p)) =
      m_control_bytes (ps_metrics st) + (if is_control_packet p then encoded_bytes ser p else 0)"
    and "m_data_bytes (ps_metrics (protocol_record_tx ser st p)) =
      m_data_bytes (ps_metrics st) + (if is_control_packet p then 0 else encoded_bytes ser p)"
  using assms
  by (auto simp: udp_send_def protocol_record_tx_def packet_encoded_len_def encoded_bytes_def
      metrics_record_tx_def Let_def split: sum.splits)

lemma record_tx_frame:
  "(protocol_record_tx ser st p)\<lparr>ps_metrics := m\<rparr> = st\<lparr>ps_metrics := m\<rparr>"
  by (simp add: protocol_record_tx_def split: sum.split)

lemma apply_outbound_length: "length (snd (apply_outbound ser sock st obs)) \<le> length obs"
  by (induction ser sock st obs rule: apply_outbound.induct)
    (auto simp: split_beta le_SucI split: sum.split)

lemma apply_outbound_subseq: "subseq (snd (apply_outbound ser sock st obs)) obs"
  by (induction ser sock st obs rule: apply_outbound.induct) (auto simp: split_beta split: sum.split)

lemma apply_outbound_frame:
  "(fst (apply_outbound ser sock st obs))\<lparr>ps_metrics := m\<rparr> = st\<lparr>ps_metrics := m\<rparr>"
  by (induction ser sock st obs rule: apply_outbound.induct)
    (auto simp: split_beta record_tx_frame split: sum.split)

lemma apply_outbound_counts:
  "m_tx_packets (ps_metrics (fst (apply_outbound ser sock st obs))) =
     m_tx_packets (ps_metrics st) + of_nat (length (snd (apply_outbound ser sock st obs)))"
  "m_tx_bytes (ps_metrics (fst (apply_outbound ser sock st obs))) =
     m_tx_bytes (ps_metrics st)
     + sum_list (map (encoded_bytes ser \<circ> ob_packet) (snd (apply_outbound ser sock st obs)))"
  "m_control_bytes (ps_metrics (fst (apply_outbound ser sock st obs))) =
     m_control_bytes (ps_metrics st)
     + sum_list (map (encoded_bytes ser) (filter is_control_packet (map ob_packet (snd (apply_outbound ser sock st obs)))))"
  "m_data_bytes (ps_metrics (fst (apply_outbound ser sock st obs))) =
     m_data_bytes (ps_metrics st)
     + sum_list (map (encoded_bytes ser) (filter (\<lambda>p. \<not> is_control_packet p) (map ob_packet (snd (apply_outbound ser sock st obs)))))"
  by (induction ser sock st obs rule: apply_outbound.induct)
    (simp_all add: split_beta record_tx_sent algebra_simps split: sum.split)

lemma apply_outbound_dropped:
  "m_dropped_packets (ps_metrics (fst (apply_outbound ser sock st obs)))
     + of_nat (length (snd (apply_outbound ser sock st obs))) =
   m_dropped_packets (ps_metrics st) + of_nat (length obs)"
  by (induction ser sock st obs rule: apply_outbound.induct)
    (simp_all add: split_beta record_tx_sent algebra_simps split: sum.split)

text \<open>Whether a packet can be encoded and the socket takes the bytes.\<close>

definition took :: "serializer \<Rightarrow> send_to \<Rightarrow> outbound_packet \<Rightarrow> bool" where
  "took ser send_to ob =
     (case packet_encode ser (ob_packet ob) of
        Inl _ \<Rightarrow> False
      | Inr bytes \<Rightarrow> (case send_to bytes (ob_dst ob) of Inl _ \<Rightarrow> False | Inr _ \<Rightarrow> True))"

lemma took_udp_send: "took ser send_to ob \<longleftrightarrow> (\<exists>n. udp_send ser send_to (ob_packet ob) (ob_dst ob) = Inr n)"
  by (auto simp: took_def udp_send_def split: sum.split)

lemma apply_outbound_sent:
  "snd (apply_outbound ser sock st obs) = map ((!) obs) (filter (\<lambda>k. took ser (sock k) (obs ! k)) [0..<length obs])"
proof (induction obs arbitrary: sock st)
  case Nil
  then show ?case by simp
next
  case (Cons ob obs)
  have "[0..<length (ob # obs)] = 0 # map Suc [0..<length obs]"
    by (simp add: map_Suc_upt upt_conv_Cons del: upt_Suc)
  then have "map ((!) (ob # obs)) (filter (\<lambda>k. took ser (sock k) ((ob # obs) ! k)) [0..<length (ob # obs)]) =
      (if took ser (sock 0) ob then [ob] else [])
      @ map ((!) obs) (filter (\<lambda>k. took ser (sock (Suc k)) (obs ! k)) [0..<length obs])"
    by (simp add: filter_map comp_def)
  then show ?case
    using Cons.IH [of "\<lambda>i. sock (Suc i)"] by (auto simp: took_udp_send split_beta split: sum.split)
qed


section \<open>The transport carries packets\<close>

text \<open>
  C33. When the codec decodes what it encodes, what a successful send handed to the socket is
  read back by the receiver as the same packet, with the sender's address and its length, if it
  fits the receive buffer.
\<close>

theorem transport_roundtrip:
  assumes codec: "\<forall>p bytes. ser p = Inr bytes \<longrightarrow> de bytes = Inr p"
    and sent: "udp_send ser send_to packet addr = Inr k"
  shows "\<exists>bytes. send_to bytes addr = Inr k
    \<and> packet_encoded_len ser packet = Inr (of_nat (length bytes))
    \<and> (length bytes \<le> RECV_BUFFER \<longrightarrow>
         udp_recv de (Inr (bytes, src)) = Inr (packet, src, of_nat (length bytes)))"
proof -
  obtain bytes where "ser packet = Inr bytes" "send_to bytes addr = Inr k"
    using sent by (auto simp: udp_send_def packet_encode_def split: sum.splits)
  then show ?thesis
    using codec
    by (intro exI [of _ bytes])
      (auto simp: udp_recv_def packet_decode_def packet_encode_def packet_encoded_len_def Let_def)
qed

definition ack_codec_ser :: serializer where
  "ack_codec_ser p = (if p = Ack 1 2 3 then Inr [9] else Inl ''unsupported'')"

definition ack_codec_de :: deserializer where
  "ack_codec_de bytes = (if bytes = [9] then Inr (Ack 1 2 3) else Inl ''malformed'')"

theorem transport_roundtrip_witness:
  "\<exists>bytes. udp_recv ack_codec_de (Inr (bytes, local_addr 7000)) = Inr (Ack 1 2 3, local_addr 7000, 1)"
proof -
  let ?send_to = "\<lambda>bytes _. if bytes = [9] then Inr 1 else Inl ''too long''"
  have "udp_send ack_codec_ser ?send_to (Ack 1 2 3) (local_addr 7001) = Inr 1"
    by (simp add: udp_send_def packet_encode_def ack_codec_ser_def)
  moreover have "\<forall>p bytes. ack_codec_ser p = Inr bytes \<longrightarrow> ack_codec_de bytes = Inr p"
    by (simp add: ack_codec_ser_def ack_codec_de_def)
  ultimately show ?thesis
    using transport_roundtrip [of ack_codec_ser ack_codec_de ?send_to "Ack 1 2 3" "local_addr 7001" 1
        "local_addr 7000"]
    by (auto simp: RECV_BUFFER_def split: if_splits)
qed

section \<open>The daemon as a node\<close>

lemma node_moves_step: "node_step ser st acts st' \<Longrightarrow> (node_moves ser)\<^sup>*\<^sup>* st st'"
  by (rule r_into_rtranclp) (auto simp: node_moves_def)

lemma apply_outbound_moves: "(node_moves ser)\<^sup>*\<^sup>* st (fst (apply_outbound ser sock st obs))"
proof (induction obs arbitrary: sock st)
  case Nil
  then show ?case by simp
next
  case (Cons ob obs)
  let ?sent = "protocol_record_tx ser st (ob_packet ob)"
  let ?failed = "ps_metrics_update (m_dropped_packets_update (\<lambda>n. n + 1)) st"
  have "(node_moves ser)\<^sup>*\<^sup>* st ?sent" "(node_moves ser)\<^sup>*\<^sup>* st ?failed"
    by (auto intro: node_moves_step node_step.sent node_step.send_failed)
  then show ?case
    using Cons.IH [of ?sent] Cons.IH [of ?failed]
    by (auto simp: split_beta split: sum.split intro: rtranclp_trans)
qed

lemma applied_moves:
  assumes "applied ser sock d res = (d', out)" "(node_moves ser)\<^sup>*\<^sup>* st (fst res)"
  shows "(node_moves ser)\<^sup>*\<^sup>* st (d_state d')"
  using assms apply_outbound_moves [of ser "fst res" sock "pa_outbound (snd res)"]
  by (auto simp: applied_def apply_actions_def split_beta)

lemma handlers_move:
  "(node_moves ser)\<^sup>*\<^sup>* st (fst (handle_packet clk st p sender))"
  "(node_moves ser)\<^sup>*\<^sup>* st (fst (handle_command clk st c))"
  "(node_moves ser)\<^sup>*\<^sup>* st (fst (handle_tick clk st now))"
  "(node_moves ser)\<^sup>*\<^sup>* st (protocol_record_rx st len)"
  by (auto intro!: node_moves_step
      intro: node_step.packet node_step.command node_step.tick node_step.received simp: prod_eq_iff)

lemma control_moves:
  assumes "handle_control_message from_slice clk st bytes s = (st', acts, reply)"
  shows "(node_moves ser)\<^sup>*\<^sup>* st st'"
  using assms handlers_move(2) [of ser st clk]
  by (auto simp: handle_control_message_def split_beta simp del: handle_command.simps split: sum.splits)

lemma daemon_step_moves:
  assumes "daemon_step ser de from_slice d ev out d'"
  shows "(node_moves ser)\<^sup>*\<^sup>* (d_state d) (d_state d')"
  using assms
proof (cases rule: daemon_step.cases)
  case (hello_tick sock clk)
  then show ?thesis by (auto intro: applied_moves)
next
  case (protocol_tick sock clk)
  then show ?thesis using handlers_move(3) applied_moves by blast
next
  case (control datagram bytes sender clk st' acts reply sock out)
  then show ?thesis using control_moves applied_moves [OF control(5)] by simp
next
  case (received datagram packet sender len sock clk)
  let ?rx = "protocol_record_rx (d_state d) len"
  have "(node_moves ser)\<^sup>*\<^sup>* (d_state d) (fst (handle_packet clk ?rx packet sender))"
    using handlers_move(4) handlers_move(1) by (rule rtranclp_trans)
  then show ?thesis using received applied_moves by blast
next
  case (command ch c ch' sock clk)
  then show ?thesis using handlers_move(2) applied_moves by blast
next
  case (rehash st')
  then show ?thesis by (auto intro: node_moves_step node_step.rehash)
qed simp_all

abbreviation no_codec :: serializer where
  "no_codec \<equiv> \<lambda>_. Inl ''unsupported''"

abbreviation broken_socket :: socket where
  "broken_socket \<equiv> \<lambda>_ _ _. Inl ''unreachable''"

lemma daemon_start_state [simp]: "d_state (daemon_start cfg commands events) = protocol_new cfg"
  by (simp add: daemon_start_def Let_def split: option.split)

lemma daemon_step_inv:
  assumes "daemon_step ser de from_slice d ev out d'"
  shows "node_inv (d_state d) \<Longrightarrow> node_inv (d_state d')"
  using node.inv_steps [OF daemon_step_moves [OF assms]] .

interpretation dm: transition_invariant "\<lambda>d. \<exists>cfg commands events. d = daemon_start cfg commands events"
    "daemon_moves ser de from_slice" "\<lambda>d. node_inv (d_state d)"
  for ser de from_slice
  by unfold_locales (auto simp: node_inv_new daemon_moves_def dest: daemon_step_inv)

text \<open>
  C12. Whatever a daemon receives, in whatever order, and whatever its sockets answer, its
  tables stay well formed: labels identify neighbours and are never 0, only logical neighbours
  are in the tables, cached routes are filed under their destinations, the duplicate cache stays
  within its bound, and the counters agree with each other.
\<close>

theorem daemon_tables_wf:
  assumes "(daemon_moves ser de from_slice)\<^sup>*\<^sup>* (daemon_start cfg commands events) d"
  shows "tables_wf (d_state d) \<and> seen_wf (d_state d) \<and> counters_wf (d_state d)"
  using dm.inv_reachable [OF _ assms] by (auto simp: node_inv_def)

text \<open>
  C10. No payload is stranded: in every reachable state of a daemon, each payload that waits for
  a route has a discovery under way, retried at most as often as configured.
\<close>

theorem no_payload_stranded:
  assumes "(daemon_moves ser de from_slice)\<^sup>*\<^sup>* (daemon_start cfg commands events) d"
    and "p \<in> set (ps_pending_data (d_state d))"
  shows "\<exists>s. hm_get (ps_discoveries (d_state d)) (pd_dst_node_id p) = Some s
    \<and> ds_retries_done s \<le> cfg_route_discovery_max_retries (ps_config (d_state d))"
proof -
  have "node_inv (d_state d)"
    using dm.inv_reachable [OF _ assms(1)] by blast
  then have wf: "hm_wf (ps_discoveries (d_state d))" "hm_get (ps_discoveries (d_state d)) (pd_dst_node_id p) \<noteq> None"
    "\<forall>(k, s) \<in> set (ps_discoveries (d_state d)).
       ds_retries_done s \<le> cfg_route_discovery_max_retries (ps_config (d_state d))"
    using assms(2) by (auto simp: node_inv_def queue_wf_def)
  then show ?thesis
    using hm.items_get [OF wf(1)] by fastforce
qed

lemma apply_outbound_sel [simp]:
  "ps_config (fst (apply_outbound ser sock st obs)) = ps_config st"
  "ps_pending_data (fst (apply_outbound ser sock st obs)) = ps_pending_data st"
  "ps_discoveries (fst (apply_outbound ser sock st obs)) = ps_discoveries st"
proof -
  have frame: "f (fst (apply_outbound ser sock st obs)) = f st" if "\<And>s m. f (s\<lparr>ps_metrics := m\<rparr>) = f s"
    for f :: "protocol_state \<Rightarrow> 'a"
    using apply_outbound_frame that by metis
  show "ps_config (fst (apply_outbound ser sock st obs)) = ps_config st"
    "ps_pending_data (fst (apply_outbound ser sock st obs)) = ps_pending_data st"
    "ps_discoveries (fst (apply_outbound ser sock st obs)) = ps_discoveries st"
    by (rule frame; simp)+
qed

lemma applied_sel [simp]:
  "d_commands (fst (applied ser sock d res)) = d_commands d"
  "d_demo (fst (applied ser sock d res)) = d_demo d"
  "d_state (fst (applied ser sock d res)) = fst (apply_outbound ser sock (fst res) (pa_outbound (snd res)))"
  by (simp_all add: applied_def apply_actions_def split_beta)

lemma command_step:
  assumes "d_commands d = Some \<lparr>ch_queue = c # rest, ch_open = b\<rparr>"
  shows "daemon_moves ser de from_slice d
    (fst (applied ser sock (d\<lparr>d_commands := Some \<lparr>ch_queue = rest, ch_open = b\<rparr>\<rparr>)
      (handle_command clk (d_state d) c)))"
  unfolding daemon_moves_def
  by (rule exI, rule exI, rule daemon_step.command [OF assms]) (simp_all add: recv_command_def prod_eq_iff)

text \<open>A daemon that has taken a command from its channel and started a discovery.\<close>

definition commanded :: daemon where
  "commanded =
     fst (applied no_codec broken_socket
       ((daemon_start (chain_config 0 Dsr) (Some \<lparr>ch_queue = [DiscoverAndSend 3 [1, 2]], ch_open = True\<rparr>) None)
          \<lparr>d_commands := Some \<lparr>ch_queue = [], ch_open = True\<rparr>\<rparr>)
       (handle_command (\<lambda>_. 100) (chain_node 0 Dsr) (DiscoverAndSend 3 [1, 2])))"

lemma commanded_reachable:
  "(daemon_moves no_codec de parse)\<^sup>*\<^sup>*
     (daemon_start (chain_config 0 Dsr) (Some \<lparr>ch_queue = [DiscoverAndSend 3 [1, 2]], ch_open = True\<rparr>) None) commanded"
proof -
  let ?d = "daemon_start (chain_config 0 Dsr) (Some \<lparr>ch_queue = [DiscoverAndSend 3 [1, 2]], ch_open = True\<rparr>) None"
  have "d_commands ?d = Some \<lparr>ch_queue = [DiscoverAndSend 3 [1, 2]], ch_open = True\<rparr>"
    by (simp add: daemon_start_def chain_config_def)
  from command_step [OF this, of no_codec de parse broken_socket "\<lambda>_. 100"] show ?thesis
    unfolding commanded_def daemon_start_state by (rule r_into_rtranclp)
qed

theorem daemon_tables_wf_witness:
  "tables_wf (d_state commanded) \<and> seen_wf (d_state commanded) \<and> counters_wf (d_state commanded)"
  using daemon_tables_wf [OF commanded_reachable] .

theorem no_payload_stranded_witness:
  "hm_get (ps_discoveries (fst (discover_and_send (\<lambda>_. 100) (chain_node 0 Dsr) 3 [1, 2]))) 3 \<noteq> None"
  using no_payload_stranded [OF commanded_reachable, of "\<lparr>pd_dst_node_id = 3, pd_payload = [1, 2]\<rparr>"]
  by (auto simp: commanded_def chain_discover_pending)

section \<open>A closed command channel\<close>

text \<open>
  The demo sender drops its end of the channel once it has sent. From then on the channel is
  empty and closed as soon as the command is taken.
\<close>

definition demo_phase :: "protocol_command \<Rightarrow> daemon \<Rightarrow> bool" where
  "demo_phase c d \<longleftrightarrow>
     d_demo d = Some c \<and> d_commands d = Some \<lparr>ch_queue = [], ch_open = True\<rparr>
     \<or> d_demo d = None \<and> d_commands d = Some \<lparr>ch_queue = [c], ch_open = False\<rparr>
     \<or> d_demo d = None \<and> d_commands d = Some \<lparr>ch_queue = [], ch_open = False\<rparr>"

definition closed_phase :: "daemon \<Rightarrow> bool" where
  "closed_phase d \<longleftrightarrow> d_demo d = None \<and> d_commands d = Some \<lparr>ch_queue = [], ch_open = False\<rparr>"

lemma applied_channel:
  "applied ser sock d res = (d', out) \<Longrightarrow> d_commands d' = d_commands d \<and> d_demo d' = d_demo d"
  using applied_sel(1,2) [of ser sock d res] by simp

lemma closed_phase_step:
  assumes "closed_phase d" "daemon_step ser de from_slice d ev out d'"
  shows "closed_phase d'"
  using assms(2,1)
  by (cases rule: daemon_step.cases)
    (auto simp: closed_phase_def recv_command_def dest!: applied_channel)

lemma demo_phase_step:
  assumes "demo_phase c d" "daemon_step ser de from_slice d ev out d'"
  shows "demo_phase c d'"
  using assms(2,1)
  by (cases rule: daemon_step.cases)
    (auto simp: demo_phase_def recv_command_def dest!: applied_channel split: if_splits)

text \<open>
  C34. Once a node started with a demo sender has taken the demo command, its event loop never
  waits again: in every later state the command branch is ready at once with no command and its
  iteration changes nothing, so the loop spins.
\<close>

theorem demo_leaves_spinning_loop:
  assumes demo: "cfg_demo_send cfg = Some demo"
    and run: "(daemon_moves ser de from_slice)\<^sup>*\<^sup>* (daemon_start cfg None events) d"
    and taken: "d_demo d = None" "\<exists>b. d_commands d = Some \<lparr>ch_queue = [], ch_open = b\<rparr>"
    and later: "(daemon_moves ser de from_slice)\<^sup>*\<^sup>* d d'"
  shows "\<exists>ch. d_commands d' = Some ch \<and> recv_command ch = Some (None, ch)
    \<and> daemon_step ser de from_slice d' (CommandReady None) silent d'"
proof -
  have "\<exists>c. demo_phase c (daemon_start cfg None events)"
    using demo by (simp add: daemon_start_def demo_phase_def)
  with run have "\<exists>c. demo_phase c d"
    by (induction rule: rtranclp_induct) (auto simp: daemon_moves_def dest: demo_phase_step)
  then have "closed_phase d"
    using taken by (auto simp: demo_phase_def closed_phase_def)
  with later have closed: "closed_phase d'"
    by (induction rule: rtranclp_induct) (auto simp: daemon_moves_def dest: closed_phase_step)
  let ?ch = "\<lparr>ch_queue = [], ch_open = False\<rparr>"
  have "d'\<lparr>d_commands := Some ?ch\<rparr> = d'"
    using closed by (cases d') (simp add: closed_phase_def)
  moreover have "daemon_step ser de from_slice d' (CommandReady None) silent (d'\<lparr>d_commands := Some ?ch\<rparr>)"
    using closed by (intro daemon_step.command_closed [of _ ?ch])
      (simp_all add: closed_phase_def recv_command_def)
  ultimately show ?thesis
    using closed by (simp add: closed_phase_def recv_command_def)
qed

theorem demo_leaves_spinning_loop_witness:
  "\<exists>d. (daemon_moves no_codec (\<lambda>_. Inl []) (\<lambda>_. Inl []))\<^sup>*\<^sup>*
       (daemon_start ((chain_config 0 Dsr)\<lparr>cfg_demo_send := Some \<lparr>demo_dst_node_id = 3,
          demo_payload = ''hi'', demo_start_after_ms = 2000\<rparr>\<rparr>) None None) d
     \<and> daemon_step no_codec (\<lambda>_. Inl []) (\<lambda>_. Inl []) d (CommandReady None) silent d"
proof -
  let ?demo = "\<lparr>demo_dst_node_id = 3, demo_payload = ''hi'', demo_start_after_ms = 2000\<rparr>"
  let ?cfg = "(chain_config 0 Dsr)\<lparr>cfg_demo_send := Some ?demo\<rparr>"
  let ?c = "DiscoverAndSend 3 (into_bytes ''hi'')"
  let ?moves = "daemon_moves no_codec (\<lambda>_. Inl []) (\<lambda>_. Inl [])"
  let ?d0 = "daemon_start ?cfg None None"
  let ?d1 = "?d0\<lparr>d_demo := None, d_commands := Some \<lparr>ch_queue = [?c], ch_open = False\<rparr>\<rparr>"
  let ?d2 = "fst (applied no_codec broken_socket (?d1\<lparr>d_commands := Some \<lparr>ch_queue = [], ch_open = False\<rparr>\<rparr>)
      (handle_command (\<lambda>_. 100) (d_state ?d1) ?c))"
  have "daemon_step no_codec (\<lambda>_. Inl []) (\<lambda>_. Inl []) ?d0 (DemoSent ?c) silent ?d1"
    using daemon_step.demo_wakes [of ?d0 ?c "\<lparr>ch_queue = [], ch_open = True\<rparr>"]
    by (simp add: daemon_start_def)
  then have "?moves ?d0 ?d1"
    by (auto simp: daemon_moves_def)
  moreover have "?moves ?d1 ?d2"
    by (rule command_step) simp
  ultimately have run: "?moves\<^sup>*\<^sup>* ?d0 ?d2"
    by (meson converse_rtranclp_into_rtranclp r_into_rtranclp)
  have "daemon_step no_codec (\<lambda>_. Inl []) (\<lambda>_. Inl []) ?d2 (CommandReady None) silent ?d2"
    using demo_leaves_spinning_loop [of ?cfg ?demo, OF _ run _ _ rtranclp.rtrancl_refl] by force
  with run show ?thesis by blast
qed

end
