(* ===== verification/Network.thy ===== *)
theory Network
  imports Daemon
begin

text \<open>
  Many nodes on one topology. The wire may lose, duplicate, delay and reorder packets; no node
  forges them. Invariants of the whole network: what every packet in flight and every cached
  route says about the topology and about the label tables of other nodes.
\<close>

section \<open>Topology\<close>

definition links :: "topology \<Rightarrow> u32 \<Rightarrow> u32 \<Rightarrow> bool" where
  "links T a b \<longleftrightarrow>
     (case topology_node_by_id T a of None \<Rightarrow> False | Some node \<Rightarrow> b \<in> set (tn_neighbors node))"

definition node_addr :: "topology \<Rightarrow> u32 \<Rightarrow> socket_addr option" where
  "node_addr T i = map_option tn_endpoint (topology_node_by_id T i)"

text \<open>
  A topology a network can run on: ids and endpoints are unique, every listed neighbour has an
  entry, and no node lists itself.
\<close>

definition net_topology :: "topology \<Rightarrow> bool" where
  "net_topology T \<longleftrightarrow>
     topology_wf T
     \<and> (\<forall>node \<in> set (topo_nodes T). \<forall>n \<in> set (tn_neighbors node).
          n \<noteq> tn_node_id node \<and> n \<in> tn_node_id ` set (topo_nodes T))"

definition configured :: "topology \<Rightarrow> protocol_mode \<Rightarrow> (u32 \<Rightarrow> node_config) \<Rightarrow> bool" where
  "configured T mode cfgs \<longleftrightarrow>
     net_topology T
     \<and> (\<forall>i. cfg_topology (cfgs i) = T \<and> cfg_node_id (cfgs i) = i \<and> cfg_protocol_mode (cfgs i) = mode)"

lemma node_addr_inj:
  "net_topology T \<Longrightarrow> node_addr T i = Some a \<Longrightarrow> node_addr T j = Some a \<Longrightarrow> i = j"
  by (auto simp: net_topology_def node_addr_def topology_node_by_id_Some topology_wf_def
      distinct_map inj_on_def)

lemma links_addr: "net_topology T \<Longrightarrow> links T a b \<Longrightarrow> \<exists>ad. node_addr T b = Some ad"
  by (fastforce simp: links_def node_addr_def net_topology_def topology_node_by_id_Some
      split: option.splits)

lemma links_irrefl: "net_topology T \<Longrightarrow> \<not> links T a a"
  by (auto simp: links_def net_topology_def topology_node_by_id_Some split: option.splits)

lemma configured_sel:
  assumes "configured T mode cfgs"
  shows "cfg_topology (cfgs i) = T" "cfg_node_id (cfgs i) = i" "cfg_protocol_mode (cfgs i) = mode"
    "net_topology T"
    "is_logical_neighbor (cfgs i) n \<longleftrightarrow> links T i n"
    "endpoint (cfgs i) n = node_addr T n"
    "node_id_by_endpoint (cfgs i) a = Some n \<longleftrightarrow> node_addr T n = Some a"
proof -
  show cfg: "cfg_topology (cfgs i) = T" "cfg_node_id (cfgs i) = i" "cfg_protocol_mode (cfgs i) = mode"
      "net_topology T"
    using assms by (auto simp: configured_def)
  show "is_logical_neighbor (cfgs i) n \<longleftrightarrow> links T i n"
    by (auto simp: is_logical_neighbor_def logical_neighbors_def links_def cfg split: option.splits)
  show "endpoint (cfgs i) n = node_addr T n"
    by (simp add: endpoint_def node_addr_def cfg)
  have "topology_wf T"
    using cfg(4) by (simp add: net_topology_def)
  then show "node_id_by_endpoint (cfgs i) a = Some n \<longleftrightarrow> node_addr T n = Some a"
    by (auto simp: node_id_by_endpoint_def node_addr_def cfg topology_node_by_id_Some
        topology_wf_def find_distinct_iff)
qed

section \<open>Routes over the network\<close>

text \<open>
  \<open>tab a b\<close> is the label node \<open>a\<close> has assigned to node \<open>b\<close>. A path is real when consecutive
  nodes list each other; a label path describes it when label number \<open>k\<close> is the one the
  \<open>k\<close>-th node assigned to the next.
\<close>

type_synonym label_view = "u32 \<Rightarrow> u32 \<Rightarrow> u8 option"

definition real_path :: "topology \<Rightarrow> u32 list \<Rightarrow> bool" where
  "real_path T p \<longleftrightarrow> p \<noteq> [] \<and> (\<forall>k. Suc k < length p \<longrightarrow> links T (p ! k) (p ! Suc k) \<and> links T (p ! Suc k) (p ! k))"

definition labels_describe :: "label_view \<Rightarrow> u32 list \<Rightarrow> u8 list \<Rightarrow> bool" where
  "labels_describe tab p ls \<longleftrightarrow>
     length p = Suc (length ls) \<and> (\<forall>k < length ls. tab (p ! k) (p ! Suc k) = Some (ls ! k))"

definition route_ok :: "topology \<Rightarrow> protocol_mode \<Rightarrow> label_view \<Rightarrow> u32 list \<Rightarrow> u8 list \<Rightarrow> bool" where
  "route_ok T mode tab p ls \<longleftrightarrow> real_path T p \<and> (mode = DlDsr \<longrightarrow> labels_describe tab p ls)"

text \<open>A route from \<open>src\<close> to \<open>dst\<close> that meets \<open>dst\<close> only at its end.\<close>

definition full_route ::
    "topology \<Rightarrow> protocol_mode \<Rightarrow> label_view \<Rightarrow> u32 \<Rightarrow> u32 \<Rightarrow> u32 list \<Rightarrow> u8 list \<Rightarrow> bool" where
  "full_route T mode tab src dst p ls \<longleftrightarrow>
     route_ok T mode tab p ls \<and> hd p = src \<and> last p = dst \<and> dst \<notin> set (butlast p)
     \<and> 2 \<le> length p \<and> length p \<le> 257"

definition view_le :: "label_view \<Rightarrow> label_view \<Rightarrow> bool" where
  "view_le tab tab' \<longleftrightarrow> (\<forall>a b l. tab a b = Some l \<longrightarrow> tab' a b = Some l)"

lemma view_le_refl [simp]: "view_le tab tab"
  by (simp add: view_le_def)

lemma route_ok_mono: "view_le tab tab' \<Longrightarrow> route_ok T mode tab p ls \<Longrightarrow> route_ok T mode tab' p ls"
  by (auto simp: route_ok_def labels_describe_def view_le_def)

lemma full_route_mono:
  "view_le tab tab' \<Longrightarrow> full_route T mode tab src dst p ls \<Longrightarrow> full_route T mode tab' src dst p ls"
  by (auto simp: full_route_def route_ok_mono)

lemma real_path_single [simp]: "real_path T [n]"
  by (simp add: real_path_def)

lemma real_path_snoc:
  assumes "real_path T p" "links T (last p) n" "links T n (last p)"
  shows "real_path T (p @ [n])"
proof -
  have "links T ((p @ [n]) ! k) ((p @ [n]) ! Suc k) \<and> links T ((p @ [n]) ! Suc k) ((p @ [n]) ! k)"
    if "k < length p" for k
  proof (cases "Suc k < length p")
    case True
    then show ?thesis using assms(1) by (auto simp: real_path_def nth_append)
  next
    case False
    with that have "k = length p - 1" "p \<noteq> []" by auto
    then show ?thesis using assms(2,3) that by (simp add: nth_append last_conv_nth)
  qed
  then show ?thesis by (simp add: real_path_def)
qed

lemma labels_describe_snoc:
  assumes "labels_describe tab p ls" "tab (last p) n = Some l"
  shows "labels_describe tab (p @ [n]) (ls @ [l])"
proof -
  have "last p = p ! length ls"
    using assms(1) by (cases p rule: rev_cases) (auto simp: labels_describe_def nth_append)
  then show ?thesis
    using assms by (auto simp: labels_describe_def nth_append less_Suc_eq)
qed

lemma real_path_step:
  "real_path T p \<Longrightarrow> Suc k < length p \<Longrightarrow> links T (p ! k) (p ! Suc k) \<and> links T (p ! Suc k) (p ! k)"
  by (simp add: real_path_def)

lemma full_route_start:
  "full_route T mode tab src dst p ls \<Longrightarrow> p ! 0 = src \<and> Suc 0 < length p"
  by (cases p) (auto simp: full_route_def)

section \<open>The network\<close>

record network =
  net_nodes :: "u32 \<Rightarrow> protocol_state"
  net_wire :: "(socket_addr \<times> packet \<times> socket_addr) set"
  net_issued :: "(u32 \<times> u32 \<times> u8 list) set"
  net_reported :: "(u32 \<times> protocol_event) set"

definition net_start :: "(u32 \<Rightarrow> node_config) \<Rightarrow> network" where
  "net_start cfgs =
     \<lparr>net_nodes = (\<lambda>i. protocol_new (cfgs i)), net_wire = {}, net_issued = {}, net_reported = {}\<rparr>"

text \<open>Node \<open>i\<close>, at address \<open>a\<close>, takes a step: its packets go on the wire, its events are reported.\<close>

definition net_apply :: "network \<Rightarrow> u32 \<Rightarrow> socket_addr \<Rightarrow> handler_result \<Rightarrow> network" where
  "net_apply N i a res =
     N\<lparr>net_nodes := (net_nodes N)(i := fst res),
       net_wire := net_wire N \<union> (\<lambda>ob. (a, ob_packet ob, ob_dst ob)) ` set (pa_outbound (snd res)),
       net_reported := net_reported N \<union> Pair i ` set (pa_events (snd res))\<rparr>"

inductive net_step :: "topology \<Rightarrow> network \<Rightarrow> network \<Rightarrow> bool" for T where
  hello:
    "node_addr T i = Some a \<Longrightarrow>
       net_step T N (net_apply N i a (net_nodes N i, send_hellos clk (net_nodes N i)))"
| deliver:
    "node_addr T i = Some a \<Longrightarrow> (sender, p, a) \<in> net_wire N \<Longrightarrow>
       net_step T N (net_apply N i a (handle_packet clk (net_nodes N i) p sender))"
| command:
    "node_addr T i = Some a \<Longrightarrow>
       net_step T N
         (net_apply (N\<lparr>net_issued := insert (i, dst, payload) (net_issued N)\<rparr>) i a
           (handle_command clk (net_nodes N i) (DiscoverAndSend dst payload)))"
| tick:
    "node_addr T i = Some a \<Longrightarrow>
       net_step T N (net_apply N i a (handle_tick clk (net_nodes N i) now))"
| account:
    "node_addr T i = Some a \<Longrightarrow> node_step ser (net_nodes N i) no_actions st' \<Longrightarrow>
     st' = (net_nodes N i)\<lparr>ps_metrics := m\<rparr> \<Longrightarrow>
       net_step T N (net_apply N i a (st', no_actions))"
| rehash:
    "node_addr T i = Some a \<Longrightarrow> rehashed (net_nodes N i) st' \<Longrightarrow>
       net_step T N (net_apply N i a (st', no_actions))"

end
