(* ===== verification/Network_Handlers.thy ===== *)
theory Network_Handlers
  imports Network
begin

text \<open>
  The invariant of the network, and that every handler, run on any node with any packet in
  flight, returns a state, packets and events that satisfy it again.
\<close>

section \<open>What packets, states and events say\<close>

type_synonym commands = "(u32 \<times> u32 \<times> u8 list) set"

text \<open>
  A packet on the wire from \<open>sender\<close> to \<open>to\<close>. A request carries the real path it took, with the
  labels along it; a reply and a data packet carry a full route, and the cursor of a data packet
  points at the node it is on its way to, which is the node after the one it left.
\<close>

fun packet_ok ::
    "topology \<Rightarrow> protocol_mode \<Rightarrow> label_view \<Rightarrow> commands \<Rightarrow> socket_addr \<Rightarrow> packet \<Rightarrow> socket_addr \<Rightarrow> bool" where
  "packet_ok T mode tab cmds sender (Hello src _) to \<longleftrightarrow> node_addr T src = Some sender"
| "packet_ok T mode tab cmds sender (HelloReply src dst label _ _) to \<longleftrightarrow> tab src dst = Some label"
| "packet_ok T mode tab cmds sender (Rreq src dst _ prev hops dsr labels trace _) to \<longleftrightarrow>
     trace = dsr \<and> route_ok T mode tab dsr labels \<and> hd dsr = src \<and> last dsr = prev
     \<and> length dsr = Suc (unat hops) \<and> dst \<notin> set (tl dsr)
     \<and> (\<exists>n. node_addr T n = Some to \<and> links T prev n)"
| "packet_ok T mode tab cmds sender (Rrep src dst _ dsr labels trace _) to \<longleftrightarrow>
     trace = dsr \<and> full_route T mode tab src dst dsr labels"
| "packet_ok T mode tab cmds sender (Data src dst _ m cursor dsr labels payload _) to \<longleftrightarrow>
     m = mode \<and> full_route T mode tab src dst dsr labels \<and> (src, dst, payload) \<in> cmds
     \<and> (\<exists>k. unat cursor = Suc k \<and> Suc k < length dsr
          \<and> node_addr T (dsr ! k) = Some sender \<and> node_addr T (dsr ! Suc k) = Some to)"
| "packet_ok T mode tab cmds sender (Ack _ _ _) to \<longleftrightarrow> False"
| "packet_ok T mode tab cmds sender (Error _ _ _) to \<longleftrightarrow> False"

definition state_ok ::
    "topology \<Rightarrow> protocol_mode \<Rightarrow> label_view \<Rightarrow> commands \<Rightarrow> u32 \<Rightarrow> protocol_state \<Rightarrow> bool" where
  "state_ok T mode tab cmds i st \<longleftrightarrow>
     node_inv st
     \<and> tab i = label_of (ps_neighbors st)
     \<and> (\<forall>n e. neighbor_get (ps_neighbors st) n = Some e \<longrightarrow> node_addr T n = Some (ne_endpoint e))
     \<and> (\<forall>a l. label_assigned_by_neighbor (ps_labels st) a = Some l \<longrightarrow> tab a i = Some l)
     \<and> (\<forall>d r. r \<in> routes_to (ps_routes st) d \<longrightarrow>
          full_route T mode tab i d (re_dsr_path r) (re_dldsr_label_path r))
     \<and> (\<forall>p \<in> set (ps_pending_data st). (i, pd_dst_node_id p, pd_payload p) \<in> cmds)"

text \<open>
  Payloads are delivered at their destination and were issued at their source; payloads are
  dropped only because a discovery failed.
\<close>

fun event_ok :: "commands \<Rightarrow> u32 \<Rightarrow> protocol_event \<Rightarrow> bool" where
  "event_ok cmds i (DataDelivered n src dst _ payload) \<longleftrightarrow> n = i \<and> dst = i \<and> (src, dst, payload) \<in> cmds"
| "event_ok cmds i (DataDropped _ _ reason) \<longleftrightarrow> reason = DiscoveryFailed"
| "event_ok cmds i _ \<longleftrightarrow> True"

lemma packet_ok_mono:
  "view_le tab tab' \<Longrightarrow> cmds \<subseteq> cmds' \<Longrightarrow> packet_ok T mode tab cmds sender p to \<Longrightarrow>
     packet_ok T mode tab' cmds' sender p to"
  by (cases p) (auto simp: route_ok_mono full_route_mono, auto simp: view_le_def)

lemma event_ok_mono: "cmds \<subseteq> cmds' \<Longrightarrow> event_ok cmds i ev \<Longrightarrow> event_ok cmds' i ev"
  by (cases ev) auto

text \<open>The label view and the wire of a network, and its invariant.\<close>

definition net_view :: "network \<Rightarrow> label_view" where
  "net_view N i = label_of (ps_neighbors (net_nodes N i))"

definition net_ok :: "topology \<Rightarrow> protocol_mode \<Rightarrow> (u32 \<Rightarrow> node_config) \<Rightarrow> network \<Rightarrow> bool" where
  "net_ok T mode cfgs N \<longleftrightarrow>
     (\<forall>i. ps_config (net_nodes N i) = cfgs i
        \<and> state_ok T mode (net_view N) (net_issued N) i (net_nodes N i))
     \<and> (\<forall>(sender, p, to) \<in> net_wire N. packet_ok T mode (net_view N) (net_issued N) sender p to)
     \<and> (\<forall>(i, ev) \<in> net_reported N. event_ok (net_issued N) i ev)"

text \<open>What a handler owes: a state, packets and events that are fine again.\<close>

definition result_ok ::
    "topology \<Rightarrow> protocol_mode \<Rightarrow> label_view \<Rightarrow> commands \<Rightarrow> u32 \<Rightarrow> socket_addr \<Rightarrow> handler_result \<Rightarrow> bool" where
  "result_ok T mode tab cmds i a res \<longleftrightarrow>
     (let tab' = tab(i := label_of (ps_neighbors (fst res)))
      in view_le tab tab' \<and> state_ok T mode tab' cmds i (fst res)
         \<and> (\<forall>ob \<in> set (pa_outbound (snd res)). packet_ok T mode tab' cmds a (ob_packet ob) (ob_dst ob))
         \<and> (\<forall>ev \<in> set (pa_events (snd res)). event_ok cmds i ev))"

lemma state_ok_mono:
  assumes "view_le tab tab'" "cmds \<subseteq> cmds'" "tab' i = tab i" "state_ok T mode tab cmds i st"
  shows "state_ok T mode tab' cmds' i st"
proof -
  have "tab' a i = Some l" if "label_assigned_by_neighbor (ps_labels st) a = Some l" for a l
    using assms(1,4) that by (simp add: view_le_def state_ok_def)
  then show ?thesis
    using assms(2-4) full_route_mono [OF assms(1)] by (auto simp: state_ok_def)
qed

text \<open>A handler that leaves the tables, labels and routes alone and queues nothing.\<close>

definition same_core :: "protocol_state \<Rightarrow> protocol_state \<Rightarrow> bool" where
  "same_core st st' \<longleftrightarrow>
     ps_config st' = ps_config st \<and> ps_neighbors st' = ps_neighbors st
     \<and> ps_labels st' = ps_labels st \<and> ps_routes st' = ps_routes st
     \<and> set (ps_pending_data st') \<subseteq> set (ps_pending_data st)"

lemma same_core_refl [simp]: "same_core st st"
  by (simp add: same_core_def)

lemma same_core_trans: "same_core st st' \<Longrightarrow> same_core st' st'' \<Longrightarrow> same_core st st''"
  by (auto simp: same_core_def)

lemma same_core_updates [simp]:
  "same_core st (ps_metrics_update f st)" "same_core st (ps_seen_requests_update g st)"
  "same_core st (ps_next_sequence_update h st)" "same_core st (ps_discoveries_update k st)"
  by (simp_all add: same_core_def)

lemma state_ok_core:
  assumes "state_ok T mode tab cmds i st" "same_core st st'" "node_inv st'"
  shows "state_ok T mode tab cmds i st'"
  using assms by (auto simp: state_ok_def same_core_def)

lemma result_ok_core:
  assumes "state_ok T mode tab cmds i st" "same_core st (fst res)" "node_inv (fst res)"
    and "\<And>ob. ob \<in> set (pa_outbound (snd res)) \<Longrightarrow> packet_ok T mode tab cmds a (ob_packet ob) (ob_dst ob)"
    and "\<And>ev. ev \<in> set (pa_events (snd res)) \<Longrightarrow> event_ok cmds i ev"
  shows "result_ok T mode tab cmds i a res"
proof -
  have "tab(i := label_of (ps_neighbors (fst res))) = tab"
    using assms(1,2) by (auto simp: state_ok_def same_core_def)
  then show ?thesis
    using assms state_ok_core [OF assms(1-3)] by (simp add: result_ok_def)
qed

lemma state_ok_inv: "state_ok T mode tab cmds i st \<Longrightarrow> node_inv st"
  by (simp add: state_ok_def)

lemma result_ok_silent: "state_ok T mode tab cmds i st \<Longrightarrow> result_ok T mode tab cmds i a (st, no_actions)"
  by (rule result_ok_core [of _ _ _ _ _ st]) (auto simp: state_ok_def)

section \<open>Hello exchange\<close>

lemma hello_result_ok:
  assumes cfg: "configured T mode cfgs" "ps_config st = cfgs i"
    and st: "state_ok T mode tab cmds i st"
    and addr: "node_addr T src = Some sender"
  shows "result_ok T mode tab cmds i a (handle_hello clk st src ts sender)"
proof (cases "is_logical_neighbor (ps_config st) src")
  case False
  then show ?thesis
    using result_ok_silent [OF st] by (simp add: handle_hello_def)
next
  case True
  let ?t = "ps_neighbors st"
  obtain t' r where asg: "assign_or_reuse_label ?t src sender (clk 0) = (t', r)"
    by (cases "assign_or_reuse_label ?t src sender (clk 0)")
  have wf: "neighbor_table_wf ?t"
    using st by (simp add: state_ok_def node_inv_def tables_wf_def)
  show ?thesis
  proof (cases r)
    case (Inl e)
    then have "t' = ?t"
      using nt.assign_error [OF wf, of src sender "clk 0" e] asg by simp
    then show ?thesis
      using result_ok_silent [OF st] asg Inl True by (simp add: handle_hello_def)
  next
    case (Inr l)
    let ?res = "handle_hello clk st src ts sender"
    let ?tab = "tab(i := label_of t')"
    have res: "fst ?res = st\<lparr>ps_neighbors := t'\<rparr>" "pa_events (snd ?res) = []"
      "pa_outbound (snd ?res) = [\<lparr>ob_packet = HelloReply (self_id st) src l True (clk 1), ob_dst = sender\<rparr>]"
      using True asg Inr by (simp_all add: handle_hello_def)
    have le: "view_le tab ?tab"
      using nt.label_stable [OF wf, of _ _ src sender "clk 0"] st asg
      by (auto simp: view_le_def state_ok_def)
    have "node_inv (fst ?res)"
      using st node_inv_hello by (simp add: state_ok_def)
    moreover have "\<forall>n e. neighbor_get t' n = Some e \<longrightarrow> node_addr T n = Some (ne_endpoint e)"
      using st addr asg Inr neighbor_get_assign [of ?t src sender "clk 0"] by (auto simp: state_ok_def)
    ultimately have "state_ok T mode ?tab cmds i (fst ?res)"
      using st le full_route_mono [OF le] by (auto simp: state_ok_def res view_le_def)
    moreover have "label_of t' src = Some l"
      using nt.assign_label [OF wf, of src sender "clk 0" l] asg Inr by simp
    ultimately show ?thesis
      using le cfg by (simp add: result_ok_def Let_def res configured_sel)
  qed
qed

lemma hello_reply_result_ok:
  assumes cfg: "configured T mode cfgs" "ps_config st = cfgs i"
    and st: "state_ok T mode tab cmds i st" and label: "tab src dst = Some l"
  shows "result_ok T mode tab cmds i a (handle_hello_reply st src dst l ts)"
proof (cases "dst = self_id st \<and> is_logical_neighbor (ps_config st) src")
  case False
  then show ?thesis
    using result_ok_silent [OF st] by (simp only: handle_hello_reply_def if_False)
next
  case True
  let ?res = "handle_hello_reply st src dst l ts"
  have res: "fst ?res = st\<lparr>ps_labels := update_from_hello_reply (ps_labels st) src l ts\<rparr>" "snd ?res = no_actions"
    using True by (simp_all add: handle_hello_reply_def)
  have "tab src i = Some l"
    using True cfg label by (simp add: configured_sel)
  moreover have "node_inv (fst ?res)"
    using st node_inv_hello_reply by (simp add: state_ok_def)
  ultimately have "state_ok T mode tab cmds i (fst ?res)"
    using st
    by (auto simp: state_ok_def res label_assigned_by_neighbor_def update_from_hello_reply_def hm_simps
        split: if_splits)
  moreover have "tab(i := label_of (ps_neighbors (fst ?res))) = tab"
    using st by (auto simp: state_ok_def res)
  ultimately show ?thesis
    by (simp add: result_ok_def res)
qed

section \<open>Requests\<close>

lemma handle_rreq_core:
  "same_core st (fst (handle_rreq clk st src dst rid prev hops dsr labels trace created))"
  by (auto simp: handle_rreq_def Let_def split_beta rreq_forward_loop_eq same_core_def split: option.split)

lemma handle_rreq_no_events:
  "pa_events (snd (handle_rreq clk st src dst rid prev hops dsr labels trace created)) = []"
  by (auto simp: handle_rreq_def rreq_reply_def Let_def split_beta rreq_forward_loop_eq split: option.split)

text \<open>A request that passes the guards of node \<open>i\<close> extends its path by a real hop.\<close>

lemma rreq_extends:
  assumes cfg: "configured T mode cfgs" "ps_config st = cfgs i"
    and st: "state_ok T mode tab cmds i st"
    and here: "node_addr T i = Some a"
    and pkt: "packet_ok T mode tab cmds sender (Rreq src dst rid prev hops dsr labels trace created) a"
    and pass: "rreq_passes clk st src rid prev hops"
    and ext: "extend_label_path st prev labels = Some labels'"
  shows "push_if_new dsr i = dsr @ [i]" "trace = dsr" "route_ok T mode tab (dsr @ [i]) labels'"
    "hd (dsr @ [i]) = src" "length (dsr @ [i]) = unat hops + 2" "unat (hops + 1) = Suc (unat hops)"
proof -
  note sel = configured_sel [OF cfg(1)]
  have p: "trace = dsr" "route_ok T mode tab dsr labels" "hd dsr = src" "last dsr = prev"
    "length dsr = Suc (unat hops)"
    using pkt by auto
  obtain n where "node_addr T n = Some a" "links T prev n"
    using pkt by auto
  then have out: "links T prev i"
    using node_addr_inj [OF sel(4) here] by auto
  have rev: "links T i prev"
    using pass by (simp add: rreq_passes_def cfg sel)
  have "dsr \<noteq> []"
    using p(5) by auto
  have "prev \<noteq> i"
    using rev links_irrefl [OF sel(4)] by auto
  then show "push_if_new dsr i = dsr @ [i]"
    using p(4) \<open>dsr \<noteq> []\<close> by (simp add: push_if_new_def slice_last_def)
  have real: "real_path T (dsr @ [i])"
    using p(2,4) out rev by (auto simp: route_ok_def intro: real_path_snoc)
  have "labels_describe tab (dsr @ [i]) labels'" if dl: "mode = DlDsr"
  proof -
    obtain l where l: "label_assigned_by_neighbor (ps_labels st) prev = Some l" "labels' = labels @ [l]"
      using ext dl by (auto simp: extend_label_path_def cfg sel)
    then have "tab prev i = Some l"
      using st by (simp add: state_ok_def)
    then show ?thesis
      using p(2,4) dl l(2) by (simp add: route_ok_def labels_describe_snoc)
  qed
  with real show "route_ok T mode tab (dsr @ [i]) labels'"
    by (simp add: route_ok_def)
  show "trace = dsr" "hd (dsr @ [i]) = src" "length (dsr @ [i]) = unat hops + 2"
    using p \<open>dsr \<noteq> []\<close> by auto
  show "unat (hops + 1) = Suc (unat hops)"
    using pass by (auto simp: rreq_passes_def intro: unat_plus_one)
qed

lemma rreq_packets_ok:
  assumes cfg: "configured T mode cfgs" "ps_config st = cfgs i"
    and st: "state_ok T mode tab cmds i st"
    and here: "node_addr T i = Some a"
    and pkt: "packet_ok T mode tab cmds sender (Rreq src dst rid prev hops dsr labels trace created) a"
    and ob: "ob \<in> set (pa_outbound (snd (handle_rreq clk st src dst rid prev hops dsr labels trace created)))"
  shows "packet_ok T mode tab cmds a (ob_packet ob) (ob_dst ob)"
proof -
  note sel = configured_sel [OF cfg(1)]
  have self: "self_id st = i"
    by (simp add: cfg sel)
  show ?thesis
  proof (cases rule: handle_rreq_cases [of clk st src dst rid prev hops dsr labels trace created])
    case silent
    with ob show ?thesis by simp
  next
    case (reply labels')
    note ext = rreq_extends [OF cfg st here pkt reply(1,2)]
    have dst: "dst = i"
      using reply(3) self by simp
    have ob': "ob_packet ob = Rrep src dst rid (dsr @ [i]) labels' (dsr @ [i]) created"
      and prev: "previous_in_trace (dsr @ [i]) i \<noteq> None"
      using ob unfolding reply(4)
      by (auto simp: rreq_reply_def dst self ext(1,2) split: option.splits)
    have "i \<notin> set dsr"
    proof
      assume "i \<in> set dsr"
      moreover have "i \<notin> set (tl dsr)"
        using pkt dst by auto
      ultimately have "position (\<lambda>n. n = i) (dsr @ [i]) = Some 0"
        by (cases dsr) (auto simp: position_Some)
      with prev show False
        by (simp add: previous_in_trace_def checked_pred_def)
    qed
    moreover have "unat hops < 255"
      using reply(1) unat_u8_less [of "cfg_max_rreq_hops (ps_config st)"]
      unfolding rreq_passes_def word_less_nat_alt by simp
    moreover have "dsr \<noteq> []"
      using ext(5) by auto
    ultimately have "full_route T mode tab src dst (dsr @ [i]) labels'"
      using ext(3,4,5) dst by (simp add: full_route_def)
    then show ?thesis
      by (simp add: ob')
  next
    case (forward labels')
    note ext = rreq_extends [OF cfg st here pkt forward(1,2)]
    have "dsr \<noteq> []"
      using ext(5) by auto
    have "ob_packet ob = Rreq src dst rid i (hops + 1) (dsr @ [i]) labels' (dsr @ [i]) created"
      and "ob_dst ob \<in> set (endpoints_of (ps_config st) (filter (\<lambda>n. n \<noteq> prev) (logical_neighbors (ps_config st))))"
      using ob unfolding forward(4) by (simp_all add: rreq_forward_loop_eq Let_def self ext(1,2))
    moreover from this(2) have "\<exists>n. node_addr T n = Some (ob_dst ob) \<and> links T i n"
      by (auto simp: set_endpoints_of cfg sel simp flip: is_logical_neighbor_def)
    moreover have "dst \<notin> set (tl (dsr @ [i]))"
      using pkt forward(3) self \<open>dsr \<noteq> []\<close> by auto
    ultimately show ?thesis
      using ext by simp
  qed
qed

lemma rreq_result_ok:
  assumes "configured T mode cfgs" "ps_config st = cfgs i" "state_ok T mode tab cmds i st"
    and "node_addr T i = Some a"
    and "packet_ok T mode tab cmds sender (Rreq src dst rid prev hops dsr labels trace created) a"
  shows "result_ok T mode tab cmds i a (handle_rreq clk st src dst rid prev hops dsr labels trace created)"
  using assms(3) handle_rreq_core
proof (rule result_ok_core)
  show "node_inv (fst (handle_rreq clk st src dst rid prev hops dsr labels trace created))"
    using assms(3) by (auto simp: state_ok_def intro: node_inv_rreq)
qed (use rreq_packets_ok [OF assms] in \<open>auto simp: handle_rreq_no_events\<close>)

section \<open>Following a route\<close>

text \<open>
  A node on a full route can always resolve the next hop: by its address, and in DL-DSR mode
  through the label at its position.
\<close>

lemma hop_resolves:
  assumes cfg: "configured T mode cfgs" "ps_config st = cfgs i"
    and st: "state_ok T mode tab cmds i st"
    and route: "route_ok T mode tab p ls" "Suc k < length p" "p ! k = i"
  obtains ep where "node_addr T (p ! Suc k) = Some ep" "links T i (p ! Suc k)" "links T (p ! Suc k) i"
    "mode = DlDsr \<Longrightarrow> k < length ls \<and>
       (\<exists>e. neighbor_by_label (ps_neighbors st) (ls ! k) = Some e \<and> ne_node_id e = p ! Suc k \<and> ne_endpoint e = ep)"
proof -
  note sel = configured_sel [OF cfg(1)]
  have lk: "links T i (p ! Suc k)" "links T (p ! Suc k) i"
    using route real_path_step by (auto simp: route_ok_def)
  obtain ep where ep: "node_addr T (p ! Suc k) = Some ep"
    using links_addr [OF sel(4) lk(1)] by blast
  have "k < length ls \<and>
      (\<exists>e. neighbor_by_label (ps_neighbors st) (ls ! k) = Some e \<and> ne_node_id e = p ! Suc k \<and> ne_endpoint e = ep)"
    if "mode = DlDsr"
  proof -
    have k: "k < length ls" and "tab i (p ! Suc k) = Some (ls ! k)"
      using route that by (auto simp: route_ok_def labels_describe_def)
    then obtain e where e: "neighbor_get (ps_neighbors st) (p ! Suc k) = Some e"
      "ne_label_assigned_by_me e = ls ! k"
      using st by (auto simp: state_ok_def label_of_def)
    moreover have "neighbor_table_wf (ps_neighbors st)"
      using st by (simp add: state_ok_def node_inv_def tables_wf_def)
    moreover have "ne_endpoint e = ep"
      using st e(1) ep by (auto simp: state_ok_def)
    ultimately show ?thesis
      using k neighbor_get_resolves [of "ps_neighbors st"] neighbor_get_node_id [of "ps_neighbors st"]
      by metis
  qed
  with ep lk show ?thesis
    by (intro that)
qed

lemma origin_on_route:
  assumes cfg: "configured T mode cfgs" "ps_config st = cfgs i"
    and st: "state_ok T mode tab cmds i st"
    and route: "full_route T mode tab i dst (re_dsr_path r) (re_dldsr_label_path r)"
  obtains ep where "origin_resolves st r = Some ep" "node_addr T (re_dsr_path r ! 1) = Some ep"
    "node_addr T (re_dsr_path r ! 0) = node_addr T i"
proof -
  note sel = configured_sel [OF cfg(1)]
  have len: "Suc 0 < length (re_dsr_path r)" and p0: "re_dsr_path r ! 0 = i"
    using full_route_start [OF route] by auto
  obtain ep where ep: "node_addr T (re_dsr_path r ! Suc 0) = Some ep"
    "mode = DlDsr \<Longrightarrow> 0 < length (re_dldsr_label_path r) \<and>
       (\<exists>e. neighbor_by_label (ps_neighbors st) (re_dldsr_label_path r ! 0) = Some e \<and> ne_endpoint e = ep)"
    using hop_resolves [OF cfg st _ len p0, of "re_dldsr_label_path r"] route
    by (metis full_route_def)
  have "origin_resolves st r = Some ep"
  proof (cases mode)
    case Dsr
    then show ?thesis using ep(1) len by (simp add: origin_resolves_def cfg sel)
  next
    case DlDsr
    then show ?thesis using ep(2) by (auto simp: origin_resolves_def cfg sel)
  qed
  then show ?thesis
    using ep(1) p0 by (intro that) simp_all
qed

lemma origin_packet_ok:
  assumes cfg: "configured T mode cfgs"
    and route: "full_route T mode tab i dst (re_dsr_path r) (re_dldsr_label_path r)"
    and "node_addr T i = Some a" "node_addr T (re_dsr_path r ! 1) = Some ep" "(i, dst, payload) \<in> cmds"
  shows "packet_ok T mode tab cmds a (origin_packet (cfgs i) sq dst payload r now) ep"
proof -
  have "re_dsr_path r ! 0 = i" "Suc 0 < length (re_dsr_path r)"
    using full_route_start [OF route] by auto
  then show ?thesis
    using assms by (auto simp: origin_packet_def configured_sel intro!: exI [of _ 0])
qed

section \<open>Replies\<close>

lemma handle_rrep_other_core:
  assumes "validate_rrep (ps_config st) sender trace \<noteq> Inr () \<or> self_id st \<noteq> src"
  shows "same_core st (fst (handle_rrep clk st sender src dst rid dsr labels trace created))"
    and "ob \<in> set (pa_outbound (snd (handle_rrep clk st sender src dst rid dsr labels trace created))) \<Longrightarrow>
      ob_packet ob = Rrep src dst rid dsr labels trace created"
    and "ev \<in> set (pa_events (snd (handle_rrep clk st sender src dst rid dsr labels trace created))) \<Longrightarrow>
      \<exists>n d r. ev = RouteError n d r"
  using assms
  by (auto simp: handle_rrep_def Let_def split_beta split: sum.splits option.splits if_splits)

lemma rrep_source_result_ok:
  assumes cfg: "configured T mode cfgs" "ps_config st = cfgs i"
    and st: "state_ok T mode tab cmds i st"
    and here: "node_addr T i = Some a"
    and route: "full_route T mode tab i dst dsr labels"
    and ok: "validate_rrep (ps_config st) sender trace = Inr ()"
  shows "result_ok T mode tab cmds i a (handle_rrep clk st sender i dst rid dsr labels trace created)"
proof -
  note sel = configured_sel [OF cfg(1)]
  have self: "self_id st = i"
    by (simp add: cfg sel)
  let ?res = "handle_rrep clk st sender i dst rid dsr labels trace created"
  let ?r = "rrep_route (ps_config st) (clk 0) dst dsr labels"
  let ?ps = "payloads_for dst (ps_pending_data st)"
  have r: "re_dst_node_id ?r = dst" "full_route T mode tab i dst (re_dsr_path ?r) (re_dldsr_label_path ?r)"
    using route
    by (auto simp: rrep_route_def route_new_dsr_def cfg sel full_route_def route_ok_def split: protocol_mode.splits)
  obtain ep where ep: "origin_resolves st ?r = Some ep" "node_addr T (re_dsr_path ?r ! 1) = Some ep"
    using origin_on_route [OF cfg st r(2)] by blast
  note eq = handle_rrep_source_eq [OF ok, unfolded self, of clk dst rid dsr labels created]
  have core: "ps_neighbors (fst ?res) = ps_neighbors st" "ps_labels (fst ?res) = ps_labels st"
    "ps_routes (fst ?res) = route_insert (ps_routes st) ?r"
    "ps_pending_data (fst ?res) = filter (\<lambda>p. pd_dst_node_id p \<noteq> dst) (ps_pending_data st)"
    "pa_outbound (snd ?res) = map (\<lambda>p. \<lparr>ob_packet = p, ob_dst = ep\<rparr>)
       (flush_packets (clock_tl clk) (ps_config st) (ps_next_sequence st) dst ?r ?ps)"
    "pa_events (snd ?res) = [RouteCached i dst rid]"
    using ep(1) by (simp_all add: eq Let_def)
  have "node_inv (fst ?res)"
    using st by (auto simp: state_ok_def intro: node_inv_rrep)
  then have st': "state_ok T mode tab cmds i (fst ?res)"
    using st r by (auto simp: state_ok_def core rc.stored_store split: if_splits)
  have "packet_ok T mode tab cmds a p ep"
    if p: "p \<in> set (flush_packets (clock_tl clk) (ps_config st) (ps_next_sequence st) dst ?r ?ps)" for p
  proof -
    obtain k where k: "k < length ?ps"
      "p = origin_packet (ps_config st) (ps_next_sequence st + of_nat k) dst (?ps ! k) ?r (clock_tl clk k)"
      using p nth_flush_packets by (fastforce simp: in_set_conv_nth)
    have "?ps ! k \<in> set ?ps"
      using k(1) by (rule nth_mem)
    then have "(i, dst, ?ps ! k) \<in> cmds"
      using st by (auto simp: state_ok_def)
    then show ?thesis
      unfolding k(2) cfg(2) using cfg r(2) here ep(2) by (auto intro: origin_packet_ok)
  qed
  moreover have "tab(i := label_of (ps_neighbors (fst ?res))) = tab"
    using st by (auto simp: state_ok_def core)
  ultimately show ?thesis
    using st' by (auto simp: result_ok_def core)
qed

lemma rrep_result_ok:
  assumes cfg: "configured T mode cfgs" "ps_config st = cfgs i"
    and st: "state_ok T mode tab cmds i st"
    and here: "node_addr T i = Some a"
    and pkt: "packet_ok T mode tab cmds sender (Rrep src dst rid dsr labels trace created) to"
  shows "result_ok T mode tab cmds i a (handle_rrep clk st sender src dst rid dsr labels trace created)"
proof (cases "validate_rrep (ps_config st) sender trace \<noteq> Inr () \<or> self_id st \<noteq> src")
  case True
  show ?thesis
    using st handle_rrep_other_core(1) [OF True]
  proof (rule result_ok_core)
    show "node_inv (fst (handle_rrep clk st sender src dst rid dsr labels trace created))"
      using st by (auto simp: state_ok_def intro: node_inv_rrep)
  qed (use handle_rrep_other_core(2,3) [OF True] pkt in fastforce)+
next
  case False
  then have "src = i"
    by (simp add: cfg configured_sel [OF cfg(1)])
  then show ?thesis
    using rrep_source_result_ok [OF cfg st here] pkt False by simp
qed

section \<open>Data\<close>

text \<open>
  A data packet in flight, handled by the node it is addressed to, is delivered if the route ends
  there and goes on to the next node of the route otherwise.
\<close>

lemma data_in_flight:
  assumes cfg: "configured T mode cfgs" "ps_config st = cfgs i"
    and st: "state_ok T mode tab cmds i st"
    and here: "node_addr T i = Some a"
    and pkt: "packet_ok T mode tab cmds sender (Data src dst sq m cursor dsr labels payload created) a"
    and res: "res = handle_data clk st sender src dst sq m cursor dsr labels payload created"
    and k: "unat cursor = Suc k"
  shows "dst = i \<and> Suc (Suc k) = length dsr \<and> res = deliver_data clk st src dst sq payload created
    \<or> dst \<noteq> i \<and> Suc (Suc k) < length dsr \<and> unat (cursor + 1) = Suc (Suc k) \<and> dsr ! Suc k = i
      \<and> (\<exists>ep. node_addr T (dsr ! Suc (Suc k)) = Some ep
           \<and> res = (ps_metrics_update (m_data_forwarded_update (\<lambda>n. n + 1)) st,
                actions_send no_actions (Data src dst sq m (cursor + 1) dsr labels payload created) ep))"
proof -
  note sel = configured_sel [OF cfg(1)]
  have p: "m = mode" "full_route T mode tab src dst dsr labels" "Suc k < length dsr"
    "node_addr T (dsr ! k) = Some sender" "node_addr T (dsr ! Suc k) = Some a"
    using pkt k by auto
  have i: "dsr ! Suc k = i"
    using node_addr_inj [OF sel(4) p(5) here] .
  have route: "route_ok T mode tab dsr labels" "last dsr = dst" "dst \<notin> set (butlast dsr)" "length dsr \<le> 257"
    using p(2) by (auto simp: full_route_def)
  have lk: "links T i (dsr ! k)"
    using real_path_step [of T dsr k] route(1) p(3) i by (auto simp: route_ok_def)
  have res': "res = (if dst = i
      then (case validate_data_delivery (cfgs i) (dsr ! k) mode cursor dsr labels of
              Inl r \<Rightarrow> drop_data st dst r
            | Inr _ \<Rightarrow> deliver_data clk st src dst sq payload created)
      else (case mode of
              Dsr \<Rightarrow> forward_data_dsr st src dst sq cursor dsr labels payload created
            | DlDsr \<Rightarrow> forward_data_dldsr st src dst sq cursor dsr labels payload created))"
    using p(1) lk sel(7) [THEN iffD2, OF p(4)] by (simp add: res handle_data_def cfg sel(2,3,5) Let_def)
  have cur: "unat (cursor + 1) = Suc (Suc k)"
    using unat_cursor_Suc [of cursor dsr] k p(3) route(4) by simp
  show ?thesis
  proof (cases "dst = i")
    case True
    have at_end: "Suc (Suc k) = length dsr"
    proof (rule ccontr)
      assume "Suc (Suc k) \<noteq> length dsr"
      then have "Suc k < length (butlast dsr)" "butlast dsr ! Suc k = i"
        using p(3) i by (auto simp: nth_butlast)
      then show False
        using nth_mem True route(3) by metis
    qed
    have "dsr ! j \<noteq> i" if "j < Suc k" for j
    proof -
      have "j < length (butlast dsr)"
        using that at_end by simp
      then show ?thesis
        using nth_mem [of j "butlast dsr"] nth_butlast [of j dsr] True route(3) by metis
    qed
    then have "position (\<lambda>n. n = i) dsr = Some (Suc k)"
      using i p(3) by (simp add: position_Some)
    then have "validate_data_delivery (cfgs i) (dsr ! k) mode cursor dsr labels = Inr ()"
    proof (cases mode)
      case Dsr
      have "slice_last dsr = Some i"
        using route(2) p(3) True by (auto simp: slice_last_def)
      with Dsr \<open>position (\<lambda>n. n = i) dsr = Some (Suc k)\<close> show ?thesis
        by (simp add: validate_dsr_delivery_position sel k)
    next
      case DlDsr
      then show ?thesis
        using route(1) at_end k by (simp add: validate_data_delivery_def route_ok_def labels_describe_def)
    qed
    then show ?thesis
      using True at_end by (simp add: res')
  next
    case False
    have more: "Suc (Suc k) < length dsr"
    proof (rule ccontr)
      assume "\<not> Suc (Suc k) < length dsr"
      then have "length dsr - 1 = Suc k" "dsr \<noteq> []"
        using p(3) by auto
      then show False
        using route(2) i False by (simp add: last_conv_nth)
    qed
    obtain ep where ep: "node_addr T (dsr ! Suc (Suc k)) = Some ep" "links T i (dsr ! Suc (Suc k))"
      "mode = DlDsr \<Longrightarrow> Suc k < length labels \<and>
         (\<exists>e. neighbor_by_label (ps_neighbors st) (labels ! Suc k) = Some e
            \<and> ne_node_id e = dsr ! Suc (Suc k) \<and> ne_endpoint e = ep)"
      using hop_resolves [OF cfg st route(1) more i] by metis
    have "res = (ps_metrics_update (m_data_forwarded_update (\<lambda>n. n + 1)) st,
        actions_send no_actions (Data src dst sq m (cursor + 1) dsr labels payload created) ep)"
    proof (cases mode)
      case Dsr
      then show ?thesis
        using False ep(1,2) more i p(1,3) k cur
        by (simp add: res' forward_data_dsr_def cfg sel)
    next
      case DlDsr
      then show ?thesis
        using False ep(2) ep(3) p(1) k
        by (auto simp: res' forward_data_dldsr_def cfg sel)
    qed
    then show ?thesis
      using False more ep(1) cur i by blast
  qed
qed

lemma data_result_ok:
  assumes cfg: "configured T mode cfgs" "ps_config st = cfgs i"
    and st: "state_ok T mode tab cmds i st"
    and here: "node_addr T i = Some a"
    and pkt: "packet_ok T mode tab cmds sender (Data src dst sq m cursor dsr labels payload created) a"
  shows "result_ok T mode tab cmds i a (handle_data clk st sender src dst sq m cursor dsr labels payload created)"
    (is "result_ok T mode tab cmds i a ?res")
proof -
  obtain k where k: "unat cursor = Suc k" "(src, dst, payload) \<in> cmds"
    using pkt by auto
  have inv: "node_inv (fst ?res)"
    using st by (auto simp: state_ok_def intro: node_inv_data)
  from data_in_flight [OF cfg st here pkt refl k(1), of clk] show ?thesis
  proof (elim disjE conjE exE)
    assume "dst = i" and res: "?res = deliver_data clk st src dst sq payload created"
    then show ?thesis
      using k(2) cfg inv unfolding res
      by (intro result_ok_core [OF st]) (auto simp: deliver_data_def configured_sel)
  next
    fix ep
    assume next_hop: "Suc (Suc k) < length dsr" "unat (cursor + 1) = Suc (Suc k)" "dsr ! Suc k = i"
      "node_addr T (dsr ! Suc (Suc k)) = Some ep"
      and res: "?res = (ps_metrics_update (m_data_forwarded_update (\<lambda>n. n + 1)) st,
        actions_send no_actions (Data src dst sq m (cursor + 1) dsr labels payload created) ep)"
    have "packet_ok T mode tab cmds a (Data src dst sq m (cursor + 1) dsr labels payload created) ep"
      using next_hop pkt here by auto
    then show ?thesis
      using inv unfolding res by (intro result_ok_core [OF st]) (auto simp del: packet_ok.simps)
  qed
qed

lemma packet_result_ok:
  assumes "configured T mode cfgs" "ps_config st = cfgs i" "state_ok T mode tab cmds i st"
    and "node_addr T i = Some a" "packet_ok T mode tab cmds sender p a"
  shows "result_ok T mode tab cmds i a (handle_packet clk st p sender)"
proof (cases p)
  case Hello
  then show ?thesis using hello_result_ok [OF assms(1-3)] assms(5) by simp
next
  case HelloReply
  then show ?thesis using hello_reply_result_ok [OF assms(1-3)] assms(5) by simp
next
  case Rreq
  then show ?thesis using rreq_result_ok [OF assms(1-4)] assms(5) by (simp only: handle_packet.simps)
next
  case Rrep
  then show ?thesis using rrep_result_ok [OF assms(1-4)] assms(5) by (simp only: handle_packet.simps)
next
  case Data
  then show ?thesis using data_result_ok [OF assms(1-4)] assms(5) by (simp only: handle_packet.simps)
qed (use assms(5) in simp_all)

section \<open>Commands, ticks and hellos\<close>

lemma start_discovery_packets:
  assumes cfg: "configured T mode cfgs" "ps_config st = cfgs i"
    and ob: "ob \<in> set (pa_outbound (snd (start_discovery clk st dst retries)))"
  shows "packet_ok T mode tab cmds a (ob_packet ob) (ob_dst ob)"
proof -
  note sel = configured_sel [OF cfg(1)]
  have pkt: "ob_packet ob = Rreq i dst (ps_next_request_id st) i 0 [i] [] [i] (clk 0)"
    and "ob_dst ob \<in> set (endpoints_of (cfgs i) (logical_neighbors (cfgs i)))"
    using ob by (auto simp: start_discovery_def Let_def rreq_originate_loop_eq cfg sel)
  then have "\<exists>n. node_addr T n = Some (ob_dst ob) \<and> links T i n"
    by (auto simp: set_endpoints_of sel simp flip: is_logical_neighbor_def)
  then show ?thesis
    by (simp add: pkt route_ok_def labels_describe_def)
qed

lemma start_discovery_events: "pa_events (snd (start_discovery clk st dst retries)) = []"
  by (simp add: start_discovery_def Let_def rreq_originate_loop_eq)

lemma retry_loop_core: "same_core st (fst (retry_loop clk st es acts))"
proof (induction es arbitrary: clk st acts)
  case Nil
  then show ?case by simp
next
  case (Cons e es)
  obtain dst state where e: "e = (dst, state)"
    by (cases e)
  have "same_core st (fst (fail_discovery st dst state acts))"
    by (auto simp: same_core_def fail_discovery_state)
  moreover have "same_core st (fst (start_discovery clk st dst (ds_retries_done state + 1)))"
    by (simp add: same_core_def)
  ultimately show ?case
    by (auto simp: e split_beta intro: same_core_trans [OF _ Cons.IH])
qed

lemma retry_loop_result:
  assumes cfg: "configured T mode cfgs" "ps_config st = cfgs i"
    and "\<And>ob. ob \<in> set (pa_outbound acts) \<Longrightarrow> packet_ok T mode tab cmds a (ob_packet ob) (ob_dst ob)"
    and "\<And>ev. ev \<in> set (pa_events acts) \<Longrightarrow> event_ok cmds i ev"
  shows "(\<forall>ob \<in> set (pa_outbound (snd (retry_loop clk st es acts))). packet_ok T mode tab cmds a (ob_packet ob) (ob_dst ob))
    \<and> (\<forall>ev \<in> set (pa_events (snd (retry_loop clk st es acts))). event_ok cmds i ev)"
    (is "?goal clk st es acts")
  using assms(2-4)
proof (induction es arbitrary: clk st acts)
  case Nil
  then show ?case by simp
next
  case (Cons e es)
  obtain dst state where e: "e = (dst, state)"
    by (cases e)
  let ?f = "fail_discovery st dst state acts"
  let ?s = "start_discovery clk st dst (ds_retries_done state + 1)"
  have "pa_outbound (snd ?f) = pa_outbound acts"
    by (simp add: fail_discovery_def Let_def split_beta)
  moreover have "event_ok cmds i ev" if "ev \<in> set (pa_events (snd ?f))" for ev
    using that Cons.prems(3) by (auto simp: fail_discovery_events split: if_splits)
  moreover have "packet_ok T mode tab cmds a (ob_packet ob) (ob_dst ob)"
    if "ob \<in> set (pa_outbound acts @ pa_outbound (snd ?s))" for ob
    using that Cons.prems(2) start_discovery_packets [OF cfg(1) Cons.prems(1)] by auto
  ultimately have failed: "?goal clk (fst ?f) es (snd ?f)"
    and restarted: "?goal (clock_tl clk) (fst ?s) es
      (acts\<lparr>pa_outbound := pa_outbound acts @ pa_outbound (snd ?s)\<rparr>)"
    using Cons.prems by (intro Cons.IH; simp)+
  show ?case
    using failed restarted
    by (cases "cfg_route_discovery_max_retries (ps_config st) \<le> ds_retries_done state")
      (simp_all only: e retry_loop.simps if_True if_False split_beta Let_def prod.case simp_thms)
qed

lemma tick_result_ok:
  assumes cfg: "configured T mode cfgs" "ps_config st = cfgs i"
    and st: "state_ok T mode tab cmds i st"
  shows "result_ok T mode tab cmds i a (handle_tick clk st now)"
proof -
  let ?st = "st\<lparr>ps_seen_requests := seen_prune (ps_seen_requests st) now (cfg_seen_request_ttl_ms (ps_config st))\<rparr>"
  have "same_core st (fst (handle_tick clk st now))"
    unfolding handle_tick_eq by (rule same_core_trans [OF _ retry_loop_core]) simp
  moreover have "node_inv (fst (handle_tick clk st now))"
    using st by (auto simp: state_ok_def intro: node_inv_tick)
  ultimately show ?thesis
    using st retry_loop_result [OF cfg(1), of ?st i no_actions tab cmds a clk "expired_discoveries st now"] cfg(2)
    by (intro result_ok_core) (auto simp: handle_tick_eq)
qed

lemma command_result_ok:
  assumes cfg: "configured T mode cfgs" "ps_config st = cfgs i"
    and st: "state_ok T mode tab cmds i st"
    and here: "node_addr T i = Some a" and issued: "(i, dst, payload) \<in> cmds"
  shows "result_ok T mode tab cmds i a (handle_command clk st (DiscoverAndSend dst payload))"
    (is "result_ok T mode tab cmds i a ?res")
proof (cases "route_shortest (ps_routes st) dst (clk 0)")
  case None
  let ?st = "st\<lparr>ps_pending_data := ps_pending_data st @ [\<lparr>pd_dst_node_id = dst, pd_payload = payload\<rparr>]\<rparr>"
  have res: "?res = (?st, no_actions) \<or> ?res = start_discovery (clock_tl clk) ?st dst 0"
    using None by (auto simp: discover_and_send_def Let_def)
  have inv: "node_inv (fst ?res)"
    using st by (auto simp: state_ok_def intro: node_inv_discover_and_send)
  have "state_ok T mode tab cmds i (fst ?res)"
    using res st issued inv by (elim disjE) (simp_all add: state_ok_def)
  moreover have "\<forall>ob \<in> set (pa_outbound (snd ?res)). packet_ok T mode tab cmds a (ob_packet ob) (ob_dst ob)"
    using res start_discovery_packets [OF cfg(1), of ?st i] cfg(2) by (elim disjE) auto
  moreover have "pa_events (snd ?res) = []"
    using res by (elim disjE) (simp_all add: start_discovery_events)
  moreover have "tab(i := label_of (ps_neighbors (fst ?res))) = tab"
    using \<open>state_ok T mode tab cmds i (fst ?res)\<close> by (auto simp: state_ok_def)
  ultimately show ?thesis
    by (simp add: result_ok_def)
next
  case (Some r)
  then have "r \<in> routes_to (ps_routes st) dst"
    using rc.best_sound by blast
  then have r: "full_route T mode tab i dst (re_dsr_path r) (re_dldsr_label_path r)"
    using st by (simp add: state_ok_def)
  obtain ep where ep: "origin_resolves st r = Some ep" "node_addr T (re_dsr_path r ! 1) = Some ep"
    using origin_on_route [OF cfg st r] by blast
  have res: "?res = (st\<lparr>ps_next_sequence := ps_next_sequence st + 1\<rparr>,
      actions_send no_actions (origin_packet (cfgs i) (ps_next_sequence st) dst payload r (clk 1)) ep)"
    using Some ep(1) by (simp add: discover_and_send_def origin_data_eq cfg)
  show ?thesis
    using origin_packet_ok [OF cfg(1) r here ep(2) issued] st unfolding res
    by (intro result_ok_core [OF st]) (auto simp: state_ok_def)
qed

lemma hellos_result_ok:
  assumes cfg: "configured T mode cfgs" "ps_config st = cfgs i"
    and st: "state_ok T mode tab cmds i st" and here: "node_addr T i = Some a"
  shows "result_ok T mode tab cmds i a (st, send_hellos clk st)"
proof -
  have "pa_events (send_hellos clk st) = []"
    by (simp add: send_hellos_def send_hellos_loop_eq)
  moreover have "packet_ok T mode tab cmds a (ob_packet ob) (ob_dst ob)"
    if "ob \<in> set (pa_outbound (send_hellos clk st))" for ob
    using send_hellos_packets [OF that] here cfg by (auto simp: configured_sel)
  ultimately show ?thesis
    using st by (intro result_ok_core [OF st]) (auto simp: state_ok_def)
qed

end
