(* ===== verification/Network_Inv.thy ===== *)
theory Network_Inv
  imports Network_Handlers
begin

text \<open>
  Every step of the network keeps its invariant; what the invariant says about label paths and
  about the progress of data packets.
\<close>

section \<open>The invariant of the network\<close>

lemma deliver_data_config [simp]: "ps_config (fst (deliver_data clk st src dst sq payload created)) = ps_config st"
  by (simp add: deliver_data_def)

lemma forward_data_config [simp]:
  "ps_config (fst (forward_data_dsr st src dst sq cursor dsr labels payload created)) = ps_config st"
  "ps_config (fst (forward_data_dldsr st src dst sq cursor dsr labels payload created)) = ps_config st"
  by (simp_all add: forward_data_dsr_def forward_data_dldsr_def Let_def split: option.split)

lemma handle_hello_config [simp]: "ps_config (fst (handle_hello clk st src ts sender)) = ps_config st"
  by (simp add: handle_hello_def split: prod.split sum.split)

lemma handle_hello_reply_config [simp]: "ps_config (fst (handle_hello_reply st src dst label ts)) = ps_config st"
  by (simp add: handle_hello_reply_def)

lemma handle_rreq_config [simp]:
  "ps_config (fst (handle_rreq clk st src dst rid prev hops dsr labels trace created)) = ps_config st"
  using handle_rreq_core by (simp add: same_core_def)

lemma handle_rrep_config [simp]:
  "ps_config (fst (handle_rrep clk st sender src dst rid dsr labels trace created)) = ps_config st"
  by (simp add: handle_rrep_def Let_def split_beta split: sum.split option.split)

lemma handle_data_config [simp]:
  "ps_config (fst (handle_data clk st sender src dst sq mode cursor dsr labels payload created)) = ps_config st"
  by (simp add: handle_data_def Let_def split: sum.split option.split protocol_mode.split)

lemma packet_config [simp]: "ps_config (fst (handle_packet clk st p sender)) = ps_config st"
  by (cases p) simp_all

lemma command_config [simp]: "ps_config (fst (handle_command clk st c)) = ps_config st"
  by (cases c) (simp add: discover_and_send_def Let_def split: option.split)

lemma rehashed_config: "rehashed st st' \<Longrightarrow> ps_config st' = ps_config st"
  by (auto simp: rehashed_def)

lemma state_ok_rehashed:
  assumes "state_ok T mode tab cmds i st" "rehashed st st'"
  shows "state_ok T mode tab cmds i st'" "label_of (ps_neighbors st') = label_of (ps_neighbors st)"
proof -
  obtain ns ls rs ss ds where
    perm: "mset ns = mset (nt_entries (ps_neighbors st))" "mset ls = mset (lt_entries (ps_labels st))"
      "mset rs = mset (rc_routes (ps_routes st))"
    and st': "st' = st\<lparr>ps_neighbors := \<lparr>nt_entries = ns\<rparr>, ps_labels := \<lparr>lt_entries = ls\<rparr>,
      ps_routes := \<lparr>rc_routes = rs\<rparr>, ps_seen_requests := \<lparr>sr_seen = ss\<rparr>, ps_discoveries := ds\<rparr>"
    using assms(2) unfolding rehashed_def by blast
  have inv: "node_inv st" "node_inv st'"
    using assms node_inv_rehashed by (auto simp: state_ok_def)
  have wf: "hm_wf ns" "hm_wf ls" "hm_wf rs"
    using inv(2) by (auto simp: st' node_inv_def tables_wf_def neighbor_table_wf_def)
  have get: "neighbor_get (ps_neighbors st') = neighbor_get (ps_neighbors st)"
    using hm_get_perm [OF perm(1) wf(1)] by (auto simp: st' neighbor_get_def)
  then show view: "label_of (ps_neighbors st') = label_of (ps_neighbors st)"
    by (auto simp: label_of_def)
  have "label_assigned_by_neighbor (ps_labels st') = label_assigned_by_neighbor (ps_labels st)"
    "routes_to (ps_routes st') = routes_to (ps_routes st)"
    using hm_get_perm [OF perm(2) wf(2)] hm_get_perm [OF perm(3) wf(3)]
    by (auto simp: st' label_assigned_by_neighbor_def routes_to_def)
  then show "state_ok T mode tab cmds i st'"
    using assms(1) inv(2) get view by (simp add: state_ok_def) (simp add: st')
qed

lemma net_view_apply [simp]:
  "net_view (net_apply N i a res) = (net_view N)(i := label_of (ps_neighbors (fst res)))"
  by (auto simp: net_view_def net_apply_def)

lemma net_apply_ok:
  assumes ok: "net_ok T mode cfgs N"
    and res: "result_ok T mode (net_view N) (net_issued N) i a res" "ps_config (fst res) = cfgs i"
  shows "net_ok T mode cfgs (net_apply N i a res)"
proof -
  let ?N = "net_apply N i a res"
  have le: "view_le (net_view N) (net_view ?N)"
    and here: "state_ok T mode (net_view ?N) (net_issued N) i (fst res)"
    and pkts: "\<forall>ob \<in> set (pa_outbound (snd res)). packet_ok T mode (net_view ?N) (net_issued N) a (ob_packet ob) (ob_dst ob)"
    and evs: "\<forall>ev \<in> set (pa_events (snd res)). event_ok (net_issued N) i ev"
    using res(1) by (simp_all add: result_ok_def Let_def)
  have others: "state_ok T mode (net_view ?N) (net_issued N) j (net_nodes N j)" if "j \<noteq> i" for j
    using ok that by (intro state_ok_mono [OF le]) (auto simp: net_ok_def)
  have wire: "packet_ok T mode (net_view ?N) (net_issued N) sender p to" if "(sender, p, to) \<in> net_wire N" for sender p to
    using ok that packet_ok_mono [OF le order_refl] by (fastforce simp: net_ok_def)
  have old: "ps_config (net_nodes N j) = cfgs j" "(k, ev) \<in> net_reported N \<Longrightarrow> event_ok (net_issued N) k ev" for j k ev
    using ok by (auto simp: net_ok_def)
  have sel: "net_issued ?N = net_issued N" "net_nodes ?N = (net_nodes N)(i := fst res)"
    "net_wire ?N = net_wire N \<union> (\<lambda>ob. (a, ob_packet ob, ob_dst ob)) ` set (pa_outbound (snd res))"
    "net_reported ?N = net_reported N \<union> Pair i ` set (pa_events (snd res))"
    by (simp_all add: net_apply_def)
  show ?thesis
    unfolding net_ok_def sel(1)
  proof (intro conjI allI ballI)
    show "ps_config (net_nodes ?N j) = cfgs j" for j
      using old(1) res(2) by (simp add: sel)
    show "state_ok T mode (net_view ?N) (net_issued N) j (net_nodes ?N j)" for j
      using here others by (auto simp: sel simp del: net_view_apply)
    show "case x of (sender, p, to) \<Rightarrow> packet_ok T mode (net_view ?N) (net_issued N) sender p to"
      if "x \<in> net_wire ?N" for x
      using that wire pkts by (auto simp: sel simp del: net_view_apply)
    show "case x of (k, ev) \<Rightarrow> event_ok (net_issued N) k ev" if "x \<in> net_reported ?N" for x
      using that old(2) evs by (auto simp: sel)
  qed
qed

lemma net_ok_issue:
  assumes "net_ok T mode cfgs N"
  shows "net_ok T mode cfgs (N\<lparr>net_issued := insert c (net_issued N)\<rparr>)"
proof -
  have view: "net_view (N\<lparr>net_issued := insert c (net_issued N)\<rparr>) = net_view N"
    by (simp add: net_view_def fun_eq_iff)
  let ?cmds = "insert c (net_issued N)"
  have "state_ok T mode (net_view N) ?cmds i (net_nodes N i)" for i
    by (rule state_ok_mono [OF view_le_refl subset_insertI refl]) (use assms in \<open>simp add: net_ok_def\<close>)
  moreover have "packet_ok T mode (net_view N) ?cmds sender p to" if "(sender, p, to) \<in> net_wire N" for sender p to
    by (rule packet_ok_mono [OF view_le_refl subset_insertI]) (use assms that in \<open>auto simp: net_ok_def\<close>)
  moreover have "event_ok ?cmds i ev" if "(i, ev) \<in> net_reported N" for i ev
    by (rule event_ok_mono [OF subset_insertI]) (use assms that in \<open>auto simp: net_ok_def\<close>)
  ultimately show ?thesis
    using assms by (auto simp: net_ok_def view)
qed

lemma net_ok_node:
  assumes "configured T mode cfgs" "net_ok T mode cfgs N"
  shows "ps_config (net_nodes N i) = cfgs i"
    "state_ok T mode (net_view N) (net_issued N) i (net_nodes N i)"
    "(sender, p, to) \<in> net_wire N \<Longrightarrow> packet_ok T mode (net_view N) (net_issued N) sender p to"
  using assms(2) by (auto simp: net_ok_def)

lemma net_step_ok:
  assumes cfg: "configured T mode cfgs" and ok: "net_ok T mode cfgs N" and step: "net_step T N N'"
  shows "net_ok T mode cfgs N'"
  using step
proof (cases rule: net_step.cases)
  case (hello i a clk)
  then show ?thesis
    using hellos_result_ok [OF cfg net_ok_node(1,2) [OF cfg ok]] net_ok_node(1) [OF cfg ok]
    by (auto intro!: net_apply_ok [OF ok])
next
  case (deliver i a sender p clk)
  then show ?thesis
    using packet_result_ok [OF cfg net_ok_node(1,2) [OF cfg ok]] net_ok_node(1,3) [OF cfg ok]
    by (auto intro!: net_apply_ok [OF ok])
next
  case (command i a dst payload clk)
  let ?N = "N\<lparr>net_issued := insert (i, dst, payload) (net_issued N)\<rparr>"
  have ok': "net_ok T mode cfgs ?N"
    using ok by (rule net_ok_issue)
  show ?thesis
    unfolding command
    using command_result_ok [OF cfg net_ok_node(1,2) [OF cfg ok'] command(2)] net_ok_node(1) [OF cfg ok]
    by (intro net_apply_ok [OF ok']) (auto simp del: handle_command.simps)
next
  case (tick i a clk now)
  then show ?thesis
    using tick_result_ok [OF cfg net_ok_node(1,2) [OF cfg ok]] net_ok_node(1) [OF cfg ok]
    by (auto intro!: net_apply_ok [OF ok])
next
  case (account i a ser st' m)
  have "node_inv st'"
    using state_ok_inv [OF net_ok_node(2) [OF cfg ok]] account(3) by (rule node_inv_step)
  then have "result_ok T mode (net_view N) (net_issued N) i a (st', no_actions)"
    using account(4) by (intro result_ok_core [OF net_ok_node(2) [OF cfg ok]]) auto
  then show ?thesis
    using account net_ok_node(1) [OF cfg ok] by (auto intro!: net_apply_ok [OF ok])
next
  case (rehash i a st')
  note re = state_ok_rehashed [OF net_ok_node(2) [OF cfg ok] rehash(3)]
  have "(net_view N)(i := label_of (ps_neighbors st')) = net_view N"
    using re(2) by (auto simp: net_view_def)
  then have "result_ok T mode (net_view N) (net_issued N) i a (st', no_actions)"
    using re(1) by (simp add: result_ok_def)
  then show ?thesis
    using rehash rehashed_config net_ok_node(1) [OF cfg ok] by (auto intro!: net_apply_ok [OF ok])
qed

lemma net_ok_start: "configured T mode cfgs \<Longrightarrow> net_ok T mode cfgs (net_start cfgs)"
  by (auto simp: net_ok_def net_start_def state_ok_def node_inv_new net_view_def neighbor_get_def
      label_assigned_by_neighbor_def label_table_default_def routes_to_def route_cache_default_def)

interpretation net: transition_invariant "\<lambda>N. configured T mode cfgs \<and> N = net_start cfgs" "net_step T"
    "\<lambda>N. configured T mode cfgs \<and> net_ok T mode cfgs N"
  for T mode cfgs
  by unfold_locales (auto simp: net_ok_start intro: net_step_ok)

section \<open>Consequences\<close>

lemma net_reachable_ok:
  assumes "configured T mode cfgs" "(net_step T)\<^sup>*\<^sup>* (net_start cfgs) N"
  shows "net_ok T mode cfgs N"
  using net.inv_reachable assms by blast

text \<open>Following labels from node to node, each resolved in the table of the node reached.\<close>

fun follow_labels :: "network \<Rightarrow> u32 \<Rightarrow> u8 list \<Rightarrow> u32 option" where
  "follow_labels N n [] = Some n"
| "follow_labels N n (l # ls) =
     (case neighbor_by_label (ps_neighbors (net_nodes N n)) l of
        None \<Rightarrow> None | Some e \<Rightarrow> follow_labels N (ne_node_id e) ls)"

lemma follow_labels_describe:
  assumes wf: "\<And>i. neighbor_table_wf (ps_neighbors (net_nodes N i))"
    and "labels_describe (net_view N) p ls"
  shows "follow_labels N (hd p) ls = Some (last p)"
  using assms(2)
proof (induction ls arbitrary: p)
  case Nil
  then show ?case
    by (cases p) (auto simp: labels_describe_def)
next
  case (Cons l ls)
  then obtain a b q where p: "p = a # b # q"
    by (auto simp: labels_describe_def length_Suc_conv)
  have first: "net_view N a b = Some l"
    using Cons.prems unfolding labels_describe_def by (auto simp: p)
  have rest: "labels_describe (net_view N) (b # q) ls"
    using Cons.prems unfolding labels_describe_def by (auto simp: p dest: spec [of _ "Suc _"])
  obtain e where "neighbor_get (ps_neighbors (net_nodes N a)) b = Some e" "ne_label_assigned_by_me e = l"
    using first by (auto simp: net_view_def label_of_def)
  then have "neighbor_by_label (ps_neighbors (net_nodes N a)) l = Some e" "ne_node_id e = b"
    using neighbor_get_resolves [OF wf] neighbor_get_node_id [OF wf] by auto
  then show ?case
    using Cons.IH [OF rest] by (simp add: p)
qed

lemma net_ok_follow:
  assumes "net_ok T mode cfgs N" "labels_describe (net_view N) p ls"
  shows "follow_labels N (hd p) ls = Some (last p)"
  using assms by (intro follow_labels_describe)
    (auto simp: net_ok_def state_ok_def node_inv_def tables_wf_def)

text \<open>One delivery of a data packet in flight: it arrives, or is on the wire one hop further on.\<close>

lemma data_progress:
  assumes cfg: "configured T mode cfgs" and ok: "net_ok T mode cfgs N"
    and wire: "(sender, Data src dst sq m cursor dsr labels payload created, a) \<in> net_wire N"
  obtains N' where "net_step T N N'" "net_ok T mode cfgs N'"
    "Suc (unat cursor) = length dsr \<and> (dst, DataDelivered dst src dst sq payload) \<in> net_reported N'
     \<or> Suc (unat cursor) < length dsr \<and> unat (cursor + 1) = Suc (unat cursor)
       \<and> (\<exists>sender' a'. (sender', Data src dst sq m (cursor + 1) dsr labels payload created, a') \<in> net_wire N')"
proof -
  note node = net_ok_node [OF cfg ok]
  obtain k where k: "unat cursor = Suc k" "node_addr T (dsr ! Suc k) = Some a"
    using node(3) [OF wire] by auto
  define i where "i = dsr ! Suc k"
  define res where "res = handle_data (\<lambda>_. 0) (net_nodes N i) sender src dst sq m cursor dsr labels payload created"
  have here: "node_addr T i = Some a"
    using k(2) by (simp add: i_def)
  have step: "net_step T N (net_apply N i a res)"
    using net_step.deliver [OF here wire, of "\<lambda>_. 0"] by (simp add: res_def)
  have self: "self_id (net_nodes N i) = i"
    using node(1) cfg by (simp add: configured_sel)
  from data_in_flight [OF cfg node(1,2) here node(3) [OF wire] res_def k(1)]
  have "Suc (unat cursor) = length dsr \<and> (dst, DataDelivered dst src dst sq payload) \<in> net_reported (net_apply N i a res)
     \<or> Suc (unat cursor) < length dsr \<and> unat (cursor + 1) = Suc (unat cursor)
       \<and> (\<exists>sender' a'. (sender', Data src dst sq m (cursor + 1) dsr labels payload created, a')
            \<in> net_wire (net_apply N i a res))"
    using self k(1) by (auto simp: net_apply_def deliver_data_def) blast+
  then show ?thesis
    using that [OF step net_step_ok [OF cfg ok step]] by blast
qed

lemma data_arrives:
  assumes cfg: "configured T mode cfgs" and "net_ok T mode cfgs N"
    and "(sender, Data src dst sq m cursor dsr labels payload created, a) \<in> net_wire N"
    and "length dsr - unat cursor = n"
  shows "\<exists>N'. ((net_step T) ^^ n) N N' \<and> (dst, DataDelivered dst src dst sq payload) \<in> net_reported N'"
  using assms(2-4)
proof (induction n arbitrary: N sender cursor a)
  case 0
  then have "unat cursor < length dsr"
    using net_ok_node(3) [OF cfg 0(1) 0(2)] by auto
  with 0 show ?case by simp
next
  case (Suc n)
  obtain N1 where N1: "net_step T N N1" "net_ok T mode cfgs N1"
    and cases: "Suc (unat cursor) = length dsr \<and> (dst, DataDelivered dst src dst sq payload) \<in> net_reported N1
     \<or> Suc (unat cursor) < length dsr \<and> unat (cursor + 1) = Suc (unat cursor)
       \<and> (\<exists>sender' a'. (sender', Data src dst sq m (cursor + 1) dsr labels payload created, a') \<in> net_wire N1)"
    using data_progress [OF cfg Suc.prems(1,2)] by metis
  from cases show ?case
  proof (elim disjE conjE exE)
    assume "Suc (unat cursor) = length dsr" "(dst, DataDelivered dst src dst sq payload) \<in> net_reported N1"
    moreover from this(1) have "n = 0"
      using Suc.prems(3) by simp
    ultimately show ?thesis
      using N1(1) by auto
  next
    fix sender' a'
    assume cur: "unat (cursor + 1) = Suc (unat cursor)"
      and onward: "(sender', Data src dst sq m (cursor + 1) dsr labels payload created, a') \<in> net_wire N1"
    have "length dsr - unat (cursor + 1) = n"
      using cur Suc.prems(3) by simp
    from Suc.IH [OF N1(2) onward this]
    obtain N2 where "((net_step T) ^^ n) N1 N2" "(dst, DataDelivered dst src dst sq payload) \<in> net_reported N2"
      by blast
    then show ?thesis
      using N1(1) by (meson relpowp_Suc_I2)
  qed
qed

end
