(* ===== verification/Network_Discovery.thy ===== *)
theory Network_Discovery
  imports Network_Inv
begin

text \<open>
  Discovery can succeed: along any simple path of the topology whose nodes have not seen the
  request, a run of the network carries the request to the destination, the reply back and the
  payload to the destination. The lemmas follow the run hop by hop.
\<close>

section \<open>Paths and nodes left alone\<close>

definition others_same :: "u32 set \<Rightarrow> network \<Rightarrow> network \<Rightarrow> bool" where
  "others_same A N N' \<longleftrightarrow> (\<forall>j. j \<notin> A \<longrightarrow> net_nodes N' j = net_nodes N j)"

lemma others_same_trans:
  "others_same A N N1 \<Longrightarrow> others_same B N1 N2 \<Longrightarrow> others_same (A \<union> B) N N2"
  by (simp add: others_same_def)

lemma others_same_apply [simp]: "others_same {i} N (net_apply N i a res)"
  by (simp add: others_same_def net_apply_def)

lemma sent_on_wire:
  "\<lparr>ob_packet = q, ob_dst = b\<rparr> \<in> set (pa_outbound (snd res)) \<Longrightarrow> (a, q, b) \<in> net_wire (net_apply N i a res)"
  by (force simp: net_apply_def)

lemma path_addr:
  assumes "net_topology T" "real_path T p" "2 \<le> length p" "k < length p"
  obtains a where "node_addr T (p ! k) = Some a"
proof (cases k)
  case 0
  then have "links T (p ! Suc 0) (p ! 0)"
    using real_path_step [OF assms(2), of 0] assms(3) by simp
  then show ?thesis
    using links_addr [OF assms(1)] that 0 by blast
next
  case (Suc j)
  then show ?thesis
    using real_path_step [OF assms(2), of j] assms(4) links_addr [OF assms(1)] that by blast
qed

text \<open>What the nodes of a path need in order to pass a request on.\<close>

definition ready ::
    "topology \<Rightarrow> protocol_mode \<Rightarrow> (u32 \<Rightarrow> node_config) \<Rightarrow> u32 list \<Rightarrow> u32 \<Rightarrow> u64 \<Rightarrow> network \<Rightarrow> nat \<Rightarrow> bool" where
  "ready T mode cfgs p src rid N k \<longleftrightarrow>
     hm_get (sr_seen (ps_seen_requests (net_nodes N (p ! Suc k)))) (src, rid) = None
     \<and> k < unat (cfg_max_rreq_hops (cfgs (p ! Suc k)))
     \<and> (mode = DlDsr \<longrightarrow> label_assigned_by_neighbor (ps_labels (net_nodes N (p ! Suc k))) (p ! k) \<noteq> None)"

lemma ready_others_same:
  assumes "ready T mode cfgs p src rid N k" "others_same A N N'" "p ! Suc k \<notin> A"
  shows "ready T mode cfgs p src rid N' k"
  using assms by (simp add: ready_def others_same_def)

section \<open>The request travels\<close>

lemma request_passes:
  assumes cfg: "configured T mode cfgs" and ok: "net_ok T mode cfgs N"
    and p: "real_path T p" "Suc k < length p"
    and ready: "ready T mode cfgs p src rid N k"
    and hops: "unat h = k"
  shows "rreq_passes clk (net_nodes N (p ! Suc k)) src rid (p ! k) h"
    "\<exists>ls'. extend_label_path (net_nodes N (p ! Suc k)) (p ! k) ls = Some ls'"
proof -
  note node = net_ok_node(1,2) [OF cfg ok, of "p ! Suc k"]
  have "hm_wf (sr_seen (ps_seen_requests (net_nodes N (p ! Suc k))))"
    using state_ok_inv [OF node(2)] by (simp add: node_inv_def seen_wf_def)
  then show "rreq_passes clk (net_nodes N (p ! Suc k)) src rid (p ! k) h"
    using ready hops real_path_step [OF p]
    by (simp add: rreq_passes_def mark_if_new_iff node(1) configured_sel [OF cfg] ready_def word_less_nat_alt)
  show "\<exists>ls'. extend_label_path (net_nodes N (p ! Suc k)) (p ! k) ls = Some ls'"
    using ready by (cases mode) (auto simp: extend_label_path_def node(1) configured_sel [OF cfg] ready_def)
qed

lemma take_snoc: "Suc k < length p \<Longrightarrow> take (Suc k) p @ [p ! Suc k] = take (Suc (Suc k)) p"
  by (simp add: take_Suc_conv_app_nth)

text \<open>One hop in the middle of the path: the node forwards the request.\<close>

lemma request_forwarded:
  assumes cfg: "configured T mode cfgs" and ok: "net_ok T mode cfgs N"
    and p: "real_path T p" "distinct p" "Suc (Suc k) < length p" "last p = dst"
    and pass: "rreq_passes clk (net_nodes N (p ! Suc k)) src rid (p ! k) h"
      "extend_label_path (net_nodes N (p ! Suc k)) (p ! k) ls = Some ls'"
  obtains b where "node_addr T (p ! Suc (Suc k)) = Some b"
    "\<lparr>ob_packet = Rreq src dst rid (p ! Suc k) (h + 1) (push_if_new dsr (p ! Suc k)) ls'
        (push_if_new dsr (p ! Suc k)) t, ob_dst = b\<rparr>
     \<in> set (pa_outbound (snd (handle_rreq clk (net_nodes N (p ! Suc k)) src dst rid (p ! k) h dsr ls dsr t)))"
proof -
  note sel = configured_sel [OF cfg]
  define i where "i = p ! Suc k"
  note node = net_ok_node(1) [OF cfg ok, of i]
  have "last p = p ! (length p - 1)"
    using p(3) by (intro last_conv_nth) auto
  then have "i \<noteq> last p"
    using p(3) nth_eq_iff_index_eq [OF p(2), of "Suc k" "length p - 1"] by (simp add: i_def)
  then have "self_id (net_nodes N i) \<noteq> dst"
    using p(4) by (simp add: node sel)
  note fwd = handle_rreq_forward_eq [OF pass [folded i_def] this]
  have lk: "links T i (p ! Suc (Suc k))"
    using real_path_step [OF p(1,3)] by (simp add: i_def)
  then obtain b where b: "node_addr T (p ! Suc (Suc k)) = Some b"
    using links_addr [OF sel(4)] by blast
  have "p ! Suc (Suc k) \<noteq> p ! k"
    using p(2,3) by (simp add: nth_eq_iff_index_eq)
  then have "b \<in> set (endpoints_of (cfgs i) (filter (\<lambda>n. n \<noteq> p ! k) (logical_neighbors (cfgs i))))"
    using lk b sel(5) [of i "p ! Suc (Suc k)"]
    by (auto simp: set_endpoints_of sel(6) is_logical_neighbor_def intro!: bexI [of _ "p ! Suc (Suc k)"])
  then show ?thesis
    using that [OF b] unfolding i_def [symmetric]
    by (simp add: fwd rreq_forward_loop_eq Let_def node sel(2) send_all_def image_image)
qed

text \<open>The last hop: the destination answers to the node the request came from.\<close>

lemma request_answered:
  assumes cfg: "configured T mode cfgs" and ok: "net_ok T mode cfgs N"
    and p: "real_path T p" "distinct p" "length p = Suc (Suc k)" "last p = dst"
    and pass: "rreq_passes clk (net_nodes N dst) src rid (p ! k) h"
      "extend_label_path (net_nodes N dst) (p ! k) ls = Some ls'"
    and path: "push_if_new dsr dst = p"
  obtains b where "node_addr T (p ! k) = Some b"
    "pa_outbound (snd (handle_rreq clk (net_nodes N dst) src dst rid (p ! k) h dsr ls dsr t)) =
       [\<lparr>ob_packet = Rrep src dst rid p ls' p t, ob_dst = b\<rparr>]"
proof -
  note sel = configured_sel [OF cfg] and node = net_ok_node(1) [OF cfg ok, of dst]
  have "dst = p ! Suc k"
    using p(3,4) by (cases p rule: rev_cases) (auto simp: nth_append)
  then have "previous_in_trace p dst = Some (p ! k)"
    unfolding previous_in_trace_Some
    using p(2,3) by (intro exI [of _ k]) (auto simp: nth_eq_iff_index_eq)
  moreover obtain b where b: "node_addr T (p ! k) = Some b"
    using links_addr [OF sel(4)] real_path_step [OF p(1), of k] p(3) by auto
  moreover have "self_id (net_nodes N dst) = dst"
    by (simp add: node sel)
  note rep = handle_rreq_reply_eq [OF pass this]
  ultimately have "pa_outbound (snd (handle_rreq clk (net_nodes N dst) src dst rid (p ! k) h dsr ls dsr t)) =
      [\<lparr>ob_packet = Rrep src dst rid p ls' p t, ob_dst = b\<rparr>]"
    using path by (simp add: rep rreq_reply_def actions_send_def rreq_marked_def no_actions_def node sel(2,6))
  with b show ?thesis
    by (rule that)
qed

lemma request_hop:
  assumes cfg: "configured T mode cfgs" and ok: "net_ok T mode cfgs N"
    and p: "real_path T p" "distinct p" "Suc k < length p" "last p = dst"
    and ready: "ready T mode cfgs p src rid N k"
    and here: "node_addr T (p ! Suc k) = Some a"
    and wire: "(sender, Rreq src dst rid (p ! k) h (take (Suc k) p) ls (take (Suc k) p) t, a) \<in> net_wire N"
  obtains N' ls' h' where "net_step T N N'" "net_ok T mode cfgs N'" "others_same {p ! Suc k} N N'"
    "if Suc (Suc k) < length p
     then \<exists>b. node_addr T (p ! Suc (Suc k)) = Some b
       \<and> (a, Rreq src dst rid (p ! Suc k) h' (take (Suc (Suc k)) p) ls' (take (Suc (Suc k)) p) t, b) \<in> net_wire N'
     else \<exists>b. node_addr T (p ! k) = Some b \<and> (a, Rrep src dst rid p ls' p t, b) \<in> net_wire N'"
proof -
  let ?i = "p ! Suc k" and ?clk = "\<lambda>_. 0 :: u64"
  note node = net_ok_node(1,2) [OF cfg ok, of ?i] net_ok_node(3) [OF cfg ok wire]
  have "unat h = k"
    using node(3) p(3) by simp
  note pass = request_passes [OF cfg ok p(1,3) ready this]
  obtain ls' where ls': "extend_label_path (net_nodes N ?i) (p ! k) ls = Some ls'"
    using pass(2) by blast
  have path: "push_if_new (take (Suc k) p) ?i = take (Suc (Suc k)) p"
    using rreq_extends(1) [OF cfg node(1,2) here node(3) pass(1) [of ?clk] ls'] take_snoc [OF p(3)] by simp
  define res where "res = handle_rreq ?clk (net_nodes N ?i) src dst rid (p ! k) h (take (Suc k) p) ls (take (Suc k) p) t"
  have step: "net_step T N (net_apply N ?i a res)"
    using net_step.deliver [OF here wire, of ?clk] by (simp add: res_def)
  show ?thesis
  proof (rule that [OF step net_step_ok [OF cfg ok step]])
    show "if Suc (Suc k) < length p
     then \<exists>b. node_addr T (p ! Suc (Suc k)) = Some b
       \<and> (a, Rreq src dst rid ?i (h + 1) (take (Suc (Suc k)) p) ls' (take (Suc (Suc k)) p) t, b)
         \<in> net_wire (net_apply N ?i a res)
     else \<exists>b. node_addr T (p ! k) = Some b
       \<and> (a, Rrep src dst rid p ls' p t, b) \<in> net_wire (net_apply N ?i a res)"
    proof (cases "Suc (Suc k) < length p")
      case True
      obtain b where b: "node_addr T (p ! Suc (Suc k)) = Some b"
        "\<lparr>ob_packet = Rreq src dst rid ?i (h + 1) (take (Suc (Suc k)) p) ls' (take (Suc (Suc k)) p) t, ob_dst = b\<rparr>
           \<in> set (pa_outbound (snd res))"
        using request_forwarded [OF cfg ok p(1,2) True p(4) pass(1) [of ?clk] ls', of "take (Suc k) p" t]
        unfolding path res_def [symmetric] .
      then show ?thesis
        using True sent_on_wire [OF b(2)] by simp
    next
      case False
      then have len: "length p = Suc (Suc k)"
        using p(3) by simp
      then have dst: "?i = dst"
        using p(4) by (cases p rule: rev_cases) (auto simp: nth_append)
      have "push_if_new (take (Suc k) p) dst = p"
        using path len dst by simp
      from request_answered [OF cfg ok p(1,2) len p(4) pass(1) [of ?clk, unfolded dst] ls' [unfolded dst] this, of t]
      obtain b where "node_addr T (p ! k) = Some b"
        "pa_outbound (snd res) = [\<lparr>ob_packet = Rrep src dst rid p ls' p t, ob_dst = b\<rparr>]"
        unfolding dst res_def [symmetric, unfolded dst] .
      then show ?thesis
        using False by (simp add: sent_on_wire)
    qed
  qed simp
qed

lemma others_same_set_drop:
  assumes "others_same {p ! k} N N1" "others_same (set (drop (Suc k) p)) N1 N2" "k < length p"
  shows "others_same (set (drop k p)) N N2"
  using assms by (auto simp: others_same_def Cons_nth_drop_Suc [symmetric])

text \<open>
  The whole way: from any node of the path on, the request reaches the destination, whose reply
  is then on its way to the node before it.
\<close>

lemma request_travels:
  assumes cfg: "configured T mode cfgs"
    and p: "real_path T p" "distinct p" "last p = dst"
    and "net_ok T mode cfgs N" "Suc k < length p"
    and "\<And>j. k \<le> j \<Longrightarrow> Suc j < length p \<Longrightarrow> ready T mode cfgs p src rid N j"
    and "node_addr T (p ! Suc k) = Some a"
    and "(sender, Rreq src dst rid (p ! k) h (take (Suc k) p) ls (take (Suc k) p) t, a) \<in> net_wire N"
  shows "\<exists>N' ls' s b. (net_step T)\<^sup>*\<^sup>* N N' \<and> net_ok T mode cfgs N' \<and> others_same (set (drop (Suc k) p)) N N'
     \<and> node_addr T (p ! (length p - 1)) = Some s \<and> node_addr T (p ! (length p - 2)) = Some b
     \<and> (s, Rrep src dst rid p ls' p t, b) \<in> net_wire N'"
  using assms(5-9)
proof (induction "length p - k" arbitrary: k N sender h ls a rule: less_induct)
  case less
  note hop = request_hop [OF cfg less.prems(1) p(1,2) less.prems(2) p(3) less.prems(3) less.prems(4,5)]
  obtain N1 ls' h' where N1: "net_step T N N1" "net_ok T mode cfgs N1" "others_same {p ! Suc k} N N1"
    and wire: "if Suc (Suc k) < length p
     then \<exists>b. node_addr T (p ! Suc (Suc k)) = Some b
       \<and> (a, Rreq src dst rid (p ! Suc k) h' (take (Suc (Suc k)) p) ls' (take (Suc (Suc k)) p) t, b) \<in> net_wire N1
     else \<exists>b. node_addr T (p ! k) = Some b \<and> (a, Rrep src dst rid p ls' p t, b) \<in> net_wire N1"
    using hop less.prems(2) by blast
  show ?case
  proof (cases "Suc (Suc k) < length p")
    case True
    then obtain b where b: "node_addr T (p ! Suc (Suc k)) = Some b"
      "(a, Rreq src dst rid (p ! Suc k) h' (take (Suc (Suc k)) p) ls' (take (Suc (Suc k)) p) t, b) \<in> net_wire N1"
      using wire by auto
    have "ready T mode cfgs p src rid N1 j" if "Suc k \<le> j" "Suc j < length p" for j
    proof -
      have "p ! Suc j \<noteq> p ! Suc k"
        using that p(2) by (simp add: nth_eq_iff_index_eq)
      then show ?thesis
        using ready_others_same [OF less.prems(3) N1(3)] that by simp
    qed
    from less.hyps [OF _ N1(2) True this b]
    obtain N2 ls2 s c where N2: "(net_step T)\<^sup>*\<^sup>* N1 N2" "net_ok T mode cfgs N2"
      "others_same (set (drop (Suc (Suc k)) p)) N1 N2" "node_addr T (p ! (length p - 1)) = Some s"
      "node_addr T (p ! (length p - 2)) = Some c" "(s, Rrep src dst rid p ls2 p t, c) \<in> net_wire N2"
      using True by fastforce
    show ?thesis
      using N2 converse_rtranclp_into_rtranclp [OF N1(1) N2(1)]
        others_same_set_drop [OF N1(3) N2(3) less.prems(2)] by blast
  next
    case False
    then have "length p - 1 = Suc k" "length p - 2 = k"
      using less.prems(2) by auto
    moreover have "others_same (set (drop (Suc k) p)) N N1"
      using others_same_set_drop [OF N1(3) _ less.prems(2), of N1] by (simp add: others_same_def)
    ultimately show ?thesis
      using N1 wire False less.prems(4) by (auto intro: r_into_rtranclp)
  qed
qed

section \<open>The reply travels back\<close>

lemma reply_valid:
  assumes cfg: "configured T mode cfgs" and p: "real_path T p" "distinct p" "Suc k < length p"
    and addr: "node_addr T (p ! Suc k) = Some s"
  shows "validate_rrep (cfgs (p ! k)) s p = Inr ()"
proof -
  note sel = configured_sel [OF cfg]
  have "position (\<lambda>n. n = p ! k) p = Some k"
    using p by (auto simp: position_Some nth_eq_iff_index_eq)
  moreover have "are_adjacent (cfgs (p ! k)) (p ! k) (p ! j)" if "k = Suc j" for j
    using real_path_step [OF p(1), of j] p(3) that
    by (auto simp: are_adjacent_def links_def sel split: option.splits)
  ultimately show ?thesis
    unfolding validate_rrep_ok using real_path_step [OF p(1,3)] p(3) addr
    by (intro exI [of _ "p ! Suc k"] exI [of _ k]) (auto simp: sel)
qed

lemma reply_hop:
  assumes cfg: "configured T mode cfgs" and ok: "net_ok T mode cfgs N"
    and p: "real_path T p" "distinct p" "Suc (Suc k) < length p" "hd p = src"
    and addr: "node_addr T (p ! Suc (Suc k)) = Some s" "node_addr T (p ! Suc k) = Some a"
      "node_addr T (p ! k) = Some b"
    and wire: "(s, Rrep src dst rid p ls p t, a) \<in> net_wire N"
  obtains N' where "net_step T N N'" "net_ok T mode cfgs N'" "others_same {p ! Suc k} N N'"
    "(a, Rrep src dst rid p ls p t, b) \<in> net_wire N'"
proof -
  note sel = configured_sel [OF cfg] and node = net_ok_node(1) [OF cfg ok, of "p ! Suc k"]
  define res where "res = handle_rrep (\<lambda>_. 0) (net_nodes N (p ! Suc k)) s src dst rid p ls p t"
  have step: "net_step T N (net_apply N (p ! Suc k) a res)"
    using net_step.deliver [OF addr(2) wire, of "\<lambda>_. 0"] by (simp add: res_def)
  have prev: "previous_in_trace p (p ! Suc k) = Some (p ! k)"
    unfolding previous_in_trace_Some
    using p(2,3) by (intro exI [of _ k]) (auto simp: nth_eq_iff_index_eq)
  have "p ! Suc k \<noteq> src"
    using p nth_eq_iff_index_eq [OF p(2), of "Suc k" 0] by (cases p) auto
  then have "pa_outbound (snd res) = [\<lparr>ob_packet = Rrep src dst rid p ls p t, ob_dst = b\<rparr>]"
    using reply_valid [OF cfg p(1,2,3) addr(1)] prev addr(3)
    by (simp add: res_def handle_rrep_def node sel(2,6) actions_send_def no_actions_def)
  then have "(a, Rrep src dst rid p ls p t, b) \<in> net_wire (net_apply N (p ! Suc k) a res)"
    by (simp add: net_apply_def)
  then show ?thesis
    using that [OF step net_step_ok [OF cfg ok step]] by simp
qed

lemma reply_travels:
  assumes cfg: "configured T mode cfgs"
    and p: "real_path T p" "distinct p" "hd p = src"
    and "net_ok T mode cfgs N" "Suc k < length p"
    and "node_addr T (p ! Suc k) = Some s" "node_addr T (p ! k) = Some a"
    and "(s, Rrep src dst rid p ls p t, a) \<in> net_wire N"
  shows "\<exists>N' s a. (net_step T)\<^sup>*\<^sup>* N N' \<and> net_ok T mode cfgs N' \<and> others_same (set (tl p)) N N'
     \<and> node_addr T (p ! Suc 0) = Some s \<and> node_addr T (p ! 0) = Some a
     \<and> (s, Rrep src dst rid p ls p t, a) \<in> net_wire N'"
  using assms(5-9)
proof (induction k arbitrary: N s a)
  case 0
  then show ?case
    by (auto simp: others_same_def)
next
  case (Suc k)
  have "2 \<le> length p" "k < length p"
    using Suc.prems(2) by simp_all
  from path_addr [OF configured_sel(4) [OF cfg] p(1) this]
  obtain b where b: "node_addr T (p ! k) = Some b" .
  obtain N1 where N1: "net_step T N N1" "net_ok T mode cfgs N1" "others_same {p ! Suc k} N N1"
    "(a, Rrep src dst rid p ls p t, b) \<in> net_wire N1"
    using reply_hop [OF cfg Suc.prems(1) p(1,2) Suc.prems(2) p(3) Suc.prems(3,4) b Suc.prems(5)] by blast
  obtain N2 s' a' where N2: "(net_step T)\<^sup>*\<^sup>* N1 N2" "net_ok T mode cfgs N2" "others_same (set (tl p)) N1 N2"
    "node_addr T (p ! Suc 0) = Some s'" "node_addr T (p ! 0) = Some a'"
    "(s', Rrep src dst rid p ls p t, a') \<in> net_wire N2"
    using Suc.IH [OF N1(2) _ Suc.prems(4) b N1(4)] Suc.prems(2) by auto
  have "p ! Suc k \<in> set (tl p)"
    using Suc.prems(2) nth_mem [of k "tl p"] by (simp add: nth_tl)
  then have "others_same (set (tl p)) N N2"
    using others_same_trans [OF N1(3) N2(3)] by (simp add: insert_absorb)
  then show ?case
    using N2 converse_rtranclp_into_rtranclp [OF N1(1) N2(1)] by blast
qed


text \<open>There and back again, without touching the source.\<close>

lemma request_round_trip:
  assumes cfg: "configured T mode cfgs" and ok: "net_ok T mode cfgs N"
    and p: "real_path T p" "distinct p" "Suc 0 < length p" "hd p = src" "last p = dst"
    and ready: "\<And>j. Suc j < length p \<Longrightarrow> ready T mode cfgs p src rid N j"
    and addr: "node_addr T (p ! Suc 0) = Some b"
    and wire: "(a, Rreq src dst rid src 0 [src] [] [src] t, b) \<in> net_wire N"
  obtains N' ls s a' where "(net_step T)\<^sup>*\<^sup>* N N'" "net_ok T mode cfgs N'" "net_nodes N' src = net_nodes N src"
    "node_addr T (p ! Suc 0) = Some s" "node_addr T (p ! 0) = Some a'"
    "(s, Rrep src dst rid p ls p t, a') \<in> net_wire N'"
proof -
  have p0: "p ! 0 = src" "take (Suc 0) p = [src]" "src \<notin> set (tl p)"
    using p by (cases p; auto)+
  then obtain N2 ls s c where N2: "(net_step T)\<^sup>*\<^sup>* N N2" "net_ok T mode cfgs N2" "others_same (set (tl p)) N N2"
    "node_addr T (p ! (length p - 1)) = Some s" "node_addr T (p ! (length p - 2)) = Some c"
    "(s, Rrep src dst rid p ls p t, c) \<in> net_wire N2"
    using request_travels [OF cfg p(1,2,5) ok p(3) ready addr, of a 0 "[]" t] wire by (auto simp: drop_Suc)
  have "Suc (length p - 2) < length p" "length p - 1 = Suc (length p - 2)"
    using p(3) by simp_all
  then obtain N3 s' a' where N3: "(net_step T)\<^sup>*\<^sup>* N2 N3" "net_ok T mode cfgs N3" "others_same (set (tl p)) N2 N3"
    "node_addr T (p ! Suc 0) = Some s'" "node_addr T (p ! 0) = Some a'"
    "(s', Rrep src dst rid p ls p t, a') \<in> net_wire N3"
    using reply_travels [OF cfg p(1,2,4) N2(2) _ _ N2(5,6)] N2(4) by fastforce
  moreover have "net_nodes N3 src = net_nodes N src"
    using N2(3) N3(3) p0(3) by (simp add: others_same_def)
  ultimately show ?thesis
    using that rtranclp_trans [OF N2(1) N3(1)] by blast
qed

section \<open>The source\<close>

text \<open>The reply at the source: every payload that waits for the destination goes on the wire.\<close>

lemma reply_sends_payload:
  assumes cfg: "configured T mode cfgs" and ok: "net_ok T mode cfgs N"
    and p: "real_path T p" "distinct p" "Suc 0 < length p"
    and addr: "node_addr T (p ! Suc 0) = Some s" "node_addr T (p ! 0) = Some a"
    and wire: "(s, Rrep (p ! 0) dst rid p ls p t, a) \<in> net_wire N"
    and queued: "payload \<in> set (payloads_for dst (ps_pending_data (net_nodes N (p ! 0))))"
  obtains N' ep sq dsr labels created where "net_step T N N'" "net_ok T mode cfgs N'"
    "(a, Data (p ! 0) dst sq mode 1 dsr labels payload created, ep) \<in> net_wire N'"
proof -
  define i where "i = p ! 0"
  let ?st = "net_nodes N i"
  note sel = configured_sel [OF cfg]
  note node = net_ok_node(1,2) [OF cfg ok, of i] net_ok_node(3) [OF cfg ok wire]
  define res where "res = handle_rrep (\<lambda>_. 0) ?st s i dst rid p ls p t"
  define r where "r = rrep_route (ps_config ?st) 0 dst p ls"
  let ?ps = "payloads_for dst (ps_pending_data ?st)"
  have step: "net_step T N (net_apply N i a res)"
    using net_step.deliver [OF addr(2) wire, of "\<lambda>_. 0"] by (simp add: res_def i_def)
  have valid: "validate_rrep (ps_config ?st) s p = Inr ()"
    using reply_valid [OF cfg p(1,2,3) addr(1)] node(1) by (simp add: i_def)
  have self: "self_id ?st = i"
    by (simp add: node(1) sel)
  have "full_route T mode (net_view N) i dst (re_dsr_path r) (re_dldsr_label_path r)"
    using node(3)
    by (auto simp: r_def i_def rrep_route_def route_new_dsr_def node(1) [unfolded i_def] sel full_route_def route_ok_def
        split: protocol_mode.splits)
  then obtain ep where ep: "origin_resolves ?st r = Some ep"
    using origin_on_route [OF cfg node(1,2)] by blast
  have out: "pa_outbound (snd res) = map (\<lambda>q. \<lparr>ob_packet = q, ob_dst = ep\<rparr>)
      (flush_packets (clock_tl (\<lambda>_. 0)) (ps_config ?st) (ps_next_sequence ?st) dst r ?ps)"
    using handle_rrep_source_eq [OF valid, of "\<lambda>_. 0" dst rid p ls t] ep
    by (simp add: res_def self r_def [symmetric] Let_def)
  obtain n where n: "n < length ?ps" "?ps ! n = payload"
    using queued by (metis i_def in_set_conv_nth)
  let ?q = "origin_packet (ps_config ?st) (ps_next_sequence ?st + of_nat n) dst payload r (clock_tl (\<lambda>_. 0) n)"
  have "?q \<in> set (flush_packets (clock_tl (\<lambda>_. 0)) (ps_config ?st) (ps_next_sequence ?st) dst r ?ps)"
    using nth_flush_packets [OF n(1)] n by (metis length_flush_packets nth_mem)
  then have "(a, ?q, ep) \<in> net_wire (net_apply N i a res)"
    by (auto simp: net_apply_def out image_image)
  then have "(a, Data i dst (ps_next_sequence ?st + of_nat n) mode 1 (re_dsr_path r) (re_dldsr_label_path r)
      payload (clock_tl (\<lambda>_. 0) n), ep) \<in> net_wire (net_apply N i a res)"
    by (simp add: origin_packet_def node(1) sel)
  then show ?thesis
    unfolding i_def by (rule that [OF step net_step_ok [OF cfg ok step], unfolded i_def])
qed

text \<open>The command: the payload waits and the request is on its way to every neighbour.\<close>

lemma command_starts_discovery:
  assumes cfg: "configured T mode cfgs" and ok: "net_ok T mode cfgs N"
    and here: "node_addr T i = Some a" and nbr: "links T i n" "node_addr T n = Some b"
    and fresh: "route_shortest (ps_routes (net_nodes N i)) dst now = None"
      "hm_get (ps_discoveries (net_nodes N i)) dst = None"
  obtains N' where "net_step T N N'" "net_ok T mode cfgs N'" "others_same {i} N N'"
    "payload \<in> set (payloads_for dst (ps_pending_data (net_nodes N' i)))"
    "(a, Rreq i dst (ps_next_request_id (net_nodes N i)) i 0 [i] [] [i] now, b) \<in> net_wire N'"
proof -
  note sel = configured_sel [OF cfg] and node = net_ok_node(1) [OF cfg ok, of i]
  let ?res = "handle_command (\<lambda>_. now) (net_nodes N i) (DiscoverAndSend dst payload)"
  let ?N' = "net_apply (N\<lparr>net_issued := insert (i, dst, payload) (net_issued N)\<rparr>) i a ?res"
  have step: "net_step T N ?N'"
    by (rule net_step.command [OF here])
  have "b \<in> set (endpoints_of (cfgs i) (logical_neighbors (cfgs i)))"
    using nbr sel(5) [of i n] by (auto simp: set_endpoints_of sel(6) is_logical_neighbor_def)
  then have "(a, Rreq i dst (ps_next_request_id (net_nodes N i)) i 0 [i] [] [i] now, b) \<in> net_wire ?N'"
    using fresh
    by (auto simp: net_apply_def discover_and_send_def start_discovery_def rreq_originate_loop_eq
        node sel(2) send_all_def image_image Let_def)
  moreover have "payload \<in> set (payloads_for dst (ps_pending_data (net_nodes ?N' i)))"
    using fresh by (simp add: net_apply_def discover_and_send_def start_discovery_def Let_def)
  moreover have "others_same {i} N ?N'"
    by (simp add: others_same_def net_apply_def)
  ultimately show ?thesis
    using that [OF step net_step_ok [OF cfg ok step]] by blast
qed

section \<open>Discovery delivers\<close>

text \<open>The whole run, from the command to the delivery.\<close>

lemma discovery_run:
  assumes cfg: "configured T mode cfgs" and ok: "net_ok T mode cfgs N"
    and p: "real_path T p" "distinct p" "2 \<le> length p" and ends: "hd p = src" "last p = dst"
    and ready: "\<And>k. Suc k < length p \<Longrightarrow> ready T mode cfgs p src (ps_next_request_id (net_nodes N src)) N k"
    and fresh: "route_shortest (ps_routes (net_nodes N src)) dst now = None"
      "hm_get (ps_discoveries (net_nodes N src)) dst = None"
  shows "\<exists>N' sq. (net_step T)\<^sup>*\<^sup>* N N' \<and> (dst, DataDelivered dst src dst sq payload) \<in> net_reported N'"
proof -
  have p0: "p ! 0 = src" "Suc 0 < length p"
    using p ends by (cases p; auto)+
  let ?rid = "ps_next_request_id (net_nodes N src)"
  note addr = path_addr [OF configured_sel(4) [OF cfg] p(1,3)]
  obtain a where a: "node_addr T src = Some a"
    using addr [of 0] p0 by (metis Suc_lessD)
  obtain b where b: "node_addr T (p ! Suc 0) = Some b"
    using addr [OF p0(2)] .
  have "links T src (p ! Suc 0)"
    using real_path_step [OF p(1), of 0] p0 by simp
  from command_starts_discovery [OF cfg ok a this b fresh]
  obtain N1 where N1: "net_step T N N1" "net_ok T mode cfgs N1" "others_same {src} N N1"
    "payload \<in> set (payloads_for dst (ps_pending_data (net_nodes N1 src)))"
    "(a, Rreq src dst ?rid src 0 [src] [] [src] now, b) \<in> net_wire N1" .
  have ready1: "ready T mode cfgs p src ?rid N1 j" if "Suc j < length p" for j
  proof -
    have "p ! Suc j \<noteq> src"
      using that p0(1) nth_eq_iff_index_eq [OF p(2), of "Suc j" 0] by fastforce
    then show ?thesis
      using ready_others_same [OF ready [OF that] N1(3)] by simp
  qed
  from request_round_trip [OF cfg N1(2) p(1,2) p0(2) ends ready1 b N1(5)]
  obtain N3 ls s a' where N3: "(net_step T)\<^sup>*\<^sup>* N1 N3" "net_ok T mode cfgs N3" "net_nodes N3 src = net_nodes N1 src"
    "node_addr T (p ! Suc 0) = Some s" "node_addr T (p ! 0) = Some a'"
    "(s, Rrep src dst ?rid p ls p now, a') \<in> net_wire N3" .
  from N1(4) have "payload \<in> set (payloads_for dst (ps_pending_data (net_nodes N3 src)))"
    by (simp add: N3(3))
  from reply_sends_payload [OF cfg N3(2) p(1,2) p0(2) N3(4,5), unfolded p0(1), OF N3(6) this]
  obtain N4 ep sq dsr labels created where N4: "net_step T N3 N4" "net_ok T mode cfgs N4"
    "(a', Data src dst sq mode 1 dsr labels payload created, ep) \<in> net_wire N4" .
  obtain N5 where N5: "((net_step T) ^^ (length dsr - unat (1 :: usize))) N4 N5"
    "(dst, DataDelivered dst src dst sq payload) \<in> net_reported N5"
    using data_arrives [OF cfg N4(2,3) refl] by blast
  have "(net_step T)\<^sup>*\<^sup>* N N5"
    by (intro converse_rtranclp_into_rtranclp [of "net_step T", OF N1(1)] rtranclp_trans [OF N3(1)]
        converse_rtranclp_into_rtranclp [of "net_step T", OF N4(1)] relpowp_imp_rtranclp [OF N5(1)])
  then show ?thesis
    using N5(2) by blast
qed

end
