(* ===== verification/Network_Hello.thy ===== *)
theory Network_Hello
  imports Network_Discovery
begin

text \<open>
  Labels can be learnt: a hello, its reply and nothing else give a node the label its neighbour
  holds for it. Done along a path, this opens the path for a discovery in DL-DSR mode.
\<close>

section \<open>One exchange\<close>

text \<open>
  What an exchange leaves alone, at every node: the requests seen, the routes, the discoveries,
  the request ids and the labels already learnt.
\<close>

definition quiet :: "network \<Rightarrow> network \<Rightarrow> bool" where
  "quiet N N' \<longleftrightarrow>
     (\<forall>j. ps_seen_requests (net_nodes N' j) = ps_seen_requests (net_nodes N j)
        \<and> ps_routes (net_nodes N' j) = ps_routes (net_nodes N j)
        \<and> ps_discoveries (net_nodes N' j) = ps_discoveries (net_nodes N j)
        \<and> ps_next_request_id (net_nodes N' j) = ps_next_request_id (net_nodes N j)
        \<and> (\<forall>a. label_assigned_by_neighbor (ps_labels (net_nodes N j)) a \<noteq> None \<longrightarrow>
             label_assigned_by_neighbor (ps_labels (net_nodes N' j)) a \<noteq> None))"

lemma quiet_refl [simp]: "quiet N N"
  by (simp add: quiet_def)

lemma quiet_trans: "quiet N N1 \<Longrightarrow> quiet N1 N2 \<Longrightarrow> quiet N N2"
  by (simp add: quiet_def)

text \<open>A node that still has a label to give.\<close>

definition room :: "network \<Rightarrow> u32 \<Rightarrow> bool" where
  "room N j \<longleftrightarrow> length (nt_entries (ps_neighbors (net_nodes N j))) < 255"

lemma hello_sent:
  assumes cfg: "configured T mode cfgs" and ok: "net_ok T mode cfgs N"
    and here: "node_addr T y = Some b" and nbr: "links T y x" "node_addr T x = Some a"
  obtains N' ts where "net_step T N N'" "net_ok T mode cfgs N'" "net_nodes N' = net_nodes N"
    "(b, Hello y ts, a) \<in> net_wire N'"
proof -
  note sel = configured_sel [OF cfg] and node = net_ok_node(1) [OF cfg ok, of y]
  let ?out = "pa_outbound (send_hellos (\<lambda>_. 0) (net_nodes N y))"
  let ?N' = "net_apply N y b (net_nodes N y, send_hellos (\<lambda>_. 0) (net_nodes N y))"
  have step: "net_step T N ?N'"
    using here by (rule net_step.hello)
  have "a \<in> set (map ob_dst ?out)"
    unfolding send_hellos_def send_hellos_loop_eq
    using nbr sel(5) [of y x] by (auto simp: node set_endpoints_of sel(6) is_logical_neighbor_def)
  then obtain ob where ob: "ob \<in> set ?out" "ob_dst ob = a"
    by auto
  obtain ts where "ob_packet ob = Hello y ts"
    using send_hellos_packets [OF ob(1)] by (auto simp: node sel)
  then have "\<lparr>ob_packet = Hello y ts, ob_dst = a\<rparr> \<in> set ?out"
    using ob by (cases ob) simp
  then have "(b, Hello y ts, a) \<in> net_wire ?N'"
    by (intro sent_on_wire) simp
  moreover have "net_nodes ?N' = net_nodes N"
    by (simp add: net_apply_def)
  ultimately show ?thesis
    using that [OF step net_step_ok [OF cfg ok step]] by blast
qed

lemma hello_answered:
  assumes cfg: "configured T mode cfgs" and ok: "net_ok T mode cfgs N"
    and here: "node_addr T x = Some a" and nbr: "links T x y"
    and room: "room N x" and wire: "(b, Hello y ts, a) \<in> net_wire N"
  obtains N' l where "net_step T N N'" "net_ok T mode cfgs N'" "others_same {x} N N'" "quiet N N'"
    "(a, HelloReply x y l True 0, b) \<in> net_wire N'"
proof -
  note sel = configured_sel [OF cfg] and node = net_ok_node(1,2) [OF cfg ok, of x]
  let ?st = "net_nodes N x"
  let ?res = "handle_hello (\<lambda>_. 0) ?st y ts b"
  let ?N' = "net_apply N x a ?res"
  have step: "net_step T N ?N'"
    using net_step.deliver [OF here wire, of "\<lambda>_. 0"] by simp
  have wf: "neighbor_table_wf (ps_neighbors ?st)"
    using state_ok_inv [OF node(2)] by (simp add: node_inv_def tables_wf_def)
  have "free_label (ps_neighbors ?st) \<noteq> None"
    using room by (simp add: free_label_None_size [OF wf] room_def)
  then obtain t l where t: "assign_or_reuse_label (ps_neighbors ?st) y b 0 = (t, Inr l)"
    using assign_error [of "ps_neighbors ?st" y b 0] by (metis prod.collapse sum.exhaust)
  then have res: "?res = (?st\<lparr>ps_neighbors := t\<rparr>, actions_send no_actions (HelloReply x y l True 0) b)"
    using nbr by (simp add: handle_hello_def node sel)
  have "(a, HelloReply x y l True 0, b) \<in> net_wire ?N'"
    by (rule sent_on_wire) (simp add: res actions_send_def)
  moreover have "quiet N ?N'"
    by (simp add: quiet_def net_apply_def res)
  ultimately show ?thesis
    using that [OF step net_step_ok [OF cfg ok step]] by simp
qed

lemma hello_reply_learnt:
  assumes cfg: "configured T mode cfgs" and ok: "net_ok T mode cfgs N"
    and here: "node_addr T y = Some b" and nbr: "links T y x"
    and wire: "(a, HelloReply x y l r ts, b) \<in> net_wire N"
  obtains N' where "net_step T N N'" "net_ok T mode cfgs N'" "quiet N N'"
    "label_assigned_by_neighbor (ps_labels (net_nodes N' y)) x \<noteq> None"
    "\<And>j. ps_neighbors (net_nodes N' j) = ps_neighbors (net_nodes N j)"
proof -
  note sel = configured_sel [OF cfg] and node = net_ok_node(1) [OF cfg ok, of y]
  let ?st = "net_nodes N y"
  let ?N' = "net_apply N y b (handle_hello_reply ?st x y l ts)"
  have step: "net_step T N ?N'"
    using net_step.deliver [OF here wire, of "\<lambda>_. 0"] by simp
  have res: "fst (handle_hello_reply ?st x y l ts) =
      ?st\<lparr>ps_labels := update_from_hello_reply (ps_labels ?st) x l ts\<rparr>"
    using nbr by (simp add: handle_hello_reply_def node sel)
  have nodes: "net_nodes ?N' = (net_nodes N)(y := ?st\<lparr>ps_labels := update_from_hello_reply (ps_labels ?st) x l ts\<rparr>)"
    by (simp add: net_apply_def res)
  show ?thesis
  proof (rule that [OF step net_step_ok [OF cfg ok step]])
    show "quiet N ?N'" "label_assigned_by_neighbor (ps_labels (net_nodes ?N' y)) x \<noteq> None"
      by (auto simp: quiet_def nodes label_assigned_by_neighbor_def update_from_hello_reply_def hm_simps)
    show "ps_neighbors (net_nodes ?N' j) = ps_neighbors (net_nodes N j)" for j
      by (simp add: nodes)
  qed
qed

lemma hello_exchange:
  assumes cfg: "configured T mode cfgs" and ok: "net_ok T mode cfgs N"
    and nbr: "links T x y" "links T y x" and room: "room N x"
  obtains N' where "(net_step T)\<^sup>*\<^sup>* N N'" "net_ok T mode cfgs N'" "quiet N N'"
    "label_assigned_by_neighbor (ps_labels (net_nodes N' y)) x \<noteq> None"
    "\<And>j. j \<noteq> x \<Longrightarrow> ps_neighbors (net_nodes N' j) = ps_neighbors (net_nodes N j)"
proof -
  obtain a b where addr: "node_addr T x = Some a" "node_addr T y = Some b"
    using nbr links_addr [OF configured_sel(4) [OF cfg]] by blast
  obtain N1 ts where N1: "net_step T N N1" "net_ok T mode cfgs N1" "net_nodes N1 = net_nodes N"
    "(b, Hello y ts, a) \<in> net_wire N1"
    using hello_sent [OF cfg ok addr(2) nbr(2) addr(1)] .
  have "room N1 x"
    using room by (simp add: room_def N1(3))
  from hello_answered [OF cfg N1(2) addr(1) nbr(1) this N1(4)]
  obtain N2 l where N2: "net_step T N1 N2" "net_ok T mode cfgs N2" "others_same {x} N1 N2" "quiet N1 N2"
    "(a, HelloReply x y l True 0, b) \<in> net_wire N2" .
  from hello_reply_learnt [OF cfg N2(2) addr(2) nbr(2) N2(5)]
  obtain N3 where N3: "net_step T N2 N3" "net_ok T mode cfgs N3" "quiet N2 N3"
    "label_assigned_by_neighbor (ps_labels (net_nodes N3 y)) x \<noteq> None"
    "\<And>j. ps_neighbors (net_nodes N3 j) = ps_neighbors (net_nodes N2 j)"
    by blast
  show ?thesis
  proof (rule that)
    show "(net_step T)\<^sup>*\<^sup>* N N3"
      by (intro converse_rtranclp_into_rtranclp [of "net_step T", OF N1(1)]
          converse_rtranclp_into_rtranclp [of "net_step T", OF N2(1)] r_into_rtranclp [of "net_step T", OF N3(1)])
    show "quiet N N3"
      using quiet_trans [OF N2(4) N3(3)] N1(3) by (simp add: quiet_def)
    show "ps_neighbors (net_nodes N3 j) = ps_neighbors (net_nodes N j)" if "j \<noteq> x" for j
      using that N2(3) by (simp add: N3(5) N1(3) others_same_def)
  qed (fact N3)+
qed

section \<open>Along a path\<close>

lemma labels_learnt_along:
  assumes cfg: "configured T mode cfgs" and ok: "net_ok T mode cfgs N"
    and p: "real_path T p" "distinct p" and room: "\<And>k. Suc k < length p \<Longrightarrow> room N (p ! k)"
    and "n < length p"
  shows "\<exists>N'. (net_step T)\<^sup>*\<^sup>* N N' \<and> net_ok T mode cfgs N' \<and> quiet N N'
     \<and> (\<forall>k < n. label_assigned_by_neighbor (ps_labels (net_nodes N' (p ! Suc k))) (p ! k) \<noteq> None)
     \<and> (\<forall>k. n \<le> k \<longrightarrow> Suc k < length p \<longrightarrow> room N' (p ! k))"
  using assms(6)
proof (induction n)
  case 0
  then show ?case
    using ok room by (intro exI [of _ N]) simp
next
  case (Suc n)
  then obtain N1 where N1: "(net_step T)\<^sup>*\<^sup>* N N1" "net_ok T mode cfgs N1" "quiet N N1"
    "\<And>k. k < n \<Longrightarrow> label_assigned_by_neighbor (ps_labels (net_nodes N1 (p ! Suc k))) (p ! k) \<noteq> None"
    "\<And>k. n \<le> k \<Longrightarrow> Suc k < length p \<Longrightarrow> room N1 (p ! k)"
    by auto
  obtain N2 where N2: "(net_step T)\<^sup>*\<^sup>* N1 N2" "net_ok T mode cfgs N2" "quiet N1 N2"
    "label_assigned_by_neighbor (ps_labels (net_nodes N2 (p ! Suc n))) (p ! n) \<noteq> None"
    "\<And>j. j \<noteq> p ! n \<Longrightarrow> ps_neighbors (net_nodes N2 j) = ps_neighbors (net_nodes N1 j)"
    using hello_exchange [OF cfg N1(2) _ _ N1(5) [OF order_refl Suc.prems]] real_path_step [OF p(1) Suc.prems]
    by blast
  show ?case
  proof (intro exI conjI allI impI)
    show "(net_step T)\<^sup>*\<^sup>* N N2"
      using N1(1) N2(1) by (rule rtranclp_trans)
    show "quiet N N2"
      using N1(3) N2(3) by (rule quiet_trans)
    show "label_assigned_by_neighbor (ps_labels (net_nodes N2 (p ! Suc k))) (p ! k) \<noteq> None" if "k < Suc n" for k
      using that N1(4) N2(3,4) unfolding quiet_def less_Suc_eq by blast
    show "room N2 (p ! k)" if "Suc n \<le> k" "Suc k < length p" for k
    proof -
      have "p ! k \<noteq> p ! n"
        using that p(2) by (simp add: nth_eq_iff_index_eq)
      then show ?thesis
        using N1(5) [of k] that by (simp add: room_def N2(5))
    qed
  qed (fact N2)
qed

section \<open>Discovery from cold\<close>

text \<open>
  What the nodes of a path need so that a discovery along it can succeed, labels learnt or not:
  the request is new to them, its hop count is accepted and in DL-DSR mode the node before them
  has a label left to give.
\<close>

definition open_hop ::
    "protocol_mode \<Rightarrow> (u32 \<Rightarrow> node_config) \<Rightarrow> u32 list \<Rightarrow> u32 \<Rightarrow> u64 \<Rightarrow> network \<Rightarrow> nat \<Rightarrow> bool" where
  "open_hop mode cfgs p src rid N k \<longleftrightarrow>
     hm_get (sr_seen (ps_seen_requests (net_nodes N (p ! Suc k)))) (src, rid) = None
     \<and> k < unat (cfg_max_rreq_hops (cfgs (p ! Suc k)))
     \<and> (mode = DlDsr \<longrightarrow> room N (p ! k))"

lemma path_made_ready:
  assumes cfg: "configured T mode cfgs" and ok: "net_ok T mode cfgs N"
    and p: "real_path T p" "distinct p"
    and hops: "\<And>k. Suc k < length p \<Longrightarrow> open_hop mode cfgs p src rid N k"
  obtains N' where "(net_step T)\<^sup>*\<^sup>* N N'" "net_ok T mode cfgs N'" "quiet N N'"
    "\<And>k. Suc k < length p \<Longrightarrow> ready T mode cfgs p src rid N' k"
proof (cases "mode = DlDsr")
  case True
  then have room: "room N (p ! k)" if "Suc k < length p" for k
    using hops [OF that] by (simp add: open_hop_def)
  have "length p - 1 < length p"
    using p(1) by (simp add: real_path_def)
  from labels_learnt_along [OF cfg ok p room this]
  obtain N' where N': "(net_step T)\<^sup>*\<^sup>* N N'" "net_ok T mode cfgs N'" "quiet N N'"
    "\<forall>k < length p - 1. label_assigned_by_neighbor (ps_labels (net_nodes N' (p ! Suc k))) (p ! k) \<noteq> None"
    by auto
  have "ready T mode cfgs p src rid N' k" if "Suc k < length p" for k
    using that hops [OF that] N'(3,4) by (simp add: ready_def open_hop_def quiet_def)
  then show ?thesis
    using that N'(1-3) by blast
next
  case False
  then show ?thesis
    using that [OF rtranclp.rtrancl_refl ok quiet_refl] hops by (simp add: ready_def open_hop_def)
qed

lemma cold_discovery_run:
  assumes cfg: "configured T mode cfgs" and ok: "net_ok T mode cfgs N"
    and p: "real_path T p" "distinct p" "2 \<le> length p" and ends: "hd p = src" "last p = dst"
    and hops: "\<And>k. Suc k < length p \<Longrightarrow> open_hop mode cfgs p src (ps_next_request_id (net_nodes N src)) N k"
    and fresh: "route_shortest (ps_routes (net_nodes N src)) dst now = None"
      "hm_get (ps_discoveries (net_nodes N src)) dst = None"
  shows "\<exists>N' sq. (net_step T)\<^sup>*\<^sup>* N N' \<and> (dst, DataDelivered dst src dst sq payload) \<in> net_reported N'"
proof -
  from path_made_ready [OF cfg ok p(1,2) hops]
  obtain N1 where N1: "(net_step T)\<^sup>*\<^sup>* N N1" "net_ok T mode cfgs N1" "quiet N N1"
    "\<And>k. Suc k < length p \<Longrightarrow> ready T mode cfgs p src (ps_next_request_id (net_nodes N src)) N1 k"
    by blast
  have same: "ps_next_request_id (net_nodes N1 src) = ps_next_request_id (net_nodes N src)"
    "ps_routes (net_nodes N1 src) = ps_routes (net_nodes N src)"
    "ps_discoveries (net_nodes N1 src) = ps_discoveries (net_nodes N src)"
    using N1(3) by (simp_all add: quiet_def)
  obtain N2 sq where N2: "(net_step T)\<^sup>*\<^sup>* N1 N2" "(dst, DataDelivered dst src dst sq payload) \<in> net_reported N2"
    using discovery_run [OF cfg N1(2) p ends, unfolded same, OF N1(4) fresh] by blast
  then show ?thesis
    using rtranclp_trans [OF N1(1) N2(1)] by blast
qed

end
