(* ===== verification/Network_Example.thy ===== *)
theory Network_Example
  imports Network_Hello
begin

text \<open>
  A run of the network of the four-node chain: node 0 discovers its neighbour 1, caches the route
  and puts the waiting payload on the wire.
\<close>

abbreviation chain_cfgs :: "protocol_mode \<Rightarrow> u32 \<Rightarrow> node_config" where
  "chain_cfgs m \<equiv> \<lambda>i. chain_config i m"

lemma chain_configured: "configured chain4 m (chain_cfgs m)"
  by (simp add: configured_def net_topology_def topology_wf_def chain4_def local_addr_def)

lemma chain_addr [simp]:
  "node_addr chain4 0 = Some (local_addr 7000)" "node_addr chain4 1 = Some (local_addr 7001)"
  "node_addr chain4 2 = Some (local_addr 7002)" "node_addr chain4 3 = Some (local_addr 7003)"
  by (simp_all add: node_addr_def chain4_nodes)

text \<open>In a chain that has just started the way from end to end is open, in both modes.\<close>

lemma chain_path: "real_path chain4 [0, 1, 2, 3]"
  by (auto simp: real_path_def links_def chain4_nodes less_Suc_eq numeral_eq_Suc)

lemma chain_open:
  "Suc k < length ([0, 1, 2, 3] :: u32 list) \<Longrightarrow>
     open_hop m (chain_cfgs m) [0, 1, 2, 3] 0 rid (net_start (chain_cfgs m)) k"
  by (auto simp: open_hop_def net_start_def room_def neighbor_table_default_def)

text \<open>Node 0 asks for a route to node 1.\<close>

definition asked :: network where
  "asked =
     net_apply ((net_start (chain_cfgs Dsr))\<lparr>net_issued := {(0, 1, [7])}\<rparr>) 0 (local_addr 7000)
       (handle_command (\<lambda>_. 100) (chain_node 0 Dsr) (DiscoverAndSend 1 [7]))"

text \<open>Node 1 answers.\<close>

definition answered :: network where
  "answered =
     net_apply asked 1 (local_addr 7001)
       (handle_packet (\<lambda>_. 110) (net_nodes asked 1) (Rreq 0 1 1 0 0 [0] [] [0] 100) (local_addr 7000))"

text \<open>Node 0 caches the route and sends the payload.\<close>

definition sent :: network where
  "sent =
     net_apply answered 0 (local_addr 7000)
       (handle_packet (\<lambda>_. 120) (net_nodes answered 0) (Rrep 0 1 1 [0, 1] [] [0, 1] 100) (local_addr 7001))"

lemma asked_step: "net_step chain4 (net_start (chain_cfgs Dsr)) asked"
  using net_step.command [of chain4 0 "local_addr 7000" "net_start (chain_cfgs Dsr)" 1 "[7]" "\<lambda>_. 100"]
  by (simp add: asked_def net_start_def)

lemma asked_wire: "(local_addr 7000, Rreq 0 1 1 0 0 [0] [] [0] 100, local_addr 7001) \<in> net_wire asked"
  by (simp add: asked_def net_apply_def discover_and_send_def route_shortest_def route_cache_default_def
      start_discovery_def rreq_originate_loop_eq Let_def)

lemma asked_nodes:
  "net_nodes asked 1 = chain_node 1 Dsr"
  "net_nodes asked 0 = fst (discover_and_send (\<lambda>_. 100) (chain_node 0 Dsr) 1 [7])"
  by (simp_all add: asked_def net_apply_def net_start_def)

lemma answered_step: "net_step chain4 asked answered"
  unfolding answered_def by (rule net_step.deliver [OF _ asked_wire]) simp

lemma answered_wire: "(local_addr 7001, Rrep 0 1 1 [0, 1] [] [0, 1] 100, local_addr 7000) \<in> net_wire answered"
proof -
  have "previous_in_trace [0, 1] 1 = Some 0"
    using previous_in_trace_snoc [of 1 "[0]"] by simp
  then show ?thesis
    by (simp add: answered_def net_apply_def asked_nodes handle_rreq_def is_logical_neighbor_def
        extend_label_path_def push_if_new_def slice_last_def rreq_reply_def split_beta Let_def)
qed

lemma answered_node: "net_nodes answered 0 = fst (discover_and_send (\<lambda>_. 100) (chain_node 0 Dsr) 1 [7])"
  by (simp add: answered_def net_apply_def asked_nodes)

lemma sent_step: "net_step chain4 answered sent"
  unfolding sent_def by (rule net_step.deliver [OF _ answered_wire]) simp

lemma discovered_state:
  "ps_config (fst (discover_and_send (\<lambda>_. 100) (chain_node 0 Dsr) 1 [7])) = chain_config 0 Dsr"
  "ps_pending_data (fst (discover_and_send (\<lambda>_. 100) (chain_node 0 Dsr) 1 [7])) =
     [\<lparr>pd_dst_node_id = 1, pd_payload = [7]\<rparr>]"
  "ps_next_sequence (fst (discover_and_send (\<lambda>_. 100) (chain_node 0 Dsr) 1 [7])) = 1"
  "ps_routes (fst (discover_and_send (\<lambda>_. 100) (chain_node 0 Dsr) 1 [7])) = route_cache_default"
  by (simp_all add: discover_and_send_def route_shortest_def route_cache_default_def Let_def
      start_discovery_pending)

lemma sent_result:
  "pa_outbound (snd (handle_rrep (\<lambda>_. 120) (net_nodes answered 0) (local_addr 7001) 0 1 1 [0, 1] [] [0, 1] 100)) =
     [\<lparr>ob_packet = Data 0 1 1 Dsr 1 [0, 1] [] [7] 120, ob_dst = local_addr 7001\<rparr>]"
  "ps_routes (fst (handle_rrep (\<lambda>_. 120) (net_nodes answered 0) (local_addr 7001) 0 1 1 [0, 1] [] [0, 1] 100)) =
     route_insert route_cache_default (route_new_dsr 1 [0, 1] 30120)"
proof -
  let ?st = "net_nodes answered 0"
  have ok: "validate_rrep (ps_config ?st) (local_addr 7001) [0, 1] = Inr ()"
    by (simp add: answered_node discovered_state validate_rrep_def is_logical_neighbor_def
        are_adjacent_def chain4_nodes checked_pred_def)
  have self: "self_id ?st = 0"
    by (simp add: answered_node discovered_state)
  have route: "rrep_route (ps_config ?st) 120 1 [0, 1] [] = route_new_dsr 1 [0, 1] 30120"
    by (simp add: rrep_route_def answered_node discovered_state)
  have hop: "origin_resolves ?st (route_new_dsr 1 [0, 1] 30120) = Some (local_addr 7001)"
    by (simp add: origin_resolves_def answered_node discovered_state route_new_dsr_def)
  show "pa_outbound (snd (handle_rrep (\<lambda>_. 120) ?st (local_addr 7001) 0 1 1 [0, 1] [] [0, 1] 100)) =
      [\<lparr>ob_packet = Data 0 1 1 Dsr 1 [0, 1] [] [7] 120, ob_dst = local_addr 7001\<rparr>]"
    "ps_routes (fst (handle_rrep (\<lambda>_. 120) ?st (local_addr 7001) 0 1 1 [0, 1] [] [0, 1] 100)) =
      route_insert route_cache_default (route_new_dsr 1 [0, 1] 30120)"
    using handle_rrep_source_eq [OF ok, of "\<lambda>_. 120" 1 1 "[0, 1]" "[]" 100] self route hop
    by (simp_all add: Let_def)
      (simp_all add: answered_node discovered_state origin_packet_def route_new_dsr_def)
qed

lemma sent_wire: "(local_addr 7000, Data 0 1 1 Dsr 1 [0, 1] [] [7] 120, local_addr 7001) \<in> net_wire sent"
  by (simp add: sent_def net_apply_def sent_result)

lemma sent_route: "route_new_dsr 1 [0, 1] 30120 \<in> routes_to (ps_routes (net_nodes sent 0)) 1"
  by (simp add: sent_def net_apply_def sent_result rc.stored_store) (simp add: route_new_dsr_def)

lemma sent_reachable: "(net_step chain4)\<^sup>*\<^sup>* (net_start (chain_cfgs Dsr)) sent"
  using asked_step answered_step sent_step
  by (meson converse_rtranclp_into_rtranclp rtranclp.rtrancl_refl)

text \<open>The same chain without retries: node 0 looks for a node that does not exist and gives up.\<close>

abbreviation impatient_cfgs :: "u32 \<Rightarrow> node_config" where
  "impatient_cfgs \<equiv> \<lambda>i. (chain_config i Dsr)\<lparr>cfg_route_discovery_max_retries := 0\<rparr>"

lemma impatient_configured: "configured chain4 Dsr impatient_cfgs"
  using chain_configured [of Dsr] by (simp add: configured_def)

definition lost :: network where
  "lost =
     net_apply ((net_start impatient_cfgs)\<lparr>net_issued := {(0, 99, [7])}\<rparr>) 0 (local_addr 7000)
       (handle_command (\<lambda>_. 100) (protocol_new (impatient_cfgs 0)) (DiscoverAndSend 99 [7]))"

definition gave_up :: network where
  "gave_up = net_apply lost 0 (local_addr 7000) (handle_tick (\<lambda>_. 150) (net_nodes lost 0) 150)"

lemma lost_state:
  "ps_config (net_nodes lost 0) = impatient_cfgs 0"
  "ps_pending_data (net_nodes lost 0) = [\<lparr>pd_dst_node_id = 99, pd_payload = [7]\<rparr>]"
  "ps_discoveries (net_nodes lost 0) =
     [(99, \<lparr>ds_request_id = 1, ds_last_sent_millis = 100, ds_retries_done = 0\<rparr>)]"
  by (simp_all add: lost_def net_apply_def discover_and_send_def route_shortest_def route_cache_default_def
      start_discovery_def Let_def)

lemma gave_up_reported: "(0, DataDropped 0 99 DiscoveryFailed) \<in> net_reported gave_up"
  by (simp add: gave_up_def net_apply_def handle_tick_eq expired_discoveries_def lost_state
      saturating_sub_def fail_discovery_events split_beta)

lemma gave_up_reachable: "(net_step chain4)\<^sup>*\<^sup>* (net_start impatient_cfgs) gave_up"
proof -
  have "net_step chain4 (net_start impatient_cfgs) lost"
    using net_step.command [of chain4 0 "local_addr 7000" "net_start impatient_cfgs" 99 "[7]" "\<lambda>_. 100"]
    by (simp add: lost_def net_start_def)
  moreover have "net_step chain4 lost gave_up"
    unfolding gave_up_def by (rule net_step.tick) simp
  ultimately show ?thesis
    by (meson converse_rtranclp_into_rtranclp rtranclp.rtrancl_refl)
qed

end
