(* ===== verification/Config.thy ===== *)
theory Config
  imports Protocol_State
begin

text \<open>
  \<open>crates/dldsr-node/src/cli.rs\<close> and \<open>config.rs\<close>: the parsed command line and how the node
  configuration is put together from it. Reading a file and the two TOML parsers are arguments;
  a path is its text.
\<close>

datatype cli_command = Send (send_control_addr: socket_addr) (send_dst_node: u32) (send_payload: string)

record cli =
  cli_command :: "cli_command option"
  cli_config :: "string option"
  cli_node_id :: "u32 option"
  cli_bind :: "socket_addr option"
  cli_topology :: "string option"
  cli_mode :: "protocol_mode option"
  cli_send_dst :: "u32 option"
  cli_payload :: "string option"
  cli_send_after_ms :: u64

text \<open>The contexts attached to the failures, with the path and the cause where there is one.\<close>

datatype config_error =
    ReadConfig string string
  | ParseConfig string string
  | TopologyRequired
  | ReadTopology string string
  | ParseTopology string string
  | NodeIdRequired
  | BindAddressMissing

type_synonym read_to_string = "string \<Rightarrow> (string, string) result"
type_synonym config_parser = "string \<Rightarrow> (node_config, string) result"
type_synonym topology_parser = "string \<Rightarrow> (topology, string) result"

definition load_bind_addr :: "cli \<Rightarrow> topology \<Rightarrow> u32 \<Rightarrow> socket_addr option" where
  "load_bind_addr cli topology node_id =
     (case cli_bind cli of
        Some addr \<Rightarrow> Some addr
      | None \<Rightarrow> map_option tn_endpoint (topology_node_by_id topology node_id))"

definition load_demo_send :: "cli \<Rightarrow> demo_send_config option" where
  "load_demo_send cli =
     map_option (\<lambda>dst.
         \<lparr>demo_dst_node_id = dst,
          demo_payload = (case cli_payload cli of None \<Rightarrow> ''hello from dl-dsr-rs'' | Some p \<Rightarrow> p),
          demo_start_after_ms = cli_send_after_ms cli\<rparr>)
       (cli_send_dst cli)"

definition default_config :: "cli \<Rightarrow> topology \<Rightarrow> u32 \<Rightarrow> socket_addr \<Rightarrow> node_config" where
  "default_config cli topology node_id bind_addr =
     \<lparr>cfg_node_id = node_id, cfg_bind_addr = bind_addr,
      cfg_protocol_mode = (case cli_mode cli of None \<Rightarrow> DlDsr | Some mode \<Rightarrow> mode),
      cfg_hello_interval_ms = default_hello_interval_ms,
      cfg_route_cache_ttl_ms = default_route_cache_ttl_ms,
      cfg_neighbor_ttl_ms = default_neighbor_ttl_ms, cfg_log_level = ''info'',
      cfg_topology = topology, cfg_demo_send = load_demo_send cli,
      cfg_route_discovery_timeout_ms = default_route_discovery_timeout_ms,
      cfg_route_discovery_max_retries = default_route_discovery_max_retries,
      cfg_max_rreq_hops = default_max_rreq_hops,
      cfg_seen_request_ttl_ms = default_seen_request_ttl_ms,
      cfg_seen_request_max_entries = default_seen_request_max_entries,
      cfg_metrics_output_path = None, cfg_control_bind_addr = None,
      cfg_strict_protocol_mode = default_strict_protocol_mode\<rparr>"

definition load ::
    "read_to_string \<Rightarrow> config_parser \<Rightarrow> topology_parser \<Rightarrow> cli \<Rightarrow> (node_config, config_error) result" where
  "load read_to_string parse_config parse_topology cli =
     (case cli_config cli of
        Some path \<Rightarrow>
          (case read_to_string path of
             Inl io \<Rightarrow> Inl (ReadConfig path io)
           | Inr text \<Rightarrow>
               (case parse_config text of
                  Inl err \<Rightarrow> Inl (ParseConfig path err) | Inr config \<Rightarrow> Inr config))
      | None \<Rightarrow>
          (case cli_topology cli of
             None \<Rightarrow> Inl TopologyRequired
           | Some topology_path \<Rightarrow>
               (case read_to_string topology_path of
                  Inl io \<Rightarrow> Inl (ReadTopology topology_path io)
                | Inr text \<Rightarrow>
                    (case parse_topology text of
                       Inl err \<Rightarrow> Inl (ParseTopology topology_path err)
                     | Inr topology \<Rightarrow>
                         (case cli_node_id cli of
                            None \<Rightarrow> Inl NodeIdRequired
                          | Some node_id \<Rightarrow>
                              (case load_bind_addr cli topology node_id of
                                 None \<Rightarrow> Inl BindAddressMissing
                               | Some bind_addr \<Rightarrow>
                                   Inr (default_config cli topology node_id bind_addr)))))))"

section \<open>Properties\<close>

text \<open>
  C35. Without a configuration file a node starts exactly when a topology file can be read and
  parsed, a node id is given, and a bind address is given or found in the topology. The node then
  has that id and topology, and unless a bind address was forced it listens on the very address
  the other nodes send to.
\<close>

theorem load_from_topology_iff:
  assumes "cli_config cli = None"
  shows "load rd pc pt cli = Inr cfg \<longleftrightarrow>
    (\<exists>path content i a. cli_topology cli = Some path \<and> rd path = Inr content
       \<and> pt content = Inr (cfg_topology cfg) \<and> cli_node_id cli = Some i
       \<and> cfg = default_config cli (cfg_topology cfg) i a \<and> cfg_node_id cfg = i
       \<and> (case cli_bind cli of Some b \<Rightarrow> a = b | None \<Rightarrow> endpoint cfg i = Some (cfg_bind_addr cfg) \<and> a = cfg_bind_addr cfg))"
proof
  assume "load rd pc pt cli = Inr cfg"
  then obtain path content T i a where parts: "cli_topology cli = Some path" "rd path = Inr content" "pt content = Inr T"
    "cli_node_id cli = Some i" "load_bind_addr cli T i = Some a" "cfg = default_config cli T i a"
    using assms by (auto simp: load_def split: option.splits sum.splits)
  moreover from this(6) have "cfg_topology cfg = T" "cfg_node_id cfg = i" "cfg_bind_addr cfg = a"
    by (simp_all add: default_config_def)
  ultimately show "\<exists>path content i a. cli_topology cli = Some path \<and> rd path = Inr content
       \<and> pt content = Inr (cfg_topology cfg) \<and> cli_node_id cli = Some i
       \<and> cfg = default_config cli (cfg_topology cfg) i a \<and> cfg_node_id cfg = i
       \<and> (case cli_bind cli of Some b \<Rightarrow> a = b | None \<Rightarrow> endpoint cfg i = Some (cfg_bind_addr cfg) \<and> a = cfg_bind_addr cfg)"
    by (auto simp: load_bind_addr_def endpoint_def split: option.splits)
next
  assume "\<exists>path content i a. cli_topology cli = Some path \<and> rd path = Inr content
       \<and> pt content = Inr (cfg_topology cfg) \<and> cli_node_id cli = Some i
       \<and> cfg = default_config cli (cfg_topology cfg) i a \<and> cfg_node_id cfg = i
       \<and> (case cli_bind cli of Some b \<Rightarrow> a = b | None \<Rightarrow> endpoint cfg i = Some (cfg_bind_addr cfg) \<and> a = cfg_bind_addr cfg)"
  then show "load rd pc pt cli = Inr cfg"
    using assms by (auto simp: load_def load_bind_addr_def endpoint_def split: option.splits)
qed

definition example_cli :: cli where
  "example_cli =
     \<lparr>cli_command = None, cli_config = None, cli_node_id = Some 1, cli_bind = None,
      cli_topology = Some ''chain.toml'', cli_mode = None, cli_send_dst = None,
      cli_payload = Some ''hello from dl-dsr-rs'', cli_send_after_ms = 2000\<rparr>"

theorem load_from_topology_iff_witness:
  "\<exists>cfg. load (\<lambda>_. Inr ''nodes'') (\<lambda>_. Inl []) (\<lambda>_. Inr (topology_chain 3 7000)) example_cli = Inr cfg
     \<and> endpoint cfg 1 = Some (cfg_bind_addr cfg)"
proof -
  let ?T = "topology_chain 3 7000"
  let ?a = "SockV4 0x7F000001 7001"
  have node: "topology_node_by_id ?T 1 = Some (topology_node_at 3 7000 1)"
    using chain_node_by_id [of 3 1 7000] by simp
  let ?cfg = "default_config example_cli ?T 1 ?a"
  have "endpoint ?cfg 1 = Some (cfg_bind_addr ?cfg)"
    using node by (simp add: endpoint_def default_config_def topology_node_at_def)
  then have "load (\<lambda>_. Inr ''nodes'') (\<lambda>_. Inl []) (\<lambda>_. Inr ?T) example_cli = Inr ?cfg"
    by (subst load_from_topology_iff) (auto simp: example_cli_def default_config_def)
  with \<open>endpoint ?cfg 1 = Some (cfg_bind_addr ?cfg)\<close> show ?thesis
    by blast
qed

end
