(* ===== verification/Metrics_File.thy ===== *)
theory Metrics_File
  imports Daemon
begin

text \<open>
  \<open>write_metrics_file\<close> and \<open>write_metrics_snapshot\<close> of \<open>daemon.rs\<close>: the snapshot is written to a
  temporary file that is then renamed. Paths are texts, taken apart as \<open>std::path\<close> does on Unix;
  the file system is a map from paths to contents, of which every state another process can
  observe is recorded. The file operations and the JSON printer are arguments.
\<close>

section \<open>Paths\<close>

text \<open>Trailing separators and trailing \<open>.\<close> components do not count; the text is reversed here.\<close>

fun trim_rev :: "string \<Rightarrow> string" where
  "trim_rev [] = []"
| "trim_rev [c] = (if c = CHR ''/'' then [] else [c])"
| "trim_rev (c # d # rest) =
     (if c = CHR ''/'' \<or> c = CHR ''.'' \<and> d = CHR ''/'' then trim_rev (d # rest) else c # d # rest)"

definition path_base :: "string \<Rightarrow> string" where
  "path_base path = rev (trim_rev (rev path))"

definition last_component :: "string \<Rightarrow> string" where
  "last_component path = rev (takeWhile (\<lambda>c. c \<noteq> CHR ''/'') (trim_rev (rev path)))"

definition path_file_name :: "string \<Rightarrow> string option" where
  "path_file_name path =
     (let name = last_component path
      in if name = [] \<or> name = ''.'' \<or> name = ''..'' then None else Some name)"

text \<open>The path up to its last component, with the separator.\<close>

definition path_front :: "string \<Rightarrow> string" where
  "path_front path = take (length (path_base path) - length (last_component path)) (path_base path)"

definition path_parent :: "string \<Rightarrow> string option" where
  "path_parent path =
     (if path_base path = [] then None
      else if path_front path = [] then Some []
      else if path_base (path_front path) = [] then Some ''/''
      else Some (path_base (path_front path)))"

text \<open>A file name is split at its last dot, unless there is none or it is the first character.\<close>

definition split_at_dot :: "string \<Rightarrow> string \<times> string option" where
  "split_at_dot name =
     (let before = dropWhile (\<lambda>c. c \<noteq> CHR ''.'') (rev name)
      in if tl before = [] then (name, None)
         else (rev (tl before), Some (rev (takeWhile (\<lambda>c. c \<noteq> CHR ''.'') (rev name)))))"

abbreviation "file_stem name \<equiv> fst (split_at_dot name)"
abbreviation "file_extension name \<equiv> snd (split_at_dot name)"

definition with_extension :: "string \<Rightarrow> string \<Rightarrow> string" where
  "with_extension path ext =
     (case path_file_name path of
        None \<Rightarrow> path
      | Some name \<Rightarrow> path_front path @ file_stem name @ (if ext = [] then [] else CHR ''.'' # ext))"

section \<open>Writing the snapshot\<close>

type_synonym files = "string \<rightharpoonup> u8 list"
type_synonym json_printer = "metrics_snapshot \<Rightarrow> (u8 list, string) result"

text \<open>
  The file operations of \<open>tokio::fs\<close>, which are not part of the program: each returns the states
  of the files another process can observe on the way, the last of which is the final one, and its
  result.
\<close>

record file_system =
  fs_create_dir_all :: "string \<Rightarrow> (unit, string) result"
  fs_write :: "files \<Rightarrow> string \<Rightarrow> u8 list \<Rightarrow> files list \<times> (unit, string) result"
  fs_rename :: "files \<Rightarrow> string \<Rightarrow> string \<Rightarrow> files list \<times> (unit, string) result"

text \<open>
  What their documentation says. Writing replaces the contents of one file; it may be seen half
  done and may fail half done. Renaming replaces the target, if it exists, by the source in one
  step, and leaves the target alone if it fails.
\<close>

definition write_documented :: "file_system \<Rightarrow> bool" where
  "write_documented fs \<longleftrightarrow>
     (\<forall>files path bytes states res. fs_write fs files path bytes = (states, res) \<longrightarrow>
        (\<forall>\<sigma> \<in> set states. \<forall>q. q \<noteq> path \<longrightarrow> \<sigma> q = files q)
        \<and> (res = Inr () \<longrightarrow> last (files # states) path = Some bytes))"

definition rename_documented :: "file_system \<Rightarrow> bool" where
  "rename_documented fs \<longleftrightarrow>
     (\<forall>files src dst states res. fs_rename fs files src dst = (states, res) \<longrightarrow> src \<noteq> dst \<longrightarrow>
        (\<forall>\<sigma> \<in> set states. (\<forall>q. q \<noteq> src \<longrightarrow> q \<noteq> dst \<longrightarrow> \<sigma> q = files q) \<and> (\<sigma> dst = files dst \<or> \<sigma> dst = files src))
        \<and> (res = Inr () \<longrightarrow> last (files # states) dst = files src \<and> last (files # states) src = None)
        \<and> (res \<noteq> Inr () \<longrightarrow> last (files # states) dst = files dst))"

datatype snapshot_error = CreateDirFailed string | PrintFailed string | WriteFailed string | RenameFailed string

text \<open>The result, with the states of the files passed through after the first one.\<close>

definition write_metrics_snapshot ::
    "json_printer \<Rightarrow> file_system \<Rightarrow> files \<Rightarrow> string \<Rightarrow> metrics_snapshot \<Rightarrow>
     files list \<times> (unit, snapshot_error) result" where
  "write_metrics_snapshot to_vec_pretty fs files path snapshot =
     (case (case path_parent path of None \<Rightarrow> Inr () | Some parent \<Rightarrow> fs_create_dir_all fs parent) of
        Inl err \<Rightarrow> ([], Inl (CreateDirFailed err))
      | Inr _ \<Rightarrow>
          (let tmp_path = with_extension path ''tmp''
           in case to_vec_pretty snapshot of
                Inl err \<Rightarrow> ([], Inl (PrintFailed err))
              | Inr bytes \<Rightarrow>
                  (case fs_write fs files tmp_path bytes of
                     (written, Inl err) \<Rightarrow> (written, Inl (WriteFailed err))
                   | (written, Inr _) \<Rightarrow>
                       (case fs_rename fs (last (files # written)) tmp_path path of
                          (renamed, Inl err) \<Rightarrow> (written @ renamed, Inl (RenameFailed err))
                        | (renamed, Inr _) \<Rightarrow> (written @ renamed, Inr ())))))"

definition write_metrics_file ::
    "json_printer \<Rightarrow> file_system \<Rightarrow> files \<Rightarrow> protocol_state \<Rightarrow> files list \<times> (unit, snapshot_error) result" where
  "write_metrics_file to_vec_pretty fs files st =
     (case cfg_metrics_output_path (ps_config st) of
        None \<Rightarrow> ([], Inr ())
      | Some path \<Rightarrow> write_metrics_snapshot to_vec_pretty fs files path (take_snapshot st))"

section \<open>The temporary path\<close>

lemma split_last_component: "path_base path = path_front path @ last_component path"
proof -
  let ?r = "trim_rev (rev path)"
  have "rev ?r = rev (dropWhile (\<lambda>c. c \<noteq> CHR ''/'') ?r) @ rev (takeWhile (\<lambda>c. c \<noteq> CHR ''/'') ?r)"
    by (metis rev_append takeWhile_dropWhile_id)
  then show ?thesis
    by (simp add: path_base_def path_front_def last_component_def)
qed

lemma file_stem_nonempty: "name \<noteq> [] \<Longrightarrow> file_stem name \<noteq> []"
  by (simp add: split_at_dot_def Let_def)

lemma split_at_dot_append:
  assumes "stem \<noteq> []" "CHR ''.'' \<notin> set ext"
  shows "split_at_dot (stem @ CHR ''.'' # ext) = (stem, Some ext)"
proof -
  have "takeWhile (\<lambda>c. c \<noteq> CHR ''.'') (rev ext @ CHR ''.'' # rev stem) = rev ext"
    using assms(2) by (subst takeWhile_append2) auto
  moreover have "dropWhile (\<lambda>c. c \<noteq> CHR ''.'') (rev ext @ CHR ''.'' # rev stem) = CHR ''.'' # rev stem"
    using assms(2) by (subst dropWhile_append2) auto
  ultimately show ?thesis
    using assms(1) by (simp add: split_at_dot_def)
qed

lemma path_base_untrimmed:
  "c \<noteq> CHR ''/'' \<Longrightarrow> c \<noteq> CHR ''.'' \<Longrightarrow> path_base (p @ [c]) = p @ [c]"
  by (cases "rev p") (auto simp: path_base_def simp flip: rev_swap)

text \<open>The temporary file is another file, unless the snapshot itself has the extension \<open>tmp\<close>.\<close>

lemma tmp_path_differs:
  assumes name: "path_file_name path = Some name" and ext: "file_extension name \<noteq> Some ''tmp''"
  shows "with_extension path ''tmp'' \<noteq> path"
proof
  assume eq: "with_extension path ''tmp'' = path"
  have last: "last_component path = name" "name \<noteq> []"
    using name by (auto simp: path_file_name_def Let_def split: if_splits)
  have path: "path = path_front path @ file_stem name @ ''.tmp''"
    using eq name by (simp add: with_extension_def)
  then have "path_base path = path"
    using path_base_untrimmed [of "CHR ''p''" "path_front path @ file_stem name @ ''.tm''"] by simp
  then have "name = file_stem name @ ''.tmp''"
    using split_last_component [of path] last(1) path by (metis append_same_eq same_append_eq)
  then have "file_extension name = Some ''tmp''"
    using split_at_dot_append [of "file_stem name" "''tmp''"] file_stem_nonempty [OF last(2)]
    by (simp del: prod.collapse) (metis snd_conv)
  with ext show False ..
qed

section \<open>The snapshot file is never half written\<close>

lemma write_metrics_snapshot_cases:
  assumes "write_metrics_snapshot to_vec fs files path snap = (states, res)"
  obtains (early) "states = []" "res \<noteq> Inr ()"
  | (unwritten) bytes err where "to_vec snap = Inr bytes"
      "fs_write fs files (with_extension path ''tmp'') bytes = (states, Inl err)" "res \<noteq> Inr ()"
  | (written) bytes written renamed rres where "to_vec snap = Inr bytes"
      "fs_write fs files (with_extension path ''tmp'') bytes = (written, Inr ())"
      "fs_rename fs (last (files # written)) (with_extension path ''tmp'') path = (renamed, rres)"
      "states = written @ renamed" "res = Inr () \<longleftrightarrow> rres = Inr ()"
  using assms
  by (fastforce simp: write_metrics_snapshot_def Let_def split: option.splits sum.splits prod.splits)

lemma last_unchanged:
  "(\<And>\<sigma>. \<sigma> \<in> set states \<Longrightarrow> \<sigma> q = files q) \<Longrightarrow> last (files # states) q = files q"
  by (cases states) auto

lemma last_append_states: "last (files # xs @ ys) = last (last (files # xs) # ys)"
  by (cases ys) auto

text \<open>
  C31. The metrics file is never half written, if file operations do what their documentation says
  and the path has a file name with an extension other than \<open>tmp\<close> (with that one the temporary
  path is the path itself): whatever fails, at every moment the file holds what it held before or
  one complete new snapshot, and no other file but the temporary one is touched. When writing
  succeeds the snapshot is in place and the temporary file is gone; when it fails the metrics
  file is as before.
\<close>

theorem metrics_file_atomic:
  assumes laws: "write_documented fs" "rename_documented fs"
    and name: "path_file_name path = Some name" "file_extension name \<noteq> Some ''tmp''"
    and run: "write_metrics_snapshot to_vec fs files path snap = (states, res)"
    and final: "final = last (files # states)"
  shows "(\<forall>\<sigma> \<in> set states. (\<sigma> path = files path \<or> (\<exists>bytes. to_vec snap = Inr bytes \<and> \<sigma> path = Some bytes))
      \<and> (\<forall>q. q \<noteq> path \<longrightarrow> q \<noteq> with_extension path ''tmp'' \<longrightarrow> \<sigma> q = files q))
    \<and> (res = Inr () \<longrightarrow> (\<exists>bytes. to_vec snap = Inr bytes \<and> final path = Some bytes)
        \<and> final (with_extension path ''tmp'') = None)
    \<and> (res \<noteq> Inr () \<longrightarrow> final path = files path)"
proof -
  let ?tmp = "with_extension path ''tmp''"
  note tmp = tmp_path_differs [OF name]
  from run show ?thesis
  proof (cases rule: write_metrics_snapshot_cases)
    case (unwritten bytes err)
    then have same: "\<sigma> q = files q" if "\<sigma> \<in> set states" "q \<noteq> ?tmp" for \<sigma> q
      using laws(1) that unfolding write_documented_def by blast
    then have "final path = files path"
      unfolding final using tmp by (intro last_unchanged) metis
    with same tmp unwritten(3) show ?thesis
      by metis
  next
    case (written bytes written renamed rres)
    define mid where "mid = last (files # written)"
    have same: "\<sigma> q = files q" if "\<sigma> \<in> set written" "q \<noteq> ?tmp" for \<sigma> q
      using laws(1) written(2) that unfolding write_documented_def by blast
    have mid: "mid ?tmp = Some bytes" "\<And>q. q \<noteq> ?tmp \<Longrightarrow> mid q = files q"
      unfolding mid_def using laws(1) written(2) same by (auto simp: write_documented_def intro: last_unchanged)
    have last: "final = last (mid # renamed)"
      by (simp only: final written(4) last_append_states mid_def)
    from laws(2) written(3) tmp
    have ren: "\<And>\<sigma> q. \<sigma> \<in> set renamed \<Longrightarrow> q \<noteq> ?tmp \<Longrightarrow> q \<noteq> path \<Longrightarrow> \<sigma> q = mid q"
      "\<And>\<sigma>. \<sigma> \<in> set renamed \<Longrightarrow> \<sigma> path = mid path \<or> \<sigma> path = mid ?tmp"
      "rres = Inr () \<Longrightarrow> final path = mid ?tmp \<and> final ?tmp = None"
      "rres \<noteq> Inr () \<Longrightarrow> final path = mid path"
      unfolding rename_documented_def last mid_def [symmetric] by blast+
    have "\<sigma> path = files path \<or> \<sigma> path = Some bytes" if "\<sigma> \<in> set states" for \<sigma>
      using that same ren(2) mid(1) mid(2) [of path] tmp unfolding written(4) set_append by (metis Un_iff)
    moreover have "\<sigma> q = files q" if "\<sigma> \<in> set states" "q \<noteq> path" "q \<noteq> ?tmp" for \<sigma> q
      using that same ren(1) mid(2) unfolding written(4) set_append by (metis Un_iff)
    moreover have "final path = files path" if "res \<noteq> Inr ()"
      using that ren(4) mid(2) [of path] tmp written(5) by metis
    ultimately show ?thesis
      using written(1,5) ren(3) mid(1) by metis
  qed (simp add: final)
qed

text \<open>A file system that behaves as documented: it writes byte by byte and renames in one step.\<close>

definition plain_write :: "files \<Rightarrow> string \<Rightarrow> u8 list \<Rightarrow> files list \<times> (unit, string) result" where
  "plain_write files path bytes = (map (\<lambda>k. files(path \<mapsto> take k bytes)) [0 ..< Suc (length bytes)], Inr ())"

definition plain_fs :: file_system where
  "plain_fs =
     \<lparr>fs_create_dir_all = (\<lambda>_. Inr ()), fs_write = plain_write,
      fs_rename = (\<lambda>files src dst. ([(files(src := None))(dst := files src)], Inr ()))\<rparr>"

lemma plain_fs_documented: "write_documented plain_fs" "rename_documented plain_fs"
  by (auto simp: write_documented_def rename_documented_def plain_fs_def plain_write_def)

lemma example_name: "path_file_name ''out/node0.json'' = Some ''node0.json''"
  "split_at_dot ''node0.json'' = (''node0'', Some ''json'')"
  by (simp_all add: path_file_name_def last_component_def split_at_dot_def)

theorem metrics_file_atomic_witness:
  "\<exists>states res. write_metrics_snapshot (\<lambda>_. Inr [123, 125]) plain_fs
      [''out/node0.json'' \<mapsto> [9]] ''out/node0.json'' (take_snapshot (chain_node 0 Dsr)) = (states, res)
    \<and> res = Inr () \<and> length states = 4 \<and> last states ''out/node0.json'' = Some [123, 125]"
proof -
  let ?run = "write_metrics_snapshot (\<lambda>_. Inr [123, 125]) plain_fs
    [''out/node0.json'' \<mapsto> [9]] ''out/node0.json'' (take_snapshot (chain_node 0 Dsr))"
  obtain states res where run: "?run = (states, res)"
    by (cases ?run)
  then have "res = Inr ()" "length states = 4"
    by (auto simp: write_metrics_snapshot_def plain_fs_def plain_write_def Let_def split: option.splits)
  then show ?thesis
    using metrics_file_atomic [OF plain_fs_documented example_name(1) _ run refl] run
    by (cases states) (auto simp: example_name(2))
qed

end
