(* ===== verification/Daemon_Refinement.thy ===== *)
theory Daemon_Refinement
  imports Daemon
begin

text \<open>
  What the event loop promises, without sockets, channels and buffers: a node that reacts to one
  input at a time. Every iteration of the loop is the reaction to exactly the input its branch
  delivered, with the packets and events it put out, and commands are executed in the order they
  were sent.
\<close>

section \<open>The reactive node\<close>

datatype node_input =
    HelloDue
  | TickDue u64
  | Received packet socket_addr nat
  | Commanded protocol_command
  | Idle

text \<open>One handler call per input; a packet is counted with its length before it is handled.\<close>

fun react :: "clock \<Rightarrow> protocol_state \<Rightarrow> node_input \<Rightarrow> handler_result" where
  "react clk st HelloDue = (st, send_hellos clk st)"
| "react clk st (TickDue now) = handle_tick clk st now"
| "react clk st (Received p sender len) =
     handle_packet clk (ps_metrics_update (\<lambda>m. m\<lparr>m_rx_packets := m_rx_packets m + 1,
       m_rx_bytes := m_rx_bytes m + of_nat len\<rparr>) st) p sender"
| "react clk st (Commanded c) = handle_command clk st c"
| "react clk st Idle = (st, no_actions)"

text \<open>Afterwards the packets that left are recorded and the others counted as dropped.\<close>

definition account :: "serializer \<Rightarrow> protocol_state \<Rightarrow> nat \<Rightarrow> outbound_packet list \<Rightarrow> protocol_state" where
  "account ser st unsent sent =
     ps_metrics_update (m_dropped_packets_update (\<lambda>n. n + of_nat unsent))
       (fold (\<lambda>ob st. protocol_record_tx ser st (ob_packet ob)) sent st)"

definition reacts ::
    "serializer \<Rightarrow> bool \<Rightarrow> protocol_state \<Rightarrow> node_input \<Rightarrow> outbound_packet list \<Rightarrow> protocol_event list \<Rightarrow>
     protocol_state \<Rightarrow> bool" where
  "reacts ser listening st i sent events st' \<longleftrightarrow>
     (if i = Idle then sent = [] \<and> events = [] \<and> rehashed st st'
      else \<exists>clk st1 acts. react clk st i = (st1, acts) \<and> subseq sent (pa_outbound acts)
        \<and> events = (if listening then pa_events acts else [])
        \<and> st' = account ser st1 (length (pa_outbound acts) - length sent) sent)"

inductive node_run ::
    "serializer \<Rightarrow> bool \<Rightarrow> protocol_state \<Rightarrow> (node_input \<times> outbound_packet list \<times> protocol_event list) list \<Rightarrow>
     protocol_state \<Rightarrow> bool"
  for ser listening where
  at_rest: "node_run ser listening st [] st"
| reaction: "reacts ser listening st i sent events st' \<Longrightarrow> node_run ser listening st' ios st'' \<Longrightarrow>
     node_run ser listening st ((i, sent, events) # ios) st''"

section \<open>What the loop sees of it\<close>

text \<open>The input a branch delivers: what the buffers hold of a datagram, decoded.\<close>

fun input_of :: "deserializer \<Rightarrow> json_parser \<Rightarrow> loop_event \<Rightarrow> node_input" where
  "input_of de from_slice HelloTick = HelloDue"
| "input_of de from_slice (ProtocolTick now) = TickDue now"
| "input_of de from_slice (PacketReady (Inr (datagram, sender))) =
     (case packet_decode de (take 65536 datagram) of
        Inl _ \<Rightarrow> Idle | Inr p \<Rightarrow> Received p sender (min 65536 (length datagram)))"
| "input_of de from_slice (ControlReady (Inr (datagram, sender))) =
     (case from_slice (take 4096 datagram) of
        Inl _ \<Rightarrow> Idle | Inr req \<Rightarrow> Commanded (DiscoverAndSend (cs_dst req) (into_bytes (cs_payload req))))"
| "input_of de from_slice (CommandReady (Some c)) = Commanded c"
| "input_of de from_slice _ = Idle"

abbreviation io_of ::
    "deserializer \<Rightarrow> json_parser \<Rightarrow> loop_event \<times> daemon_output \<Rightarrow>
     node_input \<times> outbound_packet list \<times> protocol_event list" where
  "io_of de from_slice \<equiv> \<lambda>(ev, out). (input_of de from_slice ev, out_sent out, out_events out)"

text \<open>Commands waiting in the channel, sent into it, and taken from it.\<close>

definition queued :: "daemon \<Rightarrow> protocol_command list" where
  "queued d = (case d_commands d of None \<Rightarrow> [] | Some ch \<Rightarrow> ch_queue ch)"

fun sent_in :: "loop_event \<Rightarrow> protocol_command list" where
  "sent_in (DemoSent c) = [c]" | "sent_in (OutsideSent c) = [c]" | "sent_in _ = []"

fun taken_out :: "loop_event \<Rightarrow> protocol_command list" where
  "taken_out (CommandReady (Some c)) = [c]" | "taken_out _ = []"

section \<open>Refinement\<close>

lemma rehashed_refl [simp]: "rehashed st st"
  unfolding rehashed_def by (intro exI conjI) (rule refl | simp)+

lemma record_tx_dropped:
  "protocol_record_tx ser (ps_metrics_update (m_dropped_packets_update f) st) p =
     ps_metrics_update (m_dropped_packets_update f) (protocol_record_tx ser st p)"
  by (cases "packet_encoded_len ser p")
    (simp_all add: protocol_record_tx_def metrics_record_tx_def Let_def)

lemma fold_record_tx_dropped:
  "fold (\<lambda>ob st. protocol_record_tx ser st (ob_packet ob)) sent (ps_metrics_update (m_dropped_packets_update f) st) =
     ps_metrics_update (m_dropped_packets_update f) (fold (\<lambda>ob st. protocol_record_tx ser st (ob_packet ob)) sent st)"
  by (induction sent arbitrary: st) (simp_all add: record_tx_dropped)

lemma apply_outbound_account:
  "fst (apply_outbound ser sock st obs) =
     account ser st (length obs - length (snd (apply_outbound ser sock st obs))) (snd (apply_outbound ser sock st obs))"
proof (induction obs arbitrary: sock st)
  case Nil
  then show ?case by (simp add: account_def)
next
  case (Cons ob obs)
  let ?sock = "\<lambda>i. sock (Suc i)"
  show ?case
  proof (cases "udp_send ser (sock 0) (ob_packet ob) (ob_dst ob)")
    case (Inl err)
    let ?st = "ps_metrics_update (m_dropped_packets_update (\<lambda>n. n + 1)) st"
    have "length (snd (apply_outbound ser ?sock ?st obs)) \<le> length obs"
      by (rule apply_outbound_length)
    then show ?thesis
      using Inl Cons.IH [of ?sock ?st]
      by (simp add: account_def fold_record_tx_dropped Suc_diff_le algebra_simps)
  next
    case (Inr n)
    then show ?thesis
      using Cons.IH [of ?sock "protocol_record_tx ser st (ob_packet ob)"]
      by (simp add: account_def split_beta)
  qed
qed

lemma applied_reacts:
  assumes "applied ser sock d res = (d', out)" "react clk st i = res" "i \<noteq> Idle"
  shows "reacts ser (d_events d = Some True) st i (out_sent out) (out_events out) (d_state d')
    \<and> d_events d' = d_events d"
proof -
  obtain st1 acts where res: "res = (st1, acts)"
    by (cases res)
  let ?r = "apply_outbound ser sock st1 (pa_outbound acts)"
  have "d' = d\<lparr>d_state := fst ?r\<rparr>" "out_sent out = snd ?r"
    "out_events out = (if d_events d = Some True then pa_events acts else [])"
    using assms(1) by (auto simp: applied_def apply_actions_def split_beta res silent_def)
  then show ?thesis
    using assms(2,3) res apply_outbound_subseq [of ser sock st1 "pa_outbound acts"] apply_outbound_account
    unfolding reacts_def by (auto intro!: exI [of _ clk])
qed

lemma daemon_step_reacts:
  assumes "daemon_step ser de from_slice d ev out d'"
  shows "reacts ser (d_events d = Some True) (d_state d) (input_of de from_slice ev) (out_sent out) (out_events out) (d_state d')
    \<and> d_events d' = d_events d"
  using assms
proof (cases rule: daemon_step.cases)
  case (hello_tick sock clk)
  then show ?thesis
    using applied_reacts [OF hello_tick(2), of clk "d_state d" HelloDue] by simp
next
  case (protocol_tick sock clk now)
  then show ?thesis
    using applied_reacts [OF protocol_tick(2), of clk "d_state d" "TickDue now"] by simp
next
  case (control received bytes sender clk st' acts reply sock out')
  then obtain datagram where dg: "received = Inr (datagram, sender)" "bytes = take 4096 datagram"
    by (auto simp: recv_control_def CONTROL_BUFFER_def split: if_splits) (cases received; auto)
  show ?thesis
  proof (cases "from_slice bytes")
    case (Inl err)
    then have "st' = d_state d" "acts = no_actions"
      using control(4) by (auto simp: handle_control_message_def)
    then have "d' = d" "out_sent out' = []" "out_events out' = []"
      using control(5) by (auto simp: applied_def apply_actions_def no_actions_def silent_def)
    then show ?thesis
      using control(1,2) dg Inl by (simp add: reacts_def)
  next
    case (Inr req)
    let ?c = "DiscoverAndSend (cs_dst req) (into_bytes (cs_payload req))"
    have "react clk (d_state d) (Commanded ?c) = (st', acts)"
      using control(4) Inr by (auto simp: handle_control_message_def split_beta simp del: handle_command.simps)
    from applied_reacts [OF control(5) this] show ?thesis
      using control(1,2) dg Inr by simp
  qed
next
  case (received datagram p sender len sock clk)
  then obtain bytes where dg: "datagram = Inr (bytes, sender)" "packet_decode de (take 65536 bytes) = Inr p"
    "len = of_nat (min 65536 (length bytes))"
    by (auto simp: udp_recv_def RECV_BUFFER_def Let_def min.commute split: sum.splits)
  have "react clk (d_state d) (Received p sender (min 65536 (length bytes))) =
      handle_packet clk (protocol_record_rx (d_state d) len) p sender"
    by (simp add: dg(3) protocol_record_rx_def metrics_record_rx_def)
  from applied_reacts [OF received(3) this] show ?thesis
    using received(1) dg by simp
next
  case (receive_failed datagram err)
  then have "input_of de from_slice ev = Idle"
    by (auto simp: udp_recv_def RECV_BUFFER_def Let_def split: sum.splits)
  then show ?thesis
    using receive_failed by (simp add: reacts_def silent_def)
next
  case (command ch c ch' sock clk)
  then show ?thesis
    using applied_reacts [OF command(4), of clk "d_state d" "Commanded c"] by (simp del: handle_command.simps)
next
  case (control_failed received err)
  then have "input_of de from_slice ev = Idle"
    by (auto simp: recv_control_def split: if_splits) (cases received; auto)
  then show ?thesis
    using control_failed by (simp add: reacts_def silent_def)
qed (simp_all add: reacts_def silent_def)

lemma daemon_step_fifo:
  assumes "daemon_step ser de from_slice d ev out d'"
  shows "queued d @ sent_in ev = taken_out ev @ queued d'"
  using assms
  by (cases rule: daemon_step.cases)
    (auto simp: queued_def recv_command_def dest!: applied_channel split: list.splits if_splits)

text \<open>
  C11. The event loop refines the reactive node, iteration by iteration: in any run, whatever the
  sockets answer, each iteration is the reaction to exactly the input its branch delivered, one
  handler call with the packet counted once at its length; what the loop put out are the packets
  of that reaction the socket took and its events; and the commands taken from the channel, each
  of which is such an input, are those sent into it, in order, but for the ones still queued.
\<close>

theorem daemon_refines_node:
  assumes "daemon_trace ser de from_slice d trace d'"
  shows "node_run ser (d_events d = Some True) (d_state d) (map (io_of de from_slice) trace) (d_state d')
    \<and> queued d @ concat (map (sent_in \<circ> fst) trace) = concat (map (taken_out \<circ> fst) trace) @ queued d'"
  using assms
proof induction
  case (no_iteration d)
  then show ?case
    by (simp add: node_run.at_rest)
next
  case (iteration d ev out d' trace d'')
  note step = daemon_step_reacts [OF iteration.hyps(1)] daemon_step_fifo [OF iteration.hyps(1)]
  have "queued d @ sent_in ev @ concat (map (sent_in \<circ> fst) trace) =
      taken_out ev @ concat (map (taken_out \<circ> fst) trace) @ queued d''"
    using step(2) iteration.IH by (metis append.assoc)
  moreover have "node_run ser (d_events d = Some True) (d_state d)
      ((input_of de from_slice ev, out_sent out, out_events out) # map (io_of de from_slice) trace) (d_state d'')"
    using step(1) iteration.IH by (intro node_run.reaction) auto
  ultimately show ?case
    by (simp add: comp_def)
qed

text \<open>On the chain: a command that waits in the channel is executed by the next command branch.\<close>

theorem daemon_refines_node_witness:
  "\<exists>(out :: daemon_output) d'. node_run no_codec False (chain_node 0 Dsr) [(Commanded (DiscoverAndSend 3 [1, 2]), out_sent out, out_events out)]
       (d_state d') \<and> queued d' = []"
proof -
  let ?c = "DiscoverAndSend 3 [1, 2]"
  let ?d = "daemon_start (chain_config 0 Dsr) (Some \<lparr>ch_queue = [?c], ch_open = True\<rparr>) None"
  let ?r = "applied no_codec broken_socket (?d\<lparr>d_commands := Some \<lparr>ch_queue = [], ch_open = True\<rparr>\<rparr>)
      (handle_command (\<lambda>_. 100) (d_state ?d) ?c)"
  have d: "d_commands ?d = Some \<lparr>ch_queue = [?c], ch_open = True\<rparr>" "d_events ?d = None"
    by (simp_all add: daemon_start_def chain_config_def)
  have "daemon_step no_codec (\<lambda>_. Inl []) (\<lambda>_. Inl []) ?d (CommandReady (Some ?c)) (snd ?r) (fst ?r)"
    using d(1) by (rule daemon_step.command) (simp_all add: recv_command_def)
  then have "daemon_trace no_codec (\<lambda>_. Inl []) (\<lambda>_. Inl []) ?d [(CommandReady (Some ?c), snd ?r)] (fst ?r)"
    by (rule daemon_trace.iteration [OF _ daemon_trace.no_iteration])
  note run = daemon_refines_node [OF this, THEN conjunct1] daemon_refines_node [OF this, THEN conjunct2]
  have "queued (fst ?r) = []"
    using run(2) d(1) by (simp add: queued_def)
  moreover have "node_run no_codec False (chain_node 0 Dsr) [(Commanded ?c, out_sent (snd ?r), out_events (snd ?r))]
      (d_state (fst ?r))"
    using run(1) d(2) by simp
  ultimately show ?thesis
    by (intro exI [of _ "snd ?r"] exI [of _ "fst ?r"] conjI)
qed

end
