(* ===== verification/Node_Main.thy ===== *)
theory Node_Main
  imports Config Metrics_File Daemon_Refinement
begin

text \<open>
  \<open>crates/dldsr-node/src/main.rs\<close>, and the beginning and end of \<open>run_with_channels\<close> in
  \<open>daemon.rs\<close>: the \<open>send\<close> subcommand that talks to the control socket of a running node, binding
  the sockets, and the final metrics on shutdown. The outcomes of the socket calls and the JSON
  printer are arguments.
\<close>

section \<open>Starting and stopping the daemon\<close>

type_synonym udp_bind = "socket_addr \<Rightarrow> (unit, string) result"

text \<open>Besides a failed bind: \<open>tokio\<close>'s \<open>interval\<close> panics on a period of zero.\<close>

datatype start_error = BindFailed string | IntervalPanic

definition run_with_channels ::
    "udp_bind \<Rightarrow> node_config \<Rightarrow> command_channel option \<Rightarrow> bool option \<Rightarrow> (daemon, start_error) result" where
  "run_with_channels udp_bind config commands events =
     (case udp_bind (cfg_bind_addr config) of
        Inl err \<Rightarrow> Inl (BindFailed err)
      | Inr _ \<Rightarrow>
          if cfg_hello_interval_ms config = 0 then Inl IntervalPanic
          else
            (case (case cfg_control_bind_addr config of None \<Rightarrow> Inr () | Some addr \<Rightarrow> udp_bind addr) of
               Inl err \<Rightarrow> Inl (BindFailed err)
             | Inr _ \<Rightarrow> Inr (daemon_start config commands events)))"

text \<open>The \<open>ctrl_c\<close> branch writes the metrics and returns.\<close>

definition daemon_shutdown :: "daemon \<Rightarrow> daemon_output" where
  "daemon_shutdown d = silent\<lparr>out_metrics := metrics_file (d_state d)\<rparr>"

text \<open>A run to the end, with the output of every iteration.\<close>

definition daemon_run ::
    "serializer \<Rightarrow> deserializer \<Rightarrow> json_parser \<Rightarrow> daemon \<Rightarrow> daemon_output list \<Rightarrow> daemon \<Rightarrow> bool" where
  "daemon_run ser de from_slice d outs d' \<longleftrightarrow>
     (\<exists>trace. daemon_trace ser de from_slice d trace d' \<and> outs = map snd trace @ [daemon_shutdown d'])"

section \<open>The send subcommand\<close>

text \<open>\<open>ci_reply\<close> is what arrives within the two seconds, if anything does.\<close>

record client_io =
  ci_bind :: "(unit, string) result"
  ci_send_to :: send_to
  ci_reply :: "u8 list option"

datatype client_outcome =
    ClientFailed string
  | ClientDone (client_request: "u8 list") (client_to: socket_addr) (client_printed: "u8 list option")

definition CLIENT_BUFFER :: nat where
  "CLIENT_BUFFER = 1024"

definition client_send ::
    "(u32 \<Rightarrow> string \<Rightarrow> string) \<Rightarrow> client_io \<Rightarrow> cli_command \<Rightarrow> client_outcome" where
  "client_send to_json io cmd =
     (case ci_bind io of
        Inl err \<Rightarrow> ClientFailed err
      | Inr _ \<Rightarrow>
          (let request = into_bytes (to_json (send_dst_node cmd) (send_payload cmd))
           in case ci_send_to io request (send_control_addr cmd) of
                Inl err \<Rightarrow> ClientFailed err
              | Inr _ \<Rightarrow>
                  ClientDone request (send_control_addr cmd)
                    (map_option (take CLIENT_BUFFER) (ci_reply io))))"

datatype main_outcome =
    MainClient client_outcome | MainConfigFailed config_error | MainStartFailed start_error | MainRunning daemon

definition node_main ::
    "(u32 \<Rightarrow> string \<Rightarrow> string) \<Rightarrow> client_io \<Rightarrow> udp_bind \<Rightarrow> read_to_string \<Rightarrow> config_parser \<Rightarrow> topology_parser \<Rightarrow>
     cli \<Rightarrow> main_outcome" where
  "node_main to_json io udp_bind read_to_string parse_config parse_topology cli =
     (case cli_command cli of
        Some cmd \<Rightarrow> MainClient (client_send to_json io cmd)
      | None \<Rightarrow>
          (case load read_to_string parse_config parse_topology cli of
             Inl err \<Rightarrow> MainConfigFailed err
           | Inr config \<Rightarrow>
               (case run_with_channels udp_bind config None None of
                  Inl err \<Rightarrow> MainStartFailed err | Inr d \<Rightarrow> MainRunning d)))"

section \<open>Properties\<close>

text \<open>What it takes for a node to run, and what runs then.\<close>

lemma main_runs_iff:
  "node_main to_json io udp_bind rd pc pt cli = MainRunning d \<longleftrightarrow>
     cli_command cli = None
     \<and> (\<exists>cfg. load rd pc pt cli = Inr cfg \<and> udp_bind (cfg_bind_addr cfg) = Inr ()
         \<and> cfg_hello_interval_ms cfg \<noteq> 0
         \<and> (case cfg_control_bind_addr cfg of None \<Rightarrow> True | Some addr \<Rightarrow> udp_bind addr = Inr ())
         \<and> d = daemon_start cfg None None)"
  unfolding node_main_def run_with_channels_def
  by (cases "cli_command cli"; cases "load rd pc pt cli") (auto split: option.splits sum.splits)

text \<open>
  C32. The two ends of the control socket fit together. When the JSON parser inverts the printer on
  the request and the request fits the node's buffer, the \<open>send\<close> subcommand sends to the given
  address the one datagram that, arriving at the control socket of a running node, makes it
  execute exactly the command it stands for, on any clock and whatever its data socket does, and
  answer with the acceptance; the subcommand prints that answer if it arrives in time.
\<close>

theorem send_subcommand_is_executed:
  assumes json: "from_slice (into_bytes (to_json dst payload)) = Inr \<lparr>cs_dst = dst, cs_payload = payload\<rparr>"
    and fits: "length (into_bytes (to_json dst payload)) \<le> CONTROL_BUFFER"
    and client: "cli_command cli = Some (Send addr dst payload)"
      "node_main to_json io udp_bind rd pc pt cli = MainClient (ClientDone request to printed)"
    and node: "d_control d"
    and cmd: "applied ser sock d (handle_command clk (d_state d) (DiscoverAndSend dst (into_bytes payload))) = (d', out)"
  shows "to = addr
    \<and> (\<exists>n. ci_send_to io request addr = Inr n)
    \<and> daemon_step ser de from_slice d (ControlReady (Inr (request, sender)))
        (out\<lparr>out_reply := Some (into_bytes control_accepted, sender)\<rparr>) d'
    \<and> input_of de from_slice (ControlReady (Inr (request, sender))) = Commanded (DiscoverAndSend dst (into_bytes payload))
    \<and> (ci_reply io = Some (into_bytes control_accepted) \<longrightarrow> printed = Some (into_bytes control_accepted))"
proof -
  have sent: "request = into_bytes (to_json dst payload)" "to = addr" "\<exists>n. ci_send_to io request addr = Inr n"
    "printed = map_option (take CLIENT_BUFFER) (ci_reply io)"
    using client by (auto simp: node_main_def client_send_def Let_def split: sum.splits)
  obtain st' acts where res: "handle_command clk (d_state d) (DiscoverAndSend dst (into_bytes payload)) = (st', acts)"
    by (metis prod.collapse)
  have "recv_control (d_control d) (Inr (request, sender)) = Some (Inr (request, sender))"
    using fits node by (simp add: recv_control_def sent(1))
  moreover have "handle_control_message from_slice clk (d_state d) request (d_control d) =
      (st', acts, Some (into_bytes control_accepted))"
    using json node res by (simp add: handle_control_message_def sent(1) del: handle_command.simps)
  moreover have "applied ser sock d (st', acts) = (d', out)"
    using cmd res by simp
  ultimately have "daemon_step ser de from_slice d (ControlReady (Inr (request, sender)))
      (out\<lparr>out_reply := map_option (\<lambda>text. (text, sender)) (Some (into_bytes control_accepted))\<rparr>) d'"
    by (rule daemon_step.control)
  moreover have "length (into_bytes control_accepted) \<le> CLIENT_BUFFER"
    by (simp add: into_bytes_def control_accepted_def CLIENT_BUFFER_def)
  moreover have "input_of de from_slice (ControlReady (Inr (request, sender))) = Commanded (DiscoverAndSend dst (into_bytes payload))"
    using fits json by (simp add: sent(1) CONTROL_BUFFER_def)
  ultimately show ?thesis
    using sent(2-) by auto
qed

text \<open>A request for node 3, and a parser that knows it.\<close>

definition demo_json :: "u32 \<Rightarrow> string \<Rightarrow> string" where
  "demo_json dst payload = ''{\"dst\":3,\"payload\":\"hello\"}''"

definition demo_parser :: json_parser where
  "demo_parser bytes =
     (if bytes = into_bytes (demo_json 3 ''hello'') then Inr \<lparr>cs_dst = 3, cs_payload = ''hello''\<rparr>
      else Inl ''expected value'')"

theorem send_subcommand_is_executed_witness:
  "\<exists>out d'. daemon_step no_codec (\<lambda>_. Inl ''unused'') demo_parser
      (daemon_start ((chain_config 0 Dsr)\<lparr>cfg_control_bind_addr := Some (local_addr 9000)\<rparr>) None None)
      (ControlReady (Inr (into_bytes (demo_json 3 ''hello''), local_addr 5555))) out d'
    \<and> out_reply out = Some (into_bytes control_accepted, local_addr 5555)"
proof -
  let ?io = "\<lparr>ci_bind = Inr (), ci_send_to = (\<lambda>_ _. Inr 27), ci_reply = Some (into_bytes control_accepted)\<rparr>"
  let ?cli = "example_cli\<lparr>cli_command := Some (Send (local_addr 9000) 3 ''hello'')\<rparr>"
  let ?d = "daemon_start ((chain_config 0 Dsr)\<lparr>cfg_control_bind_addr := Some (local_addr 9000)\<rparr>) None None"
  let ?r = "applied no_codec broken_socket ?d (handle_command (\<lambda>_. 0) (d_state ?d) (DiscoverAndSend 3 (into_bytes ''hello'')))"
  have json: "demo_parser (into_bytes (demo_json 3 ''hello'')) = Inr \<lparr>cs_dst = 3, cs_payload = ''hello''\<rparr>"
    by (simp add: demo_parser_def)
  have fits: "length (into_bytes (demo_json 3 ''hello'')) \<le> CONTROL_BUFFER"
    by (simp add: into_bytes_def demo_json_def CONTROL_BUFFER_def)
  have main: "node_main demo_json ?io (\<lambda>_. Inr ()) (\<lambda>_. Inl []) (\<lambda>_. Inl []) (\<lambda>_. Inl []) ?cli =
      MainClient (ClientDone (into_bytes (demo_json 3 ''hello'')) (local_addr 9000)
        (Some (take CLIENT_BUFFER (into_bytes control_accepted))))"
    by (simp add: node_main_def client_send_def)
  have cli: "cli_command ?cli = Some (Send (local_addr 9000) 3 ''hello'')" and control: "d_control ?d"
    by (simp_all add: daemon_start_def Let_def split: option.split)
  have "?r = (fst ?r, snd ?r)"
    by simp
  from send_subcommand_is_executed [where to_json = demo_json and dst = 3 and payload = "''hello''"
        and from_slice = demo_parser and clk = "\<lambda>_. 0" and ser = no_codec and sock = broken_socket,
      OF json fits cli main control this, of "\<lambda>_. Inl ''unused''" "local_addr 5555"]
  show ?thesis
    by (intro exI [of _ "(snd ?r)\<lparr>out_reply := Some (into_bytes control_accepted, local_addr 5555)\<rparr>"]
        exI [of _ "fst ?r"]) simp
qed

end
