(* ===== verification/Number_Text.thy ===== *)
theory Number_Text
  imports F64
begin

text \<open>
  How the standard library prints the numbers of the reports: an unsigned integer in decimal, and
  an \<open>f64\<close> with a fixed number of decimals, rounded from its exact value with ties to even.
\<close>

section \<open>Printing\<close>

definition digit_char :: "nat \<Rightarrow> char" where
  "digit_char d = char_of (48 + d)"

fun show_nat :: "nat \<Rightarrow> string" where
  "show_nat n = (if n < 10 then [digit_char n] else show_nat (n div 10) @ [digit_char (n mod 10)])"

declare show_nat.simps [simp del]

text \<open>Exactly \<open>d\<close> digits, with leading zeros.\<close>

fun show_padded :: "nat \<Rightarrow> nat \<Rightarrow> string" where
  "show_padded 0 n = []"
| "show_padded (Suc d) n = show_padded d (n div 10) @ [digit_char (n mod 10)]"

definition show_fixed :: "nat \<Rightarrow> f64 \<Rightarrow> string" where
  "show_fixed d x =
     (let scaled = nat (round_half_even (\<bar>x\<bar> * 10 ^ d))
      in (if x < 0 then ''-'' else []) @ show_nat (scaled div 10 ^ d) @ ''.'' @ show_padded d (scaled mod 10 ^ d))"

definition show_word :: "'a::len word \<Rightarrow> string" where
  "show_word w = show_nat (unat w)"

section \<open>Reading back\<close>

definition char_digit :: "char \<Rightarrow> nat" where
  "char_digit c = of_char c - 48"

definition read_nat :: "string \<Rightarrow> nat" where
  "read_nat s = foldl (\<lambda>n c. 10 * n + char_digit c) 0 s"

text \<open>The value of a number with decimals: sign, integer part and fraction.\<close>

definition read_fixed :: "string \<Rightarrow> rat" where
  "read_fixed s =
     (let negative = (take 1 s = ''-'');
          body = (if negative then drop 1 s else s);
          whole = takeWhile (\<lambda>c. c \<noteq> CHR ''.'') body;
          frac = drop (Suc (length whole)) body;
          value = of_nat (read_nat whole) + of_nat (read_nat frac) / 10 ^ length frac
      in if negative then - value else value)"

lemma of_char_digit: "d < 10 \<Longrightarrow> of_char (digit_char d) = 48 + d"
  by (simp add: digit_char_def)

lemma char_digit_char [simp]: "d < 10 \<Longrightarrow> char_digit (digit_char d) = d"
  by (simp add: char_digit_def of_char_digit)

lemma digit_char_neq:
  assumes "d < 10"
  shows "digit_char d \<noteq> CHR ''.''" "digit_char d \<noteq> CHR ''-''"
proof -
  have "of_char (digit_char d) \<noteq> (46 :: nat)" "of_char (digit_char d) \<noteq> (45 :: nat)"
    using assms by (simp_all add: of_char_digit)
  then show "digit_char d \<noteq> CHR ''.''" "digit_char d \<noteq> CHR ''-''"
    by auto
qed

lemma read_nat_snoc [simp]: "read_nat (s @ [c]) = 10 * read_nat s + char_digit c"
  by (simp add: read_nat_def)

lemma read_nat_Nil [simp]: "read_nat [] = 0"
  by (simp add: read_nat_def)

lemma read_show_nat [simp]: "read_nat (show_nat n) = n"
proof (induction n rule: show_nat.induct)
  case (1 n)
  then show ?case
    using read_nat_snoc [of "[]" "digit_char n"]
    by (subst show_nat.simps) (auto simp: not_less)
qed

lemma read_show_padded: "n < 10 ^ d \<Longrightarrow> read_nat (show_padded d n) = n"
  by (induction d arbitrary: n) (auto simp: less_mult_imp_div_less)

lemma length_show_padded [simp]: "length (show_padded d n) = d"
  by (induction d arbitrary: n) auto

lemma show_nat_chars: "c \<in> set (show_nat n) \<Longrightarrow> c \<noteq> CHR ''.'' \<and> c \<noteq> CHR ''-''"
proof (induction n rule: show_nat.induct)
  case (1 n)
  show ?case
  proof (cases "n < 10")
    case True
    then show ?thesis
      using 1(2) digit_char_neq [of n] by (simp add: show_nat.simps [of n])
  next
    case False
    then show ?thesis
      using 1 digit_char_neq [of "n mod 10"] by (auto simp: show_nat.simps [of n])
  qed
qed

lemma show_nat_nonempty: "show_nat n \<noteq> []"
  by (subst show_nat.simps) simp

lemma takeWhile_show_nat: "takeWhile (\<lambda>c. c \<noteq> CHR ''.'') (show_nat n @ CHR ''.'' # s) = show_nat n"
  using show_nat_chars by (simp add: takeWhile_append)

lemma take_show_nat: "take 1 (show_nat n @ s) \<noteq> ''-''"
  using show_nat_chars [of "hd (show_nat n)" n] show_nat_nonempty [of n]
  by (cases "show_nat n") auto

lemma read_fixed_unsigned:
  assumes "f < 10 ^ d"
  shows "read_fixed (show_nat w @ ''.'' @ show_padded d f) = of_nat w + of_nat f / 10 ^ d"
    and "read_fixed (''-'' @ show_nat w @ ''.'' @ show_padded d f) = - (of_nat w + of_nat f / 10 ^ d)"
  using take_show_nat [of w] takeWhile_show_nat [of w] read_show_padded [OF assms]
  by (simp_all add: read_fixed_def Let_def)

lemma round_half_even_near: "\<bar>of_int (round_half_even q) - q\<bar> \<le> 1 / 2"
proof -
  have "of_int (floor q) \<le> q" "q < of_int (floor q) + 1"
    using floor_correct [of q] by simp_all
  then show ?thesis
    by (auto simp: round_half_even_def Let_def abs_le_iff)
qed

text \<open>
  A fixed-point number is read back to within half a unit of its last decimal.
\<close>

lemma read_show_fixed:
  "\<bar>read_fixed (show_fixed d x) - x\<bar> \<le> 1 / (2 * 10 ^ d)"
proof -
  define k where "k = nat (round_half_even (\<bar>x\<bar> * 10 ^ d))"
  have "0 \<le> round_half_even (\<bar>x\<bar> * 10 ^ d)"
    using round_half_even_mono [of 0 "\<bar>x\<bar> * 10 ^ d"] round_half_even_int [of 0] by simp
  then have k: "\<bar>of_nat k - \<bar>x\<bar> * 10 ^ d\<bar> \<le> 1 / 2"
    using round_half_even_near [of "\<bar>x\<bar> * 10 ^ d"] by (simp add: k_def)
  have "(of_nat (k div 10 ^ d) * 10 ^ d + of_nat (k mod 10 ^ d) :: rat) = of_nat k"
    using arg_cong [OF div_mult_mod_eq [of k "10 ^ d"], of "of_nat :: nat \<Rightarrow> rat"]
    unfolding of_nat_add of_nat_mult of_nat_power of_nat_numeral .
  then have parts: "(of_nat (k div 10 ^ d) + of_nat (k mod 10 ^ d) / 10 ^ d :: rat) = of_nat k / 10 ^ d"
    by (simp add: field_simps)
  have "read_fixed (show_fixed d x) = (if x < 0 then - (of_nat k / 10 ^ d) else of_nat k / 10 ^ d)"
    using read_fixed_unsigned [of "k mod 10 ^ d" d "k div 10 ^ d"] parts
    by (simp add: show_fixed_def Let_def k_def [symmetric])
  moreover have "\<bar>of_nat k / 10 ^ d - \<bar>x\<bar>\<bar> \<le> 1 / (2 * 10 ^ d)"
  proof -
    have "of_nat k / 10 ^ d - \<bar>x\<bar> = (of_nat k - \<bar>x\<bar> * 10 ^ d) / 10 ^ d"
      by (simp add: field_simps)
    then have "\<bar>of_nat k / 10 ^ d - \<bar>x\<bar>\<bar> = \<bar>of_nat k - \<bar>x\<bar> * 10 ^ d\<bar> / 10 ^ d"
      by simp
    also have "\<dots> \<le> (1 / 2) / 10 ^ d"
      using k by (intro divide_right_mono) auto
    finally show ?thesis by simp
  qed
  ultimately show ?thesis
    by (auto split: if_splits)
qed

end
