(* ===== verification/Bench.thy ===== *)
theory Bench
  imports Metrics Number_Text
begin

text \<open>
  \<open>crates/dldsr-bench\<close>: the comparison of the two modes on one chain (\<open>main.rs\<close>) and the
  Markdown reports (\<open>report.rs\<close>). Argument parsing and JSON output are library code: the
  parsed arguments are a record and the JSON printers are arguments.
\<close>

section \<open>Comparison\<close>

record comparison_report =
  cr_dsr :: benchmark_report
  cr_dldsr :: benchmark_report
  cr_path_header_savings_bytes :: u64
  cr_total_tx_savings_bytes :: u64
  cr_estimated_energy_savings_units :: f64

definition comparison_new :: "build_profile \<Rightarrow> usize \<Rightarrow> usize \<Rightarrow> u64 \<Rightarrow> comparison_report option" where
  "comparison_new prof hops payload_size packet_count =
     do {
       dsr \<leftarrow> simulate_chain prof hops Dsr payload_size packet_count;
       dldsr \<leftarrow> simulate_chain prof hops DlDsr payload_size packet_count;
       Some \<lparr>cr_dsr = dsr, cr_dldsr = dldsr,
             cr_path_header_savings_bytes =
               saturating_sub (br_path_header_bytes dsr) (br_path_header_bytes dldsr),
             cr_total_tx_savings_bytes =
               saturating_sub (br_total_tx_bytes dsr) (br_total_tx_bytes dldsr),
             cr_estimated_energy_savings_units =
               f64_sub (br_estimated_energy_units dsr) (br_estimated_energy_units dldsr)\<rparr>
     }"

section \<open>Reports\<close>

definition unlines :: "string list \<Rightarrow> string" where
  "unlines ls = concat (map (\<lambda>l. l @ [CHR 0x0A]) ls)"

definition row :: "string \<Rightarrow> string \<Rightarrow> string" where
  "row name value = ''| '' @ name @ '' | '' @ value @ '' |''"

definition row2 :: "string \<Rightarrow> string \<Rightarrow> string \<Rightarrow> string" where
  "row2 name v1 v2 = ''| '' @ name @ '' | '' @ v1 @ '' | '' @ v2 @ '' |''"

definition energy_note :: string where
  "energy_note = ''Energy is a transparent proxy: tx_bytes * 1.0 + rx_bytes * 0.5.''"

definition markdown_lines :: "benchmark_report \<Rightarrow> string list" where
  "markdown_lines r =
     [''# DL-DSR Benchmark Summary'', [],
      ''| metric | value |'', ''| --- | ---: |'',
      row ''mode'' (mode_display (br_mode r)),
      row ''hops'' (show_word (br_hops r)),
      row ''payload_size'' (show_word (br_payload_size r)),
      row ''packets'' (show_word (br_packet_count r)),
      row ''total_tx_bytes'' (show_word (br_total_tx_bytes r)),
      row ''total_rx_bytes'' (show_word (br_total_rx_bytes r)),
      row ''path_header_bytes'' (show_word (br_path_header_bytes r)),
      row ''delivered_packets'' (show_word (br_delivered_packets r)),
      row ''lost_packets'' (show_word (br_lost_packets r)),
      row ''delivery_ratio'' (show_fixed 3 (br_delivery_ratio r)),
      row ''average_latency_ms'' (show_fixed 3 (br_average_latency_ms r)),
      row ''p50_latency_ms'' (show_fixed 3 (br_p50_latency_ms r)),
      row ''p95_latency_ms'' (show_fixed 3 (br_p95_latency_ms r)),
      row ''estimated_energy_units'' (show_fixed 1 (br_estimated_energy_units r)), [],
      energy_note]"

definition markdown :: "benchmark_report \<Rightarrow> string" where
  "markdown r = unlines (markdown_lines r)"

definition comparison_lines :: "comparison_report \<Rightarrow> string list" where
  "comparison_lines c =
     (let dsr = cr_dsr c; dldsr = cr_dldsr c;
          hops = show_word (br_hops dsr);
          payload_size = show_word (br_payload_size dsr);
          packets = show_word (br_packet_count dsr)
      in [''# DSR vs DL-DSR Benchmark Summary'', [],
          ''| metric | DSR | DL-DSR |'', ''| --- | ---: | ---: |'',
          row2 ''hops'' hops hops,
          row2 ''payload_size'' payload_size payload_size,
          row2 ''packets'' packets packets,
          row2 ''total_tx_bytes'' (show_word (br_total_tx_bytes dsr)) (show_word (br_total_tx_bytes dldsr)),
          row2 ''total_rx_bytes'' (show_word (br_total_rx_bytes dsr)) (show_word (br_total_rx_bytes dldsr)),
          row2 ''path_header_bytes'' (show_word (br_path_header_bytes dsr))
            (show_word (br_path_header_bytes dldsr)),
          row2 ''delivered_packets'' (show_word (br_delivered_packets dsr))
            (show_word (br_delivered_packets dldsr)),
          row2 ''delivery_ratio'' (show_fixed 3 (br_delivery_ratio dsr)) (show_fixed 3 (br_delivery_ratio dldsr)),
          row2 ''average_latency_ms'' (show_fixed 3 (br_average_latency_ms dsr))
            (show_fixed 3 (br_average_latency_ms dldsr)),
          row2 ''p95_latency_ms'' (show_fixed 3 (br_p95_latency_ms dsr)) (show_fixed 3 (br_p95_latency_ms dldsr)),
          row2 ''estimated_energy_units'' (show_fixed 1 (br_estimated_energy_units dsr))
            (show_fixed 1 (br_estimated_energy_units dldsr)), [],
          ''| savings | value |'', ''| --- | ---: |'',
          row ''path_header_savings_bytes'' (show_word (cr_path_header_savings_bytes c)),
          row ''total_tx_savings_bytes'' (show_word (cr_total_tx_savings_bytes c)),
          row ''estimated_energy_savings_units'' (show_fixed 1 (cr_estimated_energy_savings_units c)), [],
          energy_note])"

definition comparison_markdown :: "comparison_report \<Rightarrow> string" where
  "comparison_markdown c = unlines (comparison_lines c)"

section \<open>The program\<close>

record bench_args =
  ba_mode :: protocol_mode
  ba_hops :: usize
  ba_payload_size :: usize
  ba_packets :: u64
  ba_json :: bool
  ba_compare :: bool

text \<open>What is printed, or the error of the JSON printer; \<open>None\<close> is a panic of the simulation.\<close>

definition bench_main ::
    "build_profile \<Rightarrow> (comparison_report \<Rightarrow> (string, string) result) \<Rightarrow>
     (benchmark_report \<Rightarrow> (string, string) result) \<Rightarrow> bench_args \<Rightarrow> (string, string) result option" where
  "bench_main prof comparison_json report_json args =
     (if ba_compare args
      then map_option
             (\<lambda>comparison. if ba_json args then comparison_json comparison
                           else Inr (comparison_markdown comparison))
             (comparison_new prof (ba_hops args) (ba_payload_size args) (ba_packets args))
      else map_option
             (\<lambda>report. if ba_json args then report_json report else Inr (markdown report))
             (simulate_chain prof (ba_hops args) (ba_mode args) (ba_payload_size args) (ba_packets args)))"

section \<open>What the benchmark reports\<close>

lemma chain_fits_Dsr: "chain_fits Dsr hops payload n \<Longrightarrow> chain_fits mode hops payload n"
proof -
  assume fits: "chain_fits Dsr hops payload n"
  have le: "packet_bytes mode hops payload \<le> packet_bytes Dsr hops payload"
    by (cases mode) (simp_all add: packet_bytes_def entry_bytes_def)
  then have "packet_bytes mode hops payload * unat n * chain_links hops
      \<le> packet_bytes Dsr hops payload * unat n * chain_links hops"
    by (intro mult_le_mono) simp_all
  with fits le show ?thesis
    unfolding chain_fits_def by linarith
qed

text \<open>The mode whose counts are the largest of a run of the program.\<close>

definition widest_mode :: "bench_args \<Rightarrow> protocol_mode" where
  "widest_mode args = (if ba_compare args then Dsr else ba_mode args)"

text \<open>
  C38. On up to $2^{53}$ packets the percentile indices are in range, so the release build of the
  benchmark never panics. The development build, which the README runs, panics exactly when the
  bytes of a packet or of the whole run do not fit in 64 bits (in DSR mode when both modes are
  compared), and otherwise does what the release build does. In every report the 50th percentile
  is at most the 95th.
\<close>

theorem benchmark_panics_only_on_overflow:
  assumes packets: "unat (ba_packets args) \<le> 2 ^ 53"
  shows "bench_main Release comparison_json report_json args \<noteq> None
    \<and> bench_main Dev comparison_json report_json args =
        (if chain_fits (widest_mode args) (ba_hops args) (ba_payload_size args) (ba_packets args)
         then bench_main Release comparison_json report_json args else None)
    \<and> (\<forall>prof r. simulate_chain prof (ba_hops args) (ba_mode args) (ba_payload_size args) (ba_packets args) = Some r
         \<longrightarrow> br_p50_latency_ms r \<le> br_p95_latency_ms r)"
proof -
  let ?run = "\<lambda>prof mode. simulate_chain prof (ba_hops args) mode (ba_payload_size args) (ba_packets args)"
  let ?fits = "\<lambda>mode. chain_fits mode (ba_hops args) (ba_payload_size args) (ba_packets args)"
  have release: "?run Release mode \<noteq> None" for mode
    using simulate_chain_release [OF packets] by simp
  have same: "?run Dev mode = ?run Release mode" if "?fits mode" for mode
    by (rule simulate_chain_fits [OF packets that]) simp
  have panic: "?run Dev mode = None" if "\<not> ?fits mode" for mode
    using that by (rule simulate_chain_dev_panics)
  have "bench_main Release comparison_json report_json args \<noteq> None"
    using release [of Dsr] release [of DlDsr] release [of "ba_mode args"]
    by (auto simp: bench_main_def comparison_new_def)
  moreover have "bench_main Dev comparison_json report_json args =
      (if ?fits (widest_mode args) then bench_main Release comparison_json report_json args else None)"
    using same [of Dsr] same [of DlDsr] same [of "ba_mode args"] chain_fits_Dsr [of _ _ _ DlDsr]
      panic [of Dsr] panic [of "ba_mode args"]
    by (simp add: bench_main_def comparison_new_def widest_mode_def)
  ultimately show ?thesis
    using simulate_chain_percentiles by blast
qed

theorem benchmark_panics_only_on_overflow_witness:
  "bench_main Dev (\<lambda>_. Inl []) (\<lambda>_. Inl []) \<lparr>ba_mode = DlDsr, ba_hops = 4, ba_payload_size = 64,
     ba_packets = 100, ba_json = False, ba_compare = True\<rparr> \<noteq> None
   \<and> bench_main Dev (\<lambda>_. Inl []) (\<lambda>_. Inl []) \<lparr>ba_mode = DlDsr, ba_hops = 4, ba_payload_size = 0xFFFFFFFFFFFFFFFF,
     ba_packets = 100, ba_json = False, ba_compare = False\<rparr> = None"
  using benchmark_panics_only_on_overflow [of "\<lparr>ba_mode = DlDsr, ba_hops = 4, ba_payload_size = 64,
      ba_packets = 100, ba_json = False, ba_compare = True\<rparr>" "\<lambda>_. Inl []" "\<lambda>_. Inl []"]
    benchmark_panics_only_on_overflow [of "\<lparr>ba_mode = DlDsr, ba_hops = 4, ba_payload_size = 0xFFFFFFFFFFFFFFFF,
      ba_packets = 100, ba_json = False, ba_compare = False\<rparr>" "\<lambda>_. Inl []" "\<lambda>_. Inl []"]
  by (simp add: chain_fits_def packet_bytes_def entry_bytes_def widest_mode_def)

text \<open>
  C39. Labels save what they promise: while the byte counts fit in 64 bits, in both build profiles,
  the comparison reports three bytes of header saved per hop and packet, that many again on every
  link, and an energy saving that is not negative.
\<close>

theorem dldsr_saves_three_bytes_per_hop:
  assumes packets: "unat n \<le> 2 ^ 53" and fits: "chain_fits Dsr hops payload n"
  shows "\<exists>c. comparison_new prof hops payload n = Some c
    \<and> unat (cr_path_header_savings_bytes c) = 3 * unat hops * unat n
    \<and> unat (cr_total_tx_savings_bytes c) = 3 * unat hops * unat n * chain_links hops
    \<and> 0 \<le> cr_estimated_energy_savings_units c"
proof -
  let ?bytes = "\<lambda>mode. packet_bytes mode hops payload * unat n * chain_links hops"
  obtain dsr where dsr: "\<And>prof. simulate_chain prof hops Dsr payload n = Some dsr"
    "unat (br_path_header_bytes dsr) = entry_bytes Dsr * unat hops * unat n" "unat (br_total_tx_bytes dsr) = ?bytes Dsr"
    "br_estimated_energy_units dsr = total_energy_units (energy_from_bytes (br_total_tx_bytes dsr) (br_total_tx_bytes dsr))"
    using simulate_chain_fits [OF packets fits] by blast
  obtain dldsr where dldsr: "\<And>prof. simulate_chain prof hops DlDsr payload n = Some dldsr"
    "unat (br_path_header_bytes dldsr) = entry_bytes DlDsr * unat hops * unat n" "unat (br_total_tx_bytes dldsr) = ?bytes DlDsr"
    "br_estimated_energy_units dldsr = total_energy_units (energy_from_bytes (br_total_tx_bytes dldsr) (br_total_tx_bytes dldsr))"
    using simulate_chain_fits [OF packets chain_fits_Dsr [OF fits]] by blast
  have diff: "?bytes Dsr - ?bytes DlDsr = 3 * unat hops * unat n * chain_links hops"
    unfolding packet_bytes_def entry_bytes_def by (simp flip: diff_mult_distrib)
  have "?bytes DlDsr \<le> ?bytes Dsr"
    unfolding packet_bytes_def entry_bytes_def by (intro mult_le_mono) simp_all
  then have "br_total_tx_bytes dldsr \<le> br_total_tx_bytes dsr"
    using dsr(3) dldsr(3) by (simp add: word_le_nat_alt)
  then have "br_estimated_energy_units dldsr \<le> br_estimated_energy_units dsr"
    unfolding dsr(4) dldsr(4) by (intro energy_mono)
  then have "0 \<le> f64_sub (br_estimated_energy_units dsr) (br_estimated_energy_units dldsr)"
    by (simp add: f64_sub_def f64.nonneg)
  then show ?thesis
    using dsr(1-3) dldsr(1-3) diff by (simp add: comparison_new_def unat_saturating_sub entry_bytes_def)
qed

theorem dldsr_saves_three_bytes_per_hop_witness:
  "\<exists>c. comparison_new Dev 4 64 100 = Some c \<and> unat (cr_path_header_savings_bytes c) = 1200
     \<and> unat (cr_total_tx_savings_bytes c) = 3600"
  using dldsr_saves_three_bytes_per_hop [of 100 4 64 Dev]
  by (auto simp: chain_fits_def packet_bytes_def entry_bytes_def)

section \<open>Reading a report\<close>

text \<open>The value cell of the row with the given name, in a table with one value column.\<close>

fun strip_prefix :: "string \<Rightarrow> string \<Rightarrow> string option" where
  "strip_prefix [] s = Some s"
| "strip_prefix (c # cs) [] = None"
| "strip_prefix (c # cs) (d # ds) = (if c = d then strip_prefix cs ds else None)"

fun cell :: "string list \<Rightarrow> string \<Rightarrow> string option" where
  "cell [] name = None"
| "cell (l # ls) name =
     (case strip_prefix (''| '' @ name @ '' | '') l of
        None \<Rightarrow> cell ls name | Some rest \<Rightarrow> Some (butlast (butlast rest)))"

lemma butlast_cell: "butlast (butlast (v @ '' |'')) = v"
  by (simp add: butlast_append)

lemma markdown_cells:
  "cell (markdown_lines r) ''mode'' = Some (mode_display (br_mode r))"
  "cell (markdown_lines r) ''hops'' = Some (show_word (br_hops r))"
  "cell (markdown_lines r) ''payload_size'' = Some (show_word (br_payload_size r))"
  "cell (markdown_lines r) ''packets'' = Some (show_word (br_packet_count r))"
  "cell (markdown_lines r) ''total_tx_bytes'' = Some (show_word (br_total_tx_bytes r))"
  "cell (markdown_lines r) ''total_rx_bytes'' = Some (show_word (br_total_rx_bytes r))"
  "cell (markdown_lines r) ''path_header_bytes'' = Some (show_word (br_path_header_bytes r))"
  "cell (markdown_lines r) ''delivered_packets'' = Some (show_word (br_delivered_packets r))"
  "cell (markdown_lines r) ''lost_packets'' = Some (show_word (br_lost_packets r))"
  "cell (markdown_lines r) ''delivery_ratio'' = Some (show_fixed 3 (br_delivery_ratio r))"
  "cell (markdown_lines r) ''average_latency_ms'' = Some (show_fixed 3 (br_average_latency_ms r))"
  "cell (markdown_lines r) ''p50_latency_ms'' = Some (show_fixed 3 (br_p50_latency_ms r))"
  "cell (markdown_lines r) ''p95_latency_ms'' = Some (show_fixed 3 (br_p95_latency_ms r))"
  "cell (markdown_lines r) ''estimated_energy_units'' = Some (show_fixed 1 (br_estimated_energy_units r))"
  by (simp_all add: markdown_lines_def row_def butlast_append)

text \<open>
  The rows of the report with the field each shows: counts, and rounded values with the number of
  decimals.
\<close>

definition count_rows :: "benchmark_report \<Rightarrow> (string \<times> u64) list" where
  "count_rows r =
     [(''hops'', br_hops r), (''payload_size'', br_payload_size r), (''packets'', br_packet_count r),
      (''total_tx_bytes'', br_total_tx_bytes r), (''total_rx_bytes'', br_total_rx_bytes r),
      (''path_header_bytes'', br_path_header_bytes r),
      (''delivered_packets'', br_delivered_packets r), (''lost_packets'', br_lost_packets r)]"

definition rounded_rows :: "benchmark_report \<Rightarrow> (string \<times> nat \<times> f64) list" where
  "rounded_rows r =
     [(''delivery_ratio'', 3, br_delivery_ratio r), (''average_latency_ms'', 3, br_average_latency_ms r),
      (''p50_latency_ms'', 3, br_p50_latency_ms r), (''p95_latency_ms'', 3, br_p95_latency_ms r),
      (''estimated_energy_units'', 1, br_estimated_energy_units r)]"

text \<open>
  C40. The Markdown report of a run says what was measured, in every one of its fourteen rows: the
  mode and the eight counts can be read back exactly, the five rounded values to half a unit of
  their last decimal.
\<close>

theorem report_can_be_read_back:
  "map_option mode_from_str (cell (markdown_lines r) ''mode'') = Some (Inr (br_mode r))
   \<and> list_all (\<lambda>(name, v). map_option read_nat (cell (markdown_lines r) name) = Some (unat v)) (count_rows r)
   \<and> list_all (\<lambda>(name, d, v). case cell (markdown_lines r) name of
        None \<Rightarrow> False | Some t \<Rightarrow> \<bar>read_fixed t - v\<bar> \<le> 1 / (2 * 10 ^ d)) (rounded_rows r)"
  using read_show_fixed [of 3] read_show_fixed [of 1 "br_estimated_energy_units r"]
  by (simp add: markdown_cells count_rows_def rounded_rows_def mode_from_display show_word_def)

end
