(* ===== verification/Spec2Isabelle.thy ===== *)
theory Spec2Isabelle
  imports Network_Example Node_Main Bench
begin

text \<open>
  \<^bold>\<open>A verification of dl-dsr-rs\<close>, an ad-hoc routing node in Rust that speaks source routing (DSR)
  and a variant whose data packets carry one-byte neighbour labels (DL-DSR).

  \<^bold>\<open>The program.\<close> \<open>crates/dldsr-core\<close> holds the data: packets and their codec, the topology file,
  the table of labels a node hands out to its neighbours and the table of labels it was given, the
  route cache, the cache of route requests already seen, counters and a chain benchmark.
  \<open>crates/dldsr-node\<close> holds the protocol, a state machine without I/O whose handlers take a packet,
  a command or a tick and return packets to send and events to report (\<open>protocol.rs\<close>), the
  asynchronous event loop around it (\<open>daemon.rs\<close>, \<open>udp_transport.rs\<close>) and the configuration
  (\<open>cli.rs\<close>, \<open>config.rs\<close>). \<open>crates/dldsr-bench\<close> compares the two modes and prints reports.

  Neighbours learn labels by hello and hello-reply. A node without a route floods a request; each
  node appends itself to the path and, in DL-DSR mode, the label the previous hop gave it; the
  destination answers along the recorded trace; the source caches the route and sends the waiting
  payloads; data packets follow the path with a cursor, by node id or by label.

  \<^bold>\<open>The theories\<close>, in the order of the imports.

  \<^item> \<open>Prelude\<close>: machine words, Rust's \<open>Result\<close>, \<open>Vec\<close>, iterator and \<open>HashMap\<close> operations as used by
    the sources, clock readings. The locale \<open>hash_map_spec\<close> states the laws of the map operations;
    \<open>transition_invariant\<close> turns step preservation into an invariant of all reachable states.
  \<^item> \<open>Packets\<close> (\<open>packet.rs\<close>, \<open>error.rs\<close>, \<open>label.rs\<close>), \<open>Topology\<close> (\<open>topology.rs\<close>),
    \<open>Tables\<close> (\<open>tables.rs\<close>), \<open>Routes\<close> (\<open>route.rs\<close>): one record or datatype per struct or enum, one
    definition per method. The locales \<open>label_allocator\<close>, \<open>route_store\<close> and \<open>duplicate_filter\<close> are the
    contracts the protocol relies on, each interpreted on the model of the Rust type. Shown: labels
    are stable, unique, minimal, and run out exactly at 255; look-ups do not depend on the iteration
    order of the map; the shortest live route is found; the duplicate cache is bounded, evicts the
    oldest, and lets each remembered request pass once; the chain generator builds a line.
  \<^item> \<open>F64\<close>, \<open>Metrics\<close> (\<open>metrics.rs\<close>, \<open>energy.rs\<close>), \<open>Number_Text\<close>, \<open>Bench\<close> (\<open>dldsr-bench\<close>): binary64
    arithmetic as rounded rationals, counters, percentiles, the benchmark, decimal printing and the
    Markdown reports, in both build profiles. Shown: when the benchmark panics, ordered percentiles,
    the byte savings of labels, reports that can be read back row by row.
  \<^item> \<open>Protocol_State\<close>, \<open>Protocol\<close> (\<open>protocol.rs\<close>): \<open>protocol_state\<close> is \<open>ProtocolState\<close>; every method is a
    definition of the same name that returns the new state and the actions. \<open>Protocol_Facts\<close> has
    the closed forms of the loops, \<open>Protocol_Inv\<close> the invariant of a node and its step relation,
    \<open>Chain_Example\<close> the configuration of the unit tests, \<open>Protocol_Discovery\<close>, \<open>Protocol_Replies\<close> and
    \<open>Protocol_Data\<close> the behaviour of requests, retries, replies, hellos and data on every branch.
  \<^item> \<open>Config\<close> (\<open>cli.rs\<close>, \<open>config.rs\<close>), \<open>Daemon\<close> (\<open>daemon.rs\<close>, \<open>udp_transport.rs\<close>), \<open>Metrics_File\<close>
    (\<open>write_metrics_snapshot\<close>) and \<open>Node_Main\<close> (\<open>main.rs\<close>): loading, the transport, the \<open>select!\<close> loop as a
    step relation labelled with the branch that is ready, one rule per branch and outcome, the
    states of the files while a snapshot is written, start, shutdown and the \<open>send\<close> subcommand.
    \<open>Daemon_Refinement\<close> states what the loop promises as a node that reacts to one input at a time.
    Shown: every iteration refines such a reaction; the node's invariant holds in every reachable
    state; sends are accounted for by the answers of the socket; the metrics file is never half
    written; a node executes what the subcommand sends.
  \<^item> \<open>Network\<close>, \<open>Network_Handlers\<close>, \<open>Network_Inv\<close>, \<open>Network_Example\<close>: any number of nodes on one
    topology and a wire that may lose, duplicate, delay and reorder packets. The invariant relates
    the path and labels in every packet and cache to the topology and to the label tables of other
    nodes; the theorems below are its consequences.
  \<^item> \<open>Network_Discovery\<close>, \<open>Network_Hello\<close>: runs that succeed. Hop by hop a request travels along a
    path, the reply comes back and the payload goes out; before that, hello exchanges along the
    path give every node the label it needs.

  \<^bold>\<open>Conventions.\<close> Integers keep their width and wrap, as in the release profile the container builds;
  the benchmark is modelled in the development profile too, where an overflow is a panic.
  A handler reads the clock through a tape of readings about which nothing is assumed. A hash map
  is an association list with distinct keys; the step relations reorder it at will. Loops over
  queues and neighbour lists are structural recursions, so every handler is total and no fuel is
  used. Code outside the repository is a parameter: \<open>bincode\<close> (\<open>ser\<close>, \<open>de\<close>), \<open>serde_json\<close>, TOML, the
  file operations of \<open>tokio::fs\<close> (with their documented behaviour as hypotheses) and socket results.

  \<^bold>\<open>Not modelled.\<close> Log output; the wording of drop reasons; timer periods and fairness of the
  \<open>tokio\<close> scheduler (any branch may run at any time); backpressure of the event channel;
  directories, links and permissions of the file system; argument parsing (\<open>clap\<close>); the
  placeholder crate \<open>dldsr-uring\<close>; the eBPF prototype, containers and scripts. \<open>f64\<close> has no
  subnormal numbers, infinities or NaN, which the program never produces.
\<close>

section \<open>Routes across the network\<close>

text \<open>
  C1. Every route any node ever caches is real: it starts at the node, ends at the destination it
  is filed under, consecutive nodes list each other as neighbours, and in DL-DSR mode following
  its labels, each resolved in the table of the node reached, leads from the node to that
  destination. The wire may lose, duplicate, delay and reorder packets.
\<close>

theorem cached_routes_lead_to_destination:
  assumes "configured T mode cfgs" "(net_step T)\<^sup>*\<^sup>* (net_start cfgs) N"
    and "r \<in> routes_to (ps_routes (net_nodes N i)) dst"
  shows "real_path T (re_dsr_path r) \<and> hd (re_dsr_path r) = i \<and> last (re_dsr_path r) = dst
    \<and> (mode = DlDsr \<longrightarrow> follow_labels N i (re_dldsr_label_path r) = Some dst)"
proof -
  have ok: "net_ok T mode cfgs N"
    using assms(1,2) by (rule net_reachable_ok)
  then have route: "full_route T mode (net_view N) i dst (re_dsr_path r) (re_dldsr_label_path r)"
    using assms(3) by (simp add: net_ok_def state_ok_def)
  then have "follow_labels N i (re_dldsr_label_path r) = Some dst" if "mode = DlDsr"
    using net_ok_follow [OF ok] that by (auto simp: full_route_def route_ok_def)
  with route show ?thesis
    by (auto simp: full_route_def route_ok_def)
qed

theorem cached_routes_lead_to_destination_witness:
  "real_path chain4 [0, 1]"
  using cached_routes_lead_to_destination [OF chain_configured sent_reachable sent_route]
  by (simp add: route_new_dsr_def)

text \<open>
  C2. No data packet in flight is ever misrouted or dropped: the node it is addressed to delivers
  it when it is the destination, and otherwise sends exactly one copy, with the cursor advanced,
  to the address of the next node of the path, in both modes.
\<close>

theorem data_in_flight_goes_on:
  assumes "configured T mode cfgs" "(net_step T)\<^sup>*\<^sup>* (net_start cfgs) N"
    and "(sender, Data src dst sq m cursor dsr labels payload created, a) \<in> net_wire N"
    and "node_addr T i = Some a"
    and "(st', acts) = handle_packet clk (net_nodes N i)
           (Data src dst sq m cursor dsr labels payload created) sender"
  shows "i = dst \<and> acts = \<lparr>pa_outbound = [], pa_events = [DataDelivered dst src dst sq payload]\<rparr>
    \<or> i \<noteq> dst \<and> (\<exists>ep. node_addr T (dsr ! Suc (unat cursor)) = Some ep
        \<and> acts = \<lparr>pa_outbound = [\<lparr>ob_packet = Data src dst sq m (cursor + 1) dsr labels payload created,
                                  ob_dst = ep\<rparr>], pa_events = []\<rparr>)"
proof -
  note ok = net_reachable_ok [OF assms(1,2)]
  note node = net_ok_node [OF assms(1) ok]
  obtain k where k: "unat cursor = Suc k"
    using node(3) [OF assms(3)] by auto
  have "self_id (net_nodes N i) = i"
    using node(1) assms(1) by (simp add: configured_sel)
  then show ?thesis
    using data_in_flight [OF assms(1) node(1,2) assms(4) node(3) [OF assms(3)] refl k, of clk] assms(5) k
    by (auto simp: deliver_data_def no_actions_def actions_send_def actions_event_def)
qed

theorem data_in_flight_goes_on_witness:
  "snd (handle_packet (\<lambda>_. 130) (net_nodes sent 1) (Data 0 1 1 Dsr 1 [0, 1] [] [7] 120) (local_addr 7000)) =
     \<lparr>pa_outbound = [], pa_events = [DataDelivered 1 0 1 1 [7]]\<rparr>"
  using data_in_flight_goes_on [OF chain_configured sent_reachable sent_wire chain_addr(2) prod.collapse]
  by auto

text \<open>
  C3. A data packet in flight arrives: as many deliveries as the path has hops left bring the
  payload to its destination, which reports it. (That the wire performs them is the caller's
  fairness assumption; no other step can get in the way, since C2 holds in every state.)
\<close>

theorem data_in_flight_arrives:
  assumes "configured T mode cfgs" "(net_step T)\<^sup>*\<^sup>* (net_start cfgs) N"
    and "(sender, Data src dst sq m cursor dsr labels payload created, a) \<in> net_wire N"
  shows "\<exists>N'. ((net_step T) ^^ (length dsr - unat cursor)) N N'
    \<and> (dst, DataDelivered dst src dst sq payload) \<in> net_reported N'"
  using data_arrives [OF assms(1) net_reachable_ok [OF assms(1,2)] assms(3) refl] .

theorem data_in_flight_arrives_witness:
  "\<exists>N. net_step chain4 sent N \<and> (1, DataDelivered 1 0 1 1 [7]) \<in> net_reported N"
  using data_in_flight_arrives [OF chain_configured sent_reachable sent_wire] by auto

text \<open>
  C4. Discovery works, in both modes and from cold tables. Take any reachable network and any
  simple path of mutual neighbours whose nodes have not seen the source's next request, accept
  its hop count and, in DL-DSR mode, have a label left to give. When, at the time of the
  command, the source has neither a live route to the end of the path nor a discovery for it
  under way, a run exists in which labels are learnt by hellos where they are needed and a payload
  handed to the source is requested for, answered, sent and reported as delivered at the end of
  the path. (With a live route the payload leaves at once; see C3 for what follows.)
\<close>

theorem discovery_delivers:
  assumes "configured T mode cfgs" "(net_step T)\<^sup>*\<^sup>* (net_start cfgs) N"
    and "real_path T p" "distinct p" "2 \<le> length p" "hd p = src" "last p = dst"
    and "\<And>k. Suc k < length p \<Longrightarrow> open_hop mode cfgs p src (ps_next_request_id (net_nodes N src)) N k"
    and "route_shortest (ps_routes (net_nodes N src)) dst now = None"
    and "hm_get (ps_discoveries (net_nodes N src)) dst = None"
  shows "\<exists>N' sq. (net_step T)\<^sup>*\<^sup>* N N' \<and> (dst, DataDelivered dst src dst sq payload) \<in> net_reported N'"
  using cold_discovery_run [OF assms(1) net_reachable_ok [OF assms(1,2)] assms(3-10)] .

theorem discovery_delivers_witness:
  "\<exists>N' sq. (net_step chain4)\<^sup>*\<^sup>* (net_start (chain_cfgs DlDsr)) N' \<and> (3, DataDelivered 3 0 3 sq [7]) \<in> net_reported N'"
  by (rule discovery_delivers [OF chain_configured rtranclp.rtrancl_refl chain_path _ _ _ _ chain_open])
    (simp_all add: net_start_def route_shortest_def route_cache_default_def)

text \<open>
  C5. Delivered payloads are authentic: a node reports a delivery only for itself, of a payload
  that the named source was commanded to send to it.
\<close>

theorem delivered_data_authentic:
  assumes "configured T mode cfgs" "(net_step T)\<^sup>*\<^sup>* (net_start cfgs) N"
    and "(i, DataDelivered n src dst sq payload) \<in> net_reported N"
  shows "n = i \<and> dst = i \<and> (src, i, payload) \<in> net_issued N"
  using net_reachable_ok [OF assms(1,2)] assms(3) by (fastforce simp: net_ok_def)

theorem delivered_data_authentic_witness:
  "\<exists>N :: network. (1, DataDelivered 1 0 1 1 [7]) \<in> net_reported N \<and> (0, 1, [7]) \<in> net_issued N"
proof -
  obtain N where N: "net_step chain4 sent N" "(1, DataDelivered 1 0 1 1 [7]) \<in> net_reported N"
    using data_arrives [OF chain_configured net_reachable_ok [OF chain_configured sent_reachable] sent_wire refl]
    by auto
  have "(net_step chain4)\<^sup>*\<^sup>* (net_start (chain_cfgs Dsr)) N"
    using sent_reachable N(1) by (rule rtranclp.rtrancl_into_rtrancl)
  from delivered_data_authentic [OF chain_configured this N(2)] show ?thesis
    using N(2) by blast
qed

text \<open>
  C6. In a network of honest nodes on one topology the only reason a payload is ever reported as
  dropped is a discovery that failed: no label is unknown, no cursor wrong, no neighbour
  missing.
\<close>

theorem only_failed_discoveries_drop:
  assumes "configured T mode cfgs" "(net_step T)\<^sup>*\<^sup>* (net_start cfgs) N"
    and "(i, DataDropped n dst reason) \<in> net_reported N"
  shows "reason = DiscoveryFailed"
  using net_reachable_ok [OF assms(1,2)] assms(3) by (fastforce simp: net_ok_def)

theorem only_failed_discoveries_drop_witness:
  "\<exists>N :: network. \<exists>n dst reason. (0, DataDropped n dst reason) \<in> net_reported N \<and> reason = DiscoveryFailed"
  using only_failed_discoveries_drop [OF impatient_configured gave_up_reachable gave_up_reported] gave_up_reported
  by blast

end
